(* ===== verification/Prelude.thy ===== *)
theory Prelude
  imports Main "HOL-Library.Word" "HOL-Library.List_Lexorder" "HOL-Library.Char_ord"
begin

text \<open>
  What every component shares.

  \<^item> The collections of hints: \<open>smap_laws\<close> (lookups in updated maps), \<open>getter_simps\<close>
    (argument readers), \<open>wf_rules\<close> (operations keep their invariant) and \<open>frame_rules\<close>
    (what an operation leaves alone).
  \<^item> \<open>std::map\<close> as an ordered association list. The code iterates over its maps (the device
    registry, the actuator snapshot, the argument map), so the order of the entries is part of the
    behaviour; keys are strings ordered by unsigned bytes, as \<open>std::string\<close> compares.
    The interface the components use is the locale \<open>std_map\<close>, interpreted here on the
    ordered lists.
  \<^item> The string operations of the code: \<open>find('/')\<close>, \<open>substr\<close>,
    \<open>std::to_string\<close> of an unsigned integer.
  \<^item> Signed 64-bit arithmetic written out over \<open>int\<close>.
\<close>

named_theorems smap_laws
named_theorems getter_simps
named_theorems wf_rules
named_theorems frame_rules

section \<open>Ordered maps\<close>

type_synonym ('k, 'v) smap = "('k \<times> 'v) list"

definition m_empty :: "('k, 'v) smap" where
  "m_empty = []"

fun m_find :: "'k \<Rightarrow> ('k, 'v) smap \<Rightarrow> 'v option" where
  "m_find k [] = None"
| "m_find k ((k', v) # m) = (if k = k' then Some v else m_find k m)"

fun m_put :: "'k::linorder \<Rightarrow> 'v \<Rightarrow> ('k, 'v) smap \<Rightarrow> ('k, 'v) smap" where
  "m_put k v [] = [(k, v)]"
| "m_put k v ((k', v') # m) =
     (if k = k' then (k, v) # m
      else if k < k' then (k, v) # (k', v') # m
      else (k', v') # m_put k v m)"

fun m_erase :: "'k \<Rightarrow> ('k, 'v) smap \<Rightarrow> ('k, 'v) smap" where
  "m_erase k [] = []"
| "m_erase k ((k', v') # m) = (if k = k' then m_erase k m else (k', v') # m_erase k m)"

definition m_keys :: "('k, 'v) smap \<Rightarrow> 'k list" where
  "m_keys m = map fst m"

definition m_ok :: "('k::linorder, 'v) smap \<Rightarrow> bool" where
  "m_ok m \<longleftrightarrow> sorted_wrt (<) (map fst m)"

definition m_mem :: "'k \<Rightarrow> ('k, 'v) smap \<Rightarrow> bool" where
  "m_mem k m \<longleftrightarrow> m_find k m \<noteq> None"

text \<open>
  \<open>operator[]\<close> of \<open>std::map\<close>: a missing key is first given the default value.
\<close>

definition m_get_or_insert :: "'k::linorder \<Rightarrow> 'v \<Rightarrow> ('k, 'v) smap \<Rightarrow> 'v \<times> ('k, 'v) smap" where
  "m_get_or_insert k d m =
     (case m_find k m of Some v \<Rightarrow> (v, m) | None \<Rightarrow> (d, m_put k d m))"

lemma m_find_empty [simp, smap_laws]: "m_find k m_empty = None"
  by (simp add: m_empty_def)

lemma m_find_put [simp, smap_laws]: "m_find k (m_put k' v m) = (if k = k' then Some v else m_find k m)"
  by (induction m) auto

lemma m_find_erase [simp, smap_laws]: "m_find k (m_erase k' m) = (if k = k' then None else m_find k m)"
  by (induction m) auto

lemma m_keys_Nil [simp]: "m_keys [] = []"
  by (simp add: m_keys_def)

lemma m_keys_Cons [simp]: "m_keys (e # m) = fst e # m_keys m"
  by (simp add: m_keys_def)

lemma m_keys_empty [simp]: "m_keys m_empty = []"
  by (simp add: m_empty_def)

lemma m_ok_Nil [simp]: "m_ok []"
  by (simp add: m_ok_def)

lemma m_ok_Cons [simp]: "m_ok (e # m) \<longleftrightarrow> (\<forall>k \<in> set (m_keys m). fst e < k) \<and> m_ok m"
  by (auto simp: m_ok_def m_keys_def)

lemma m_find_in_set: "m_find k m = Some v \<Longrightarrow> (k, v) \<in> set m"
  by (induction m) (auto split: if_splits)

lemma m_mem_iff: "m_mem k m \<longleftrightarrow> k \<in> set (m_keys m)"
  by (induction m) (auto simp: m_mem_def)

lemma m_keys_put [simp]: "set (m_keys (m_put k v m)) = insert k (set (m_keys m))"
  by (induction k v m rule: m_put.induct) (simp_all add: insert_commute)

lemma m_ok_empty [simp, intro]: "m_ok m_empty"
  by (simp add: m_empty_def)

lemma m_ok_put [simp, intro]: "m_ok m \<Longrightarrow> m_ok (m_put k v m)"
proof (induction k v m rule: m_put.induct)
  case (2 k v k' v' m)
  then show ?case by (cases k k' rule: linorder_cases) (auto intro: less_trans)
qed simp

lemma m_keys_erase [simp]: "set (m_keys (m_erase k m)) = set (m_keys m) - {k}"
  by (induction k m rule: m_erase.induct) auto

lemma m_ok_erase [simp, intro]: "m_ok m \<Longrightarrow> m_ok (m_erase k m)"
  by (induction k m rule: m_erase.induct) simp_all

lemma m_ok_distinct: "m_ok m \<Longrightarrow> distinct (m_keys m)"
  by (induction m) force+

lemma m_key_of_member: "(k, v) \<in> set m \<Longrightarrow> k \<in> set (m_keys m)"
  by (induction m) auto

lemma m_find_of_member: "m_ok m \<Longrightarrow> (k, v) \<in> set m \<Longrightarrow> m_find k m = Some v"
  by (induction m) (auto dest: m_key_of_member)

lemma m_get_or_insert_fst: "fst (m_get_or_insert k d m) = (case m_find k m of Some v \<Rightarrow> v | None \<Rightarrow> d)"
  by (simp add: m_get_or_insert_def split: option.splits)

lemma m_find_get_or_insert [smap_laws]:
  "m_find k' (snd (m_get_or_insert k d m)) =
     (if k' = k then Some (fst (m_get_or_insert k d m)) else m_find k' m)"
  by (auto simp: m_get_or_insert_def split: option.splits)

lemma m_ok_get_or_insert: "m_ok m \<Longrightarrow> m_ok (snd (m_get_or_insert k d m))"
  by (auto simp: m_get_or_insert_def split: option.splits)

text \<open>
  The value a later \<open>operator[]\<close> will see: what is stored, or the default. Looking up in this way
  never shows the difference between a missing key and one created on demand.
\<close>

definition m_at :: "'v \<Rightarrow> 'k \<Rightarrow> ('k, 'v) smap \<Rightarrow> 'v" where
  "m_at d k m = (case m_find k m of Some v \<Rightarrow> v | None \<Rightarrow> d)"

lemma m_at_empty [simp]: "m_at d k m_empty = d"
  by (simp add: m_at_def)

lemma m_at_put [simp]: "m_at d k (m_put k' v m) = (if k = k' then v else m_at d k m)"
  by (simp add: m_at_def)

lemma m_get_or_insert_at: "m_get_or_insert k d m = (m_at d k m, snd (m_get_or_insert k d m))"
  by (simp add: m_get_or_insert_def m_at_def split: option.splits)

lemma m_at_get_or_insert [simp]: "m_at d k' (snd (m_get_or_insert k d m)) = m_at d k' m"
  by (simp add: m_get_or_insert_def m_at_def split: option.splits)

text \<open>Every stored value satisfies a property: how a module states its invariant.\<close>

definition m_all :: "('v \<Rightarrow> bool) \<Rightarrow> ('k, 'v) smap \<Rightarrow> bool" where
  "m_all P m \<longleftrightarrow> (\<forall>(k, v) \<in> set m. P v)"

lemma m_all_empty [simp, intro]: "m_all P m_empty"
  by (simp add: m_all_def m_empty_def)

lemma m_all_Nil [simp]: "m_all P []"
  by (simp add: m_all_def)

lemma m_all_Cons [simp]: "m_all P (e # m) \<longleftrightarrow> P (snd e) \<and> m_all P m"
  by (auto simp: m_all_def split: prod.splits)

lemma m_all_put [intro, wf_rules]: "m_all P m \<Longrightarrow> P v \<Longrightarrow> m_all P (m_put k v m)"
  by (induction m) auto

lemma m_all_erase [intro, wf_rules]: "m_all P m \<Longrightarrow> m_all P (m_erase k m)"
  by (induction m) auto

lemma m_all_find: "m_all P m \<Longrightarrow> m_find k m = Some v \<Longrightarrow> P v"
  by (auto simp: m_all_def dest: m_find_in_set)

lemma m_all_get_or_insert:
  assumes "m_all P m" and "P d"
  shows "P (fst (m_get_or_insert k d m))" and "m_all P (snd (m_get_or_insert k d m))"
  using assms by (auto simp: m_get_or_insert_def dest: m_all_find split: option.splits)

text \<open>
  The interface of \<open>std::map\<close> the components rely on, with what follows from its laws:
  writing twice, writing two keys, and erasing what was written.
\<close>

locale std_map =
  fixes empty :: "'m"
    and find :: "'k \<Rightarrow> 'm \<Rightarrow> 'v option"
    and put :: "'k \<Rightarrow> 'v \<Rightarrow> 'm \<Rightarrow> 'm"
    and erase :: "'k \<Rightarrow> 'm \<Rightarrow> 'm"
    and keys :: "'m \<Rightarrow> 'k list"
    and ok :: "'m \<Rightarrow> bool"
  assumes find_empty: "find k empty = None"
    and find_put: "find k (put k' v m) = (if k = k' then Some v else find k m)"
    and find_erase: "find k (erase k' m) = (if k = k' then None else find k m)"
    and keys_find: "k \<in> set (keys m) \<longleftrightarrow> find k m \<noteq> None"
    and ok_empty: "ok empty"
    and ok_put: "ok m \<Longrightarrow> ok (put k v m)"
    and ok_erase: "ok m \<Longrightarrow> ok (erase k m)"
begin

lemma last_put_wins: "find k (put k' v (put k' u m)) = find k (put k' v m)"
  by (simp add: find_put)

lemma puts_commute: "a \<noteq> b \<Longrightarrow> find k (put a u (put b v m)) = find k (put b v (put a u m))"
  by (simp add: find_put)

lemma erase_put: "find k (erase a (put a v m)) = find k (erase a m)"
  by (simp add: find_put find_erase)

lemma keys_after_put: "set (keys (put k v m)) = insert k (set (keys m))"
  by (auto simp: keys_find find_put split: if_splits)

lemma keys_after_erase: "set (keys (erase k m)) = set (keys m) - {k}"
  by (auto simp: keys_find find_erase split: if_splits)

lemma foldr_put_find:
  "find k (foldr (\<lambda>(a, v) m. put a v m) ps m) = (case map_of ps k of Some v \<Rightarrow> Some v | None \<Rightarrow> find k m)"
  by (induction ps) (auto simp: find_put)

end

interpretation smap: std_map m_empty m_find m_put m_erase m_keys m_ok
  by unfold_locales (auto simp: m_mem_iff[symmetric] m_mem_def)

section \<open>Strings\<close>

text \<open>\<open>s.find(c)\<close>: the first position of the character, or \<open>npos\<close>.\<close>

definition find_char :: "char \<Rightarrow> string \<Rightarrow> nat option" where
  "find_char c s = (let n = length (takeWhile (\<lambda>x. x \<noteq> c) s) in if n < length s then Some n else None)"

text \<open>The separator of signal paths, \<open>'/'\<close>.\<close>

definition slash :: char where
  "slash = CHR 0x2F"

definition signal_path :: "string \<Rightarrow> string \<Rightarrow> string" where
  "signal_path device_id signal_id = device_id @ [slash] @ signal_id"

lemma find_char_None_iff: "find_char c s = None \<longleftrightarrow> c \<notin> set s"
proof (induction s)
  case (Cons x s)
  then show ?case by (auto simp: find_char_def Let_def split: if_splits)
qed (simp add: find_char_def)

lemma find_char_prefix: "c \<notin> set s \<Longrightarrow> find_char c (s @ c # t) = Some (length s)"
proof -
  assume "c \<notin> set s"
  then have "takeWhile (\<lambda>x. x \<noteq> c) (s @ c # t) = s"
    by (induction s) auto
  then show ?thesis by (simp add: find_char_def)
qed

lemma find_char_SomeD: "find_char c s = Some n \<Longrightarrow> n < length s \<and> s ! n = c \<and> c \<notin> set (take n s)"
proof (induction s arbitrary: n)
  case (Cons x s)
  show ?case
  proof (cases "x = c")
    case True
    with Cons.prems show ?thesis by (simp add: find_char_def)
  next
    case False
    with Cons.prems obtain k where "find_char c s = Some k" and "n = Suc k"
      by (auto simp: find_char_def Let_def split: if_splits)
    with Cons.IH[of k] False show ?thesis by auto
  qed
qed (simp add: find_char_def)

text \<open>
  The split of a path at its first slash, as the code does it in two places:
  \<open>path.substr(0, slash)\<close> and \<open>path.substr(slash + 1)\<close>.
\<close>

definition split_path :: "string \<Rightarrow> (string \<times> string) option" where
  "split_path path = (case find_char slash path of
      None \<Rightarrow> None
    | Some pos \<Rightarrow> Some (take pos path, drop (Suc pos) path))"

lemma split_signal_path [simp]:
  "slash \<notin> set d \<Longrightarrow> split_path (signal_path d s) = Some (d, s)"
  by (simp add: split_path_def signal_path_def find_char_prefix)

lemma split_path_join: "split_path p = Some (d, s) \<Longrightarrow> p = signal_path d s \<and> slash \<notin> set d"
  using id_take_nth_drop[of "length d" p]
  by (auto simp: split_path_def signal_path_def split: option.splits dest!: find_char_SomeD)

lemma signal_path_inj:
  "slash \<notin> set d \<Longrightarrow> slash \<notin> set d' \<Longrightarrow> signal_path d s = signal_path d' s' \<longleftrightarrow> d = d' \<and> s = s'"
  by (metis Pair_inject option.inject split_signal_path)

section \<open>Decimal numbers\<close>

text \<open>
  \<open>std::to_string\<close> of an unsigned integer, and the value of a string of digits
  (\<open>std::isdigit\<close> in the C locale).
\<close>

definition digit_char :: "nat \<Rightarrow> char" where
  "digit_char d = char_of (48 + d)"

definition char_digit :: "char \<Rightarrow> nat" where
  "char_digit c = of_char c - 48"

definition is_digit_char :: "char \<Rightarrow> bool" where
  "is_digit_char c \<longleftrightarrow> (48::nat) \<le> of_char c \<and> of_char c \<le> (57::nat)"

fun to_string_nat :: "nat \<Rightarrow> string" where
  "to_string_nat n = (if n < 10 then [digit_char n] else to_string_nat (n div 10) @ [digit_char (n mod 10)])"

declare to_string_nat.simps [simp del]

definition digits_value :: "string \<Rightarrow> nat" where
  "digits_value s = foldl (\<lambda>acc c. 10 * acc + char_digit c) 0 s"

lemma char_digit_digit_char [simp]: "d < 10 \<Longrightarrow> char_digit (digit_char d) = d"
  by (simp add: char_digit_def digit_char_def of_char_of take_bit_eq_mod)

lemma is_digit_digit_char [simp]: "d < 10 \<Longrightarrow> is_digit_char (digit_char d)"
  by (simp add: is_digit_char_def digit_char_def of_char_of take_bit_eq_mod)

lemma digit_char_char_digit: "is_digit_char c \<Longrightarrow> digit_char (char_digit c) = c"
  by (simp add: is_digit_char_def digit_char_def char_digit_def)

lemma char_digit_less: "is_digit_char c \<Longrightarrow> char_digit c < 10"
  unfolding is_digit_char_def char_digit_def by arith

lemma digit_char_inj: "a < 10 \<Longrightarrow> b < 10 \<Longrightarrow> digit_char a = digit_char b \<longleftrightarrow> a = b"
  by (metis char_digit_digit_char)

lemma digit_char_simps:
  shows "digit_char 0 = CHR ''0''"
    and "digit_char (Suc 0) = CHR ''1''"
    and "digit_char 2 = CHR ''2''"
    and "digit_char 3 = CHR ''3''"
    and "digit_char 4 = CHR ''4''"
    and "digit_char 5 = CHR ''5''"
    and "digit_char 6 = CHR ''6''"
    and "digit_char 7 = CHR ''7''"
    and "digit_char 8 = CHR ''8''"
    and "digit_char 9 = CHR ''9''"
  by (simp_all add: digit_char_def char_of_def bit_Suc_0_iff)

lemma of_char_less: "of_char c < (256::nat)"
  by (cases c) (simp add: of_char_def horner_sum_simps split: if_splits)

lemma to_string_nat_eval:
  "n < 10 \<Longrightarrow> to_string_nat n = [digit_char n]"
  "10 \<le> n \<Longrightarrow> to_string_nat n = to_string_nat (n div 10) @ [digit_char (n mod 10)]"
  by (subst to_string_nat.simps, simp)+

lemma digits_value_Nil [simp]: "digits_value [] = 0"
  by (simp add: digits_value_def)

lemma digits_value_snoc [simp]: "digits_value (s @ [c]) = 10 * digits_value s + char_digit c"
  by (simp add: digits_value_def)

lemma to_string_nat_digits: "\<forall>c \<in> set (to_string_nat n). is_digit_char c"
proof (induction n rule: to_string_nat.induct)
  case (1 n)
  then show ?case by (cases "n < 10") (auto simp: to_string_nat.simps[of n])
qed

lemma to_string_nat_not_Nil [simp]: "to_string_nat n \<noteq> []"
  by (subst to_string_nat.simps) simp

lemma digits_value_to_string [simp]: "digits_value (to_string_nat n) = n"
proof (induction n rule: to_string_nat.induct)
  case (1 n)
  then show ?case
    by (cases "n < 10") (auto simp: to_string_nat.simps[of n] digits_value_snoc[of "[]", simplified])
qed

lemma to_string_nat_inj: "to_string_nat m = to_string_nat n \<longleftrightarrow> m = n"
  by (metis digits_value_to_string)

text \<open>
  A digit string is the printed form of its value exactly when it has no leading zero.
\<close>

definition canonical_digits :: "string \<Rightarrow> bool" where
  "canonical_digits s \<longleftrightarrow> s \<noteq> [] \<and> list_all is_digit_char s \<and> (hd s = digit_char 0 \<longrightarrow> length s = 1)"

lemma digits_value_pos:
  "list_all is_digit_char s \<Longrightarrow> s \<noteq> [] \<Longrightarrow> hd s \<noteq> digit_char 0 \<Longrightarrow> 0 < digits_value s"
proof (induction s rule: rev_induct)
  case (snoc c s)
  then show ?case
  proof (cases "s = []")
    case True
    with snoc.prems digit_char_char_digit[of c] show ?thesis
      by (auto simp: digits_value_snoc[of "[]", simplified] intro: gr0I)
  qed (use snoc in auto)
qed simp

lemma to_string_digits_value: "canonical_digits s \<Longrightarrow> to_string_nat (digits_value s) = s"
proof (induction s rule: rev_induct)
  case (snoc c s)
  then have c: "is_digit_char c" and s: "list_all is_digit_char s"
    by (auto simp: canonical_digits_def)
  show ?case
  proof (cases "s = []")
    case True
    with c show ?thesis
      by (simp add: digits_value_snoc[of "[]", simplified] to_string_nat.simps[of "char_digit c"]
          char_digit_less digit_char_char_digit)
  next
    case False
    with snoc.prems have lead: "hd s \<noteq> digit_char 0"
      by (auto simp: canonical_digits_def)
    with s False have "canonical_digits s" and "0 < digits_value s"
      by (auto simp: canonical_digits_def intro: digits_value_pos)
    with snoc.IH c show ?thesis
      by (simp add: to_string_nat.simps[of "10 * digits_value s + char_digit c"]
          char_digit_less digit_char_char_digit)
  qed
qed (simp add: canonical_digits_def)

lemma hd_to_string_nat: "n \<noteq> 0 \<Longrightarrow> hd (to_string_nat n) \<noteq> digit_char 0"
proof (induction n rule: to_string_nat.induct)
  case (1 n)
  show ?case
  proof (cases "n < 10")
    case True
    with "1.prems" show ?thesis
      by (simp add: to_string_nat.simps[of n] digit_char_inj)
  next
    case False
    with "1.IH" show ?thesis by (simp add: to_string_nat.simps[of n] hd_append)
  qed
qed

lemma canonical_to_string [simp]: "canonical_digits (to_string_nat n)"
proof (cases "n = 0")
  case True
  then show ?thesis by (simp add: canonical_digits_def to_string_nat.simps[of 0])
next
  case False
  then show ?thesis
    using to_string_nat_digits[of n] hd_to_string_nat[of n] by (simp add: canonical_digits_def list_all_iff)
qed

lemma canonical_iff_printed: "canonical_digits s \<longleftrightarrow> (\<exists>n. s = to_string_nat n)"
  using canonical_to_string to_string_digits_value by metis

section \<open>Computations that may throw\<close>

text \<open>An exception is a left value; what follows it does not run.\<close>

primrec bindE :: "'x + 'a \<Rightarrow> ('a \<Rightarrow> 'x + 'b) \<Rightarrow> 'x + 'b" where
  "bindE (Inl e) f = Inl e"
| "bindE (Inr a) f = f a"

lemma bindE_Inr_iff: "bindE x f = Inr b \<longleftrightarrow> (\<exists>a. x = Inr a \<and> f a = Inr b)"
  by (cases x) simp_all

lemma bindE_Inl_iff: "bindE x f = Inl e \<longleftrightarrow> x = Inl e \<or> (\<exists>a. x = Inr a \<and> f a = Inl e)"
  by (cases x) simp_all

section \<open>Signed 64-bit arithmetic\<close>

text \<open>
  \<open>int64_t\<close> values read as \<open>int\<close>; \<open>wrap64\<close> is the two's complement result of an
  operation whose exact result is given.
\<close>

type_synonym int64 = "64 word"
type_synonym uint32 = "32 word"

definition wrap64 :: "int \<Rightarrow> int" where
  "wrap64 x = (x + 2 ^ 63) mod 2 ^ 64 - 2 ^ 63"

definition in_int64 :: "int \<Rightarrow> bool" where
  "in_int64 x \<longleftrightarrow> - (2 ^ 63) \<le> x \<and> x < 2 ^ 63"

lemma wrap64_id [simp]: "in_int64 x \<Longrightarrow> wrap64 x = x"
  by (simp add: wrap64_def in_int64_def)

lemma wrap64_once: "2 ^ 63 \<le> x \<Longrightarrow> x < 2 ^ 64 + 2 ^ 63 \<Longrightarrow> wrap64 x = x - 2 ^ 64"
proof -
  assume "2 ^ 63 \<le> x" "x < 2 ^ 64 + 2 ^ 63"
  then have "(x + 2 ^ 63) mod 2 ^ 64 = x + 2 ^ 63 - 2 ^ 64"
    by (subst mod_pos_geq) (auto intro!: mod_pos_pos_trivial)
  then show ?thesis by (simp add: wrap64_def)
qed

lemma in_int64_wrap64 [simp]: "in_int64 (wrap64 x)"
  by (simp add: wrap64_def in_int64_def)

lemma in_int64_sint [simp]: "in_int64 (sint (w :: int64))"
  using sint_range_size[of w] by (simp add: in_int64_def word_size)

end
