(* ===== verification/Float64.thy ===== *)
theory Float64
  imports Prelude Complex_Main
begin

text \<open>
  The \<open>double\<close> of the code: IEEE 754 binary64, round to nearest, ties to even.

  A finite value is the rational it denotes (the two zeros are one value: they compare equal, and
  the code neither divides by a zero nor prints one); NaN and the infinities are values of their
  own, so the guards of the code (\<open>std::isfinite\<close>, comparisons that are false on NaN) are
  kept as they are. Every arithmetic operation is the exact one followed by \<open>fl\<close>, the
  correctly rounded conversion with 53 bits of precision, gradual underflow at \<open>2\<^sup>-\<^sup>1\<^sup>0\<^sup>7\<^sup>4\<close> and overflow to
  infinity. The transcendental \<open>std::exp\<close> is not defined here: it is a parameter of the
  components that call it.

  The main result is \<open>rounding.lerp\<close>: the first-order update \<open>a + \<alpha> * (t - a)\<close>, with each
  of its three operations rounded, stays between \<open>a\<close> and \<open>t\<close> for \<open>0 \<le> \<alpha> \<le> 1 - 2\<^sup>-\<^sup>5\<^sup>1\<close>.
\<close>

section \<open>Rounding to the nearest integer, ties to even\<close>

definition rnd_even :: "rat \<Rightarrow> int" where
  "rnd_even x =
     (let f = \<lfloor>x\<rfloor>; r = x - of_int f
      in if r < 1 / 2 then f else if 1 / 2 < r then f + 1 else if even f then f else f + 1)"

lemma rnd_even_of_int [simp]: "rnd_even (of_int n) = n"
  by (simp add: rnd_even_def)

lemma rnd_even_near: "\<bar>of_int (rnd_even x) - x\<bar> \<le> 1 / 2"
proof -
  define f where "f = \<lfloor>x\<rfloor>"
  have "of_int f \<le> x" and "x < of_int f + 1"
    unfolding f_def by linarith+
  then show ?thesis by (auto simp: rnd_even_def Let_def abs_if simp flip: f_def)
qed

lemma rnd_even_mono: "x \<le> y \<Longrightarrow> rnd_even x \<le> rnd_even y"
proof -
  assume "x \<le> y"
  then have "\<lfloor>x\<rfloor> \<le> \<lfloor>y\<rfloor>" by (rule floor_mono)
  consider "\<lfloor>x\<rfloor> = \<lfloor>y\<rfloor>" | "\<lfloor>x\<rfloor> + 1 \<le> \<lfloor>y\<rfloor>" using \<open>\<lfloor>x\<rfloor> \<le> \<lfloor>y\<rfloor>\<close> by linarith
  then show ?thesis
  proof cases
    case 1
    with \<open>x \<le> y\<close> show ?thesis by (auto simp: rnd_even_def Let_def)
  next
    case 2
    have "rnd_even x \<le> \<lfloor>x\<rfloor> + 1" and "\<lfloor>y\<rfloor> \<le> rnd_even y"
      by (auto simp: rnd_even_def Let_def)
    with 2 show ?thesis by linarith
  qed
qed

lemma rnd_even_minus: "rnd_even (- x) = - rnd_even x"
proof (cases "x = of_int \<lfloor>x\<rfloor>")
  case True
  then have "- x = of_int (- \<lfloor>x\<rfloor>)" and "rnd_even x = \<lfloor>x\<rfloor>" by (simp, metis rnd_even_of_int)
  then show ?thesis by (metis rnd_even_of_int)
next
  case False
  have lo: "of_int \<lfloor>x\<rfloor> \<le> x" and hi: "x < of_int \<lfloor>x\<rfloor> + 1"
    by linarith+
  from False lo have "of_int \<lfloor>x\<rfloor> < x" by linarith
  with hi have "\<lfloor>- x\<rfloor> = - \<lfloor>x\<rfloor> - 1"
    by (intro floor_unique) auto
  then show ?thesis by (auto simp: rnd_even_def Let_def)
qed

section \<open>The exponent of a rational\<close>

fun nlog2 :: "nat \<Rightarrow> nat" where
  "nlog2 n = (if n < 2 then 0 else Suc (nlog2 (n div 2)))"

declare nlog2.simps [simp del]

lemma nlog2_eval: "n < 2 \<Longrightarrow> nlog2 n = 0" "2 \<le> n \<Longrightarrow> nlog2 n = Suc (nlog2 (n div 2))"
  by (subst nlog2.simps, simp)+

lemma nlog2_bounds: "0 < n \<Longrightarrow> 2 ^ nlog2 n \<le> n \<and> n < 2 ^ Suc (nlog2 n)"
proof (induction n rule: nlog2.induct)
  case (1 n)
  show ?case
  proof (cases "n < 2")
    case True
    with 1 show ?thesis by (simp add: nlog2.simps[of n])
  next
    case False
    with 1 have "2 ^ nlog2 (n div 2) \<le> n div 2 \<and> n div 2 < 2 ^ Suc (nlog2 (n div 2))" by simp
    then have "2 * 2 ^ nlog2 (n div 2) \<le> n \<and> n < 2 * 2 ^ Suc (nlog2 (n div 2))" by linarith
    with False show ?thesis by (simp add: nlog2.simps[of n])
  qed
qed

definition ilog2 :: "rat \<Rightarrow> int" where
  "ilog2 q = (if 1 \<le> q then int (nlog2 (nat \<lfloor>q\<rfloor>)) else - 1 - int (nlog2 (nat (\<lceil>1 / q\<rceil> - 1))))"

lemma neg_pow: "(2::rat) powi (- int n) = 1 / 2 ^ n"
  by (simp only: power_int_minus power_int_of_nat) (simp add: divide_inverse)

lemma ilog2_lower: "0 < q \<Longrightarrow> 2 powi ilog2 q \<le> q"
  and ilog2_upper: "0 < q \<Longrightarrow> q < 2 powi (ilog2 q + 1)"
proof -
  assume q: "0 < q"
  have "2 powi ilog2 q \<le> q \<and> q < 2 powi (ilog2 q + 1)"
  proof (cases "1 \<le> q")
    case True
    define n where "n = nat \<lfloor>q\<rfloor>"
    from True have n: "0 < n" and nq: "of_int \<lfloor>q\<rfloor> = (of_nat n :: rat)"
      by (simp_all add: n_def)
    from nlog2_bounds[OF n] have "(2::rat) ^ nlog2 n \<le> of_nat n" and "of_nat n + 1 \<le> (2::rat) ^ Suc (nlog2 n)"
      by (metis of_nat_le_iff of_nat_numeral of_nat_power)
        (metis Suc_leI nlog2_bounds[OF n] of_nat_1 of_nat_add of_nat_le_iff of_nat_numeral of_nat_power Suc_eq_plus1)
    moreover have "of_nat n \<le> q" and "q < of_nat n + 1"
      using floor_correct[of q] by (simp_all flip: nq)
    ultimately have "(2::rat) ^ nlog2 n \<le> q" and "q < 2 ^ Suc (nlog2 n)" by linarith+
    moreover have "(2::rat) powi (int (nlog2 n) + 1) = 2 ^ Suc (nlog2 n)"
      by (metis of_nat_Suc power_int_of_nat add.commute)
    ultimately show ?thesis using True by (simp add: ilog2_def n_def)
  next
    case False
    define c where "c = nat (\<lceil>1 / q\<rceil> - 1)"
    from q False have "1 < 1 / q" by simp
    then have "2 \<le> \<lceil>1 / q\<rceil>" by linarith
    then have c: "0 < c" and "\<lceil>1 / q\<rceil> = int c + 1" unfolding c_def by linarith+
    then have cq: "of_int \<lceil>1 / q\<rceil> = (of_nat c + 1 :: rat)" by simp
    from nlog2_bounds[OF c] have "(2::rat) ^ nlog2 c \<le> of_nat c" and "of_nat c + 1 \<le> (2::rat) ^ Suc (nlog2 c)"
      by (metis of_nat_le_iff of_nat_numeral of_nat_power)
        (metis Suc_leI nlog2_bounds[OF c] of_nat_1 of_nat_add of_nat_le_iff of_nat_numeral of_nat_power Suc_eq_plus1)
    moreover have "1 / q \<le> of_nat c + 1" and "of_nat c < 1 / q"
      using ceiling_correct[of "1 / q"] by (simp_all add: cq)
    ultimately have "(2::rat) ^ nlog2 c < 1 / q" and "1 / q \<le> 2 ^ Suc (nlog2 c)" by linarith+
    with q have "q < 1 / 2 ^ nlog2 c" and "1 / 2 ^ Suc (nlog2 c) \<le> q"
      by (simp_all add: field_simps)
    moreover have "(2::rat) powi (- int (nlog2 c)) = 1 / 2 ^ nlog2 c"
      and "(2::rat) powi (- 1 - int (nlog2 c)) = 1 / 2 ^ Suc (nlog2 c)"
      using neg_pow[of "nlog2 c"] neg_pow[of "Suc (nlog2 c)"] by simp_all
    ultimately show ?thesis using False by (simp add: ilog2_def c_def)
  qed
  then show "2 powi ilog2 q \<le> q" and "q < 2 powi (ilog2 q + 1)" by simp_all
qed

lemma powi2_less_iff: "(2::rat) powi m < 2 powi n \<longleftrightarrow> m < n"
  using power_int_strict_increasing[of m n "2::rat"] power_int_increasing[of n m "2::rat"]
  by (cases "m < n") auto

lemma powi2_le_iff: "(2::rat) powi m \<le> 2 powi n \<longleftrightarrow> m \<le> n"
  by (simp add: not_less[symmetric] powi2_less_iff)

lemma ilog2_mono: "0 < x \<Longrightarrow> x \<le> y \<Longrightarrow> ilog2 x \<le> ilog2 y"
  using ilog2_lower[of x] ilog2_upper[of y] powi2_less_iff[of "ilog2 x" "ilog2 y + 1"] by linarith

lemma ilog2_less: "0 < x \<Longrightarrow> x < 2 powi n \<Longrightarrow> ilog2 x < n"
  using ilog2_lower[of x] powi2_less_iff[of "ilog2 x" n] by linarith

section \<open>Rounding to 53 bits\<close>

text \<open>
  The unit in the last place of a value: \<open>2\<^sup>-\<^sup>5\<^sup>2\<close> of its leading bit, but never below
  \<open>2\<^sup>-\<^sup>1\<^sup>0\<^sup>7\<^sup>4\<close> (gradual underflow).
\<close>

definition ulp_exp :: "rat \<Rightarrow> int" where
  "ulp_exp q = max (- 1074) (ilog2 \<bar>q\<bar> - 52)"

definition ulp :: "rat \<Rightarrow> rat" where
  "ulp q = 2 powi ulp_exp q"

definition round53 :: "rat \<Rightarrow> rat" where
  "round53 q = (if q = 0 then 0 else of_int (rnd_even (q / ulp q)) * ulp q)"

lemma ulp_pos [simp]: "0 < ulp q"
  by (simp add: ulp_def)

lemma ulp_nonzero [simp]: "ulp q \<noteq> 0"
  using ulp_pos[of q] by linarith

lemma ulp_minus [simp]: "ulp (- q) = ulp q"
  by (simp add: ulp_def ulp_exp_def)

lemma round53_zero [simp]: "round53 0 = 0"
  by (simp add: round53_def)

lemma round53_minus: "round53 (- q) = - round53 q"
  by (simp add: round53_def rnd_even_minus)

text \<open>A value with at most 53 significant bits over an exponent in range is its own rounding.\<close>

lemma round53_exact_less:
  assumes "\<bar>m\<bar> < 2 ^ 53" and "- 1074 \<le> e"
  shows "round53 (of_int m * 2 powi e) = of_int m * 2 powi e"
proof (cases "m = 0")
  case False
  define q where "q = (of_int m * 2 powi e :: rat)"
  have q: "q \<noteq> 0" using False by (simp add: q_def)
  have "(of_int \<bar>m\<bar> :: rat) < of_int (2 ^ 53)" using assms(1) by (simp only: of_int_less_iff)
  then have "\<bar>q\<bar> < 2 ^ 53 * 2 powi e" by (simp add: q_def abs_mult)
  also have "\<dots> = 2 powi (e + 53)" by (simp add: power_int_add)
  finally have "ilog2 \<bar>q\<bar> < e + 53" using q by (intro ilog2_less) auto
  then have le: "ulp_exp q \<le> e" using assms(2) by (simp add: ulp_exp_def)
  then have "e = int (nat (e - ulp_exp q)) + ulp_exp q" by simp
  then have "(2::rat) powi e = 2 ^ nat (e - ulp_exp q) * ulp q"
    unfolding ulp_def by (metis power_int_add power_int_of_nat zero_neq_numeral)
  then have "q = of_int m * (2 ^ nat (e - ulp_exp q) * ulp q)"
    by (simp only: q_def)
  then have "q / ulp q = of_int m * (2 ^ nat (e - ulp_exp q) * ulp q) / ulp q"
    by (rule arg_cong)
  then have "q / ulp q = of_int (m * 2 ^ nat (e - ulp_exp q))"
    by simp
  then have "of_int (rnd_even (q / ulp q)) = q / ulp q"
    by (metis rnd_even_of_int)
  then show ?thesis using q by (simp add: round53_def flip: q_def)
qed simp

lemma round53_exact:
  assumes "\<bar>m\<bar> \<le> 2 ^ 53" and "- 1074 \<le> e"
  shows "round53 (of_int m * 2 powi e) = of_int m * 2 powi e"
proof (cases "\<bar>m\<bar> = 2 ^ 53")
  case True
  have "round53 (of_int (m div 2) * 2 powi (e + 1)) = of_int (m div 2) * 2 powi (e + 1)"
    using True assms(2) by (intro round53_exact_less) (auto simp: abs_if split: if_splits)
  moreover from True have "m = 2 ^ 53 \<or> m = - (2 ^ 53)" by linarith
  then have "of_int (m div 2) * 2 powi (e + 1) = (of_int m * 2 powi e :: rat)"
    by (elim disjE) (simp_all add: power_int_add)
  ultimately show ?thesis by simp
qed (use assms in \<open>simp add: round53_exact_less\<close>)

lemma quotient_ulp_bounds:
  assumes "0 < q"
  shows "q / ulp q \<le> 2 ^ 53" and "- 1074 < ulp_exp q \<Longrightarrow> 2 ^ 52 \<le> q / ulp q"
proof -
  have "q < 2 powi (ilog2 q + 1)" by (rule ilog2_upper[OF assms])
  also have "\<dots> \<le> 2 powi (53 + ulp_exp q)"
    using assms by (simp only: powi2_le_iff) (simp add: ulp_exp_def)
  finally show "q / ulp q \<le> 2 ^ 53" by (simp add: ulp_def power_int_add field_simps)
next
  assume "- 1074 < ulp_exp q"
  then have "ilog2 q = 52 + ulp_exp q" using assms by (simp add: ulp_exp_def)
  then have "2 powi (52 + ulp_exp q) \<le> q" using ilog2_lower[OF assms] by simp
  then show "2 ^ 52 \<le> q / ulp q" by (simp add: ulp_def power_int_add field_simps)
qed

lemma rnd_quotient_bounds:
  assumes "0 < q"
  shows "0 \<le> rnd_even (q / ulp q)" and "rnd_even (q / ulp q) \<le> 2 ^ 53"
    and "- 1074 < ulp_exp q \<Longrightarrow> 2 ^ 52 \<le> rnd_even (q / ulp q)"
proof -
  have "0 \<le> q / ulp q" using assms by (simp add: less_imp_le)
  then show "0 \<le> rnd_even (q / ulp q)" using rnd_even_mono[of 0 "q / ulp q"] rnd_even_of_int[of 0] by simp
  show "rnd_even (q / ulp q) \<le> 2 ^ 53"
    using rnd_even_mono[OF quotient_ulp_bounds(1)[OF assms]] rnd_even_of_int[of "2 ^ 53"] by simp
  assume "- 1074 < ulp_exp q"
  from rnd_even_mono[OF quotient_ulp_bounds(2)[OF assms this]] rnd_even_of_int[of "2 ^ 52"]
  show "2 ^ 52 \<le> rnd_even (q / ulp q)" by simp
qed

lemma round53_mono_pos:
  assumes "0 < x" and "x \<le> y"
  shows "round53 x \<le> round53 y"
proof -
  from assms have y: "0 < y" and log: "ilog2 x \<le> ilog2 y" by (auto intro: ilog2_mono)
  then have "ulp_exp x \<le> ulp_exp y" using assms by (auto simp: ulp_exp_def)
  then consider "ulp_exp x = ulp_exp y" | "ulp_exp x < ulp_exp y" by linarith
  then show ?thesis
  proof cases
    case 1
    then have same: "ulp x = ulp y" by (simp add: ulp_def)
    have "x / ulp y \<le> y / ulp y" using assms(2) by (simp add: divide_right_mono less_imp_le)
    then have "rnd_even (x / ulp y) \<le> rnd_even (y / ulp y)" by (rule rnd_even_mono)
    then show ?thesis using assms y same ulp_pos[of y] by (simp add: round53_def mult_right_mono)
  next
    case 2
    then have "ulp_exp x + 53 \<le> ulp_exp y + 52" and "- 1074 < ulp_exp y" by (auto simp: ulp_exp_def)
    then have step: "2 ^ 53 * ulp x \<le> 2 ^ 52 * ulp y"
      using powi2_le_iff[of "ulp_exp x + 53" "ulp_exp y + 52"] by (simp add: ulp_def power_int_add mult.commute)
    have "of_int (rnd_even (x / ulp x)) \<le> (of_int (2 ^ 53) :: rat)"
      using rnd_quotient_bounds(2)[OF assms(1)] by (simp only: of_int_le_iff)
    then have "round53 x \<le> 2 ^ 53 * ulp x" using assms(1) by (simp add: round53_def mult_right_mono less_imp_le)
    also note step
    also have "(of_int (2 ^ 52) :: rat) \<le> of_int (rnd_even (y / ulp y))"
      using rnd_quotient_bounds(3)[OF y \<open>- 1074 < ulp_exp y\<close>] by (simp only: of_int_le_iff)
    then have "2 ^ 52 * ulp y \<le> round53 y" using y by (simp add: round53_def mult_right_mono less_imp_le)
    finally show ?thesis .
  qed
qed

lemma round53_nonneg: "0 \<le> x \<Longrightarrow> 0 \<le> round53 x"
  using rnd_quotient_bounds(1)[of x] by (cases "x = 0") (auto simp: round53_def intro!: mult_nonneg_nonneg less_imp_le[OF ulp_pos])

lemma round53_mono: "x \<le> y \<Longrightarrow> round53 x \<le> round53 y"
proof -
  assume "x \<le> y"
  consider "0 < x" | "x \<le> 0" "0 \<le> y" | "y < 0" by linarith
  then show ?thesis
  proof cases
    case 1
    then show ?thesis using \<open>x \<le> y\<close> by (rule round53_mono_pos)
  next
    case 2
    then show ?thesis using round53_nonneg[of y] round53_nonneg[of "- x"] by (simp add: round53_minus)
  next
    case 3
    with \<open>x \<le> y\<close> have "round53 (- y) \<le> round53 (- x)" by (intro round53_mono_pos) auto
    then show ?thesis by (simp add: round53_minus)
  qed
qed

lemma round53_form: "\<exists>m e. \<bar>m\<bar> \<le> 2 ^ 53 \<and> - 1074 \<le> e \<and> round53 q = of_int m * 2 powi e"
proof (cases "q = 0")
  case True
  then show ?thesis by (intro exI[of _ 0] exI[of _ 0]) simp
next
  case False
  then have "0 < \<bar>q\<bar>" by simp
  from rnd_quotient_bounds(1,2)[OF this] have "\<bar>rnd_even (q / ulp q)\<bar> \<le> 2 ^ 53"
    by (cases "0 < q") (auto simp: rnd_even_minus)
  with False show ?thesis
    by (intro exI[of _ "rnd_even (q / ulp q)"] exI[of _ "ulp_exp q"]) (simp add: round53_def ulp_def ulp_exp_def)
qed

lemma round53_idem [simp]: "round53 (round53 q) = round53 q"
  using round53_form[of q] round53_exact by metis

text \<open>Values that are their own rounding are multiples of the smallest subnormal.\<close>

lemma fixed_multiple: "round53 q = q \<Longrightarrow> \<exists>k. q = of_int k * 2 powi (- 1074)"
proof -
  assume "round53 q = q"
  then obtain m e where e: "- 1074 \<le> e" and q: "q = of_int m * 2 powi e"
    using round53_form[of q] by metis
  then have "e = int (nat (e + 1074)) + (- 1074)" by simp
  then have "(2::rat) powi e = 2 ^ nat (e + 1074) * 2 powi (- 1074)"
    by (metis power_int_add power_int_of_nat zero_neq_numeral)
  then show ?thesis by (intro exI[of _ "m * 2 ^ nat (e + 1074)"]) (simp add: q)
qed

section \<open>What the components need of a rounding\<close>

text \<open>
  The laws of a rounding under which the rounded first-order update is a contraction: monotone,
  idempotent, odd, and a rounded difference scaled down by a relative \<open>2\<^sup>-\<^sup>5\<^sup>1\<close> or more, and rounded
  again, does not exceed the exact one (this needs gradual underflow). Without the scaling, or with
  a factor of one, the update can overshoot its target by one unit in the last place.
\<close>

locale rounding =
  fixes rnd :: "rat \<Rightarrow> rat"
  assumes mono: "x \<le> y \<Longrightarrow> rnd x \<le> rnd y"
    and idem: "rnd (rnd x) = rnd x"
    and odd: "rnd (- x) = - rnd x"
    and damped: "rnd a = a \<Longrightarrow> rnd t = t \<Longrightarrow> a \<le> t \<Longrightarrow> 0 \<le> \<alpha> \<Longrightarrow> \<alpha> \<le> 1 - 1 / 2 ^ 51 \<Longrightarrow>
      rnd (\<alpha> * rnd (t - a)) \<le> t - a"
begin

lemma zero: "rnd 0 = 0"
  using odd[of 0] by simp

lemma nonneg: "0 \<le> x \<Longrightarrow> 0 \<le> rnd x"
  using mono[of 0 x] zero by simp

lemma between: "rnd a = a \<Longrightarrow> rnd b = b \<Longrightarrow> a \<le> x \<Longrightarrow> x \<le> b \<Longrightarrow> a \<le> rnd x \<and> rnd x \<le> b"
  using mono[of a x] mono[of x b] by simp

lemma lerp_step:
  assumes "rnd a = a" and "rnd t = t" and "a \<le> t" and "0 \<le> \<alpha>" and "\<alpha> \<le> 1 - 1 / 2 ^ 51"
  shows "0 \<le> rnd (\<alpha> * rnd (t - a))" and "rnd (\<alpha> * rnd (t - a)) \<le> t - a"
proof -
  show "rnd (\<alpha> * rnd (t - a)) \<le> t - a" by (rule damped[OF assms])
  have "0 \<le> rnd (t - a)" using assms(3) by (intro nonneg) simp
  with assms(4) show "0 \<le> rnd (\<alpha> * rnd (t - a))" by (intro nonneg) simp
qed

lemma lerp_up:
  assumes "rnd a = a" and "rnd t = t" and "a \<le> t" and "0 \<le> \<alpha>" and "\<alpha> \<le> 1 - 1 / 2 ^ 51"
  shows "a \<le> rnd (a + rnd (\<alpha> * rnd (t - a))) \<and> rnd (a + rnd (\<alpha> * rnd (t - a))) \<le> t"
  using lerp_step[OF assms] by (intro between[OF assms(1,2)]) auto

lemma lerp_down:
  assumes "rnd a = a" and "rnd t = t" and "t \<le> a" and "0 \<le> \<alpha>" and "\<alpha> \<le> 1 - 1 / 2 ^ 51"
  shows "t \<le> rnd (a + rnd (\<alpha> * rnd (t - a))) \<and> rnd (a + rnd (\<alpha> * rnd (t - a))) \<le> a"
proof -
  have "- a \<le> rnd (- a + rnd (\<alpha> * rnd (- t - - a))) \<and> rnd (- a + rnd (\<alpha> * rnd (- t - - a))) \<le> - t"
    using assms by (intro lerp_up) (simp_all add: odd)
  moreover have "rnd (- a + rnd (\<alpha> * rnd (- t - - a))) = - rnd (a + rnd (\<alpha> * rnd (t - a)))"
    using odd[of "t - a"] odd[of "\<alpha> * rnd (t - a)"] odd[of "a + rnd (\<alpha> * rnd (t - a))"] by simp
  ultimately show ?thesis by (simp only: neg_le_iff_le)
qed

text \<open>The rounded update stays between the old value and the target.\<close>

lemma lerp:
  assumes "rnd a = a" and "rnd t = t" and "0 \<le> \<alpha>" and "\<alpha> \<le> 1 - 1 / 2 ^ 51"
  shows "min a t \<le> rnd (a + rnd (\<alpha> * rnd (t - a)))" and "rnd (a + rnd (\<alpha> * rnd (t - a))) \<le> max a t"
  using lerp_up[OF assms(1,2) _ assms(3,4)] lerp_down[OF assms(1,2) _ assms(3,4)]
  by (cases "a \<le> t"; simp add: min_def max_def)+

end

lemma round53_sub_exact:
  assumes a: "round53 a = a" and t: "round53 t = t" and le: "a \<le> t" and e: "\<not> (0 < t - a \<and> - 1074 < ulp_exp (t - a))"
  shows "round53 (t - a) = t - a"
proof -
  obtain i j where i: "t = of_int i * 2 powi (- 1074)" and j: "a = of_int j * 2 powi (- 1074)"
    using fixed_multiple[OF a] fixed_multiple[OF t] by metis
  from e le consider "t - a = 0" | "0 < t - a" "ulp_exp (t - a) = - 1074"
    by (fastforce simp: ulp_exp_def)
  then show ?thesis
  proof cases
    case 2
    then have "(t - a) / ulp (t - a) = of_int (i - j)"
      by (simp add: ulp_def) (simp add: i j algebra_simps)
    then have "of_int (rnd_even ((t - a) / ulp (t - a))) = (t - a) / ulp (t - a)" by (metis rnd_even_of_int)
    then show ?thesis by (simp add: round53_def)
  qed simp
qed

lemma round53_damped:
  assumes a: "round53 a = a" and t: "round53 t = t" and le: "a \<le> t"
    and \<alpha>: "0 \<le> \<alpha>" "\<alpha> \<le> 1 - 1 / 2 ^ 51"
  shows "round53 (\<alpha> * round53 (t - a)) \<le> t - a"
proof (cases "0 < t - a \<and> - 1074 < ulp_exp (t - a)")
  case True
  define x where "x = t - a"
  define u where "u = ulp x"
  define r where "r = x / u"
  define z where "z = \<lfloor>r\<rfloor>"
  from True have x: "0 < x" and e: "- 1074 < ulp_exp x" by (simp_all add: x_def)
  have u: "0 < u" by (simp add: u_def)
  have xr: "x = r * u" using u by (simp add: r_def)
  have r: "2 ^ 52 \<le> r" "r \<le> 2 ^ 53"
    using quotient_ulp_bounds[OF x] e by (simp_all add: r_def u_def)
  have "of_int (rnd_even r) \<le> r + 1 / 2"
    using rnd_even_near[of r] by (auto simp: abs_if split: if_splits)
  then have d: "round53 x \<le> (r + 1 / 2) * u"
    using x u by (simp add: round53_def r_def u_def mult_right_mono)
  have "0 \<le> round53 x" using x by (intro round53_nonneg) simp
  then have "\<alpha> * round53 x \<le> (1 - 1 / 2 ^ 51) * round53 x" using \<alpha>(2) by (rule mult_right_mono[rotated])
  also have "\<dots> \<le> (1 - 1 / 2 ^ 51) * ((r + 1 / 2) * u)" using d by (intro mult_left_mono) auto
  also have "\<dots> \<le> (r - 1) * u"
  proof -
    have "(1 - 1 / 2 ^ 51) * (r + 1 / 2) \<le> r - 1" using r(1) by simp
    from mult_right_mono[OF this, of u] u show ?thesis by (simp add: mult.assoc)
  qed
  also have "\<dots> \<le> of_int z * u"
    using u floor_correct[of r] by (intro mult_right_mono) (auto simp: z_def)
  finally have "round53 (\<alpha> * round53 x) \<le> round53 (of_int z * u)" by (rule round53_mono)
  also have "round53 (of_int z * u) = of_int z * u"
  proof -
    have "0 \<le> z" and "z \<le> 2 ^ 53" using r by (simp_all add: z_def floor_le_iff)
    then show ?thesis unfolding u_def ulp_def using e by (intro round53_exact) auto
  qed
  also have "\<dots> \<le> x" using u floor_correct[of r] by (simp add: z_def xr mult_right_mono)
  finally show ?thesis by (simp add: x_def)
next
  case False
  have d: "round53 (t - a) = t - a" by (rule round53_sub_exact[OF a t le False])
  have "\<alpha> * (t - a) \<le> 1 * (t - a)" using \<alpha>(2) le by (intro mult_right_mono) auto
  then have "round53 (\<alpha> * (t - a)) \<le> round53 (t - a)" by (intro round53_mono) simp
  then show ?thesis by (simp add: d)
qed

interpretation b64: rounding round53
  by unfold_locales (erule round53_mono, rule round53_idem, rule round53_minus, rule round53_damped)

section \<open>The values\<close>

datatype double = NaN | PosInf | NegInf | Fin rat

definition max_finite :: rat where
  "max_finite = (2 ^ 53 - 1) * 2 ^ 971"

text \<open>The correctly rounded conversion of an exact result.\<close>

definition fl :: "rat \<Rightarrow> double" where
  "fl q = (let r = round53 q
           in if max_finite < r then PosInf else if r < - max_finite then NegInf else Fin r)"

definition is_dbl :: "double \<Rightarrow> bool" where
  "is_dbl d = (case d of Fin q \<Rightarrow> round53 q = q \<and> \<bar>q\<bar> \<le> max_finite | _ \<Rightarrow> True)"

definition isfinite :: "double \<Rightarrow> bool" where
  "isfinite d = (case d of Fin q \<Rightarrow> True | _ \<Rightarrow> False)"

fun dval :: "double \<Rightarrow> rat" where
  "dval (Fin q) = q"
| "dval _ = 0"

fun dneg :: "double \<Rightarrow> double" where
  "dneg NaN = NaN"
| "dneg PosInf = NegInf"
| "dneg NegInf = PosInf"
| "dneg (Fin q) = Fin (- q)"

fun dadd :: "double \<Rightarrow> double \<Rightarrow> double" where
  "dadd (Fin a) (Fin b) = fl (a + b)"
| "dadd NaN _ = NaN"
| "dadd _ NaN = NaN"
| "dadd PosInf NegInf = NaN"
| "dadd NegInf PosInf = NaN"
| "dadd PosInf _ = PosInf"
| "dadd NegInf _ = NegInf"
| "dadd _ PosInf = PosInf"
| "dadd _ NegInf = NegInf"

definition dsub :: "double \<Rightarrow> double \<Rightarrow> double" where
  "dsub a b = dadd a (dneg b)"

definition inf_of_sign :: "rat \<Rightarrow> double" where
  "inf_of_sign s = (if s = 0 then NaN else if 0 < s then PosInf else NegInf)"

fun dmul :: "double \<Rightarrow> double \<Rightarrow> double" where
  "dmul (Fin a) (Fin b) = fl (a * b)"
| "dmul NaN _ = NaN"
| "dmul _ NaN = NaN"
| "dmul PosInf (Fin b) = inf_of_sign b"
| "dmul NegInf (Fin b) = inf_of_sign (- b)"
| "dmul (Fin a) PosInf = inf_of_sign a"
| "dmul (Fin a) NegInf = inf_of_sign (- a)"
| "dmul PosInf PosInf = PosInf"
| "dmul NegInf NegInf = PosInf"
| "dmul PosInf NegInf = NegInf"
| "dmul NegInf PosInf = NegInf"

text \<open>
  Division; the code divides by constants and by a tick rate only. The quotient by a zero takes
  the zero to be positive.
\<close>

fun ddiv :: "double \<Rightarrow> double \<Rightarrow> double" where
  "ddiv NaN _ = NaN"
| "ddiv _ NaN = NaN"
| "ddiv (Fin a) (Fin b) = (if b = 0 then inf_of_sign a else fl (a / b))"
| "ddiv (Fin a) PosInf = Fin 0"
| "ddiv (Fin a) NegInf = Fin 0"
| "ddiv PosInf (Fin b) = (if b < 0 then NegInf else PosInf)"
| "ddiv NegInf (Fin b) = (if b < 0 then PosInf else NegInf)"
| "ddiv _ _ = NaN"

text \<open>The comparisons, false when an operand is NaN.\<close>

fun dless :: "double \<Rightarrow> double \<Rightarrow> bool" where
  "dless (Fin a) (Fin b) = (a < b)"
| "dless NaN _ = False"
| "dless _ NaN = False"
| "dless _ NegInf = False"
| "dless PosInf _ = False"
| "dless NegInf _ = True"
| "dless _ PosInf = True"

fun dleq :: "double \<Rightarrow> double \<Rightarrow> bool" where
  "dleq (Fin a) (Fin b) = (a \<le> b)"
| "dleq NaN _ = False"
| "dleq _ NaN = False"
| "dleq NegInf _ = True"
| "dleq _ PosInf = True"
| "dleq _ NegInf = False"
| "dleq PosInf _ = False"

definition dmin :: "double \<Rightarrow> double \<Rightarrow> double" where
  "dmin a b = (if dless b a then b else a)"

definition dmax :: "double \<Rightarrow> double \<Rightarrow> double" where
  "dmax a b = (if dless a b then b else a)"

section \<open>Laws of the operations\<close>

lemma isfinite_Fin [simp]: "isfinite (Fin q)" "\<not> isfinite NaN" "\<not> isfinite PosInf" "\<not> isfinite NegInf"
  by (simp_all add: isfinite_def)

lemma isfinite_iff: "isfinite d \<longleftrightarrow> d = Fin (dval d)"
  by (cases d) (simp_all add: isfinite_def)

lemma is_dbl_special [simp]: "is_dbl NaN" "is_dbl PosInf" "is_dbl NegInf"
  by (simp_all add: is_dbl_def)

lemma is_dbl_Fin: "is_dbl (Fin q) \<longleftrightarrow> round53 q = q \<and> \<bar>q\<bar> \<le> max_finite"
  by (simp add: is_dbl_def)

lemma is_dbl_fl [simp, wf_rules]: "is_dbl (fl q)"
  by (auto simp: fl_def Let_def is_dbl_def)

lemma is_dbl_minus: "is_dbl (Fin q) \<Longrightarrow> is_dbl (Fin (- q))"
  by (simp add: is_dbl_Fin round53_minus)

lemma is_dbl_zero [simp]: "is_dbl (Fin 0)"
  by (simp add: is_dbl_Fin max_finite_def)

lemma is_dbl_inf_of_sign [simp]: "is_dbl (inf_of_sign s)"
  by (simp add: inf_of_sign_def)

lemma is_dbl_dneg [simp, wf_rules]: "is_dbl d \<Longrightarrow> is_dbl (dneg d)"
  by (cases d) (simp_all add: is_dbl_minus)

lemma is_dbl_dadd [simp, wf_rules]: "is_dbl a \<Longrightarrow> is_dbl b \<Longrightarrow> is_dbl (dadd a b)"
  by (cases a; cases b) simp_all

lemma is_dbl_dsub [simp, wf_rules]: "is_dbl a \<Longrightarrow> is_dbl b \<Longrightarrow> is_dbl (dsub a b)"
  by (simp add: dsub_def)

lemma is_dbl_dmul [simp, wf_rules]: "is_dbl a \<Longrightarrow> is_dbl b \<Longrightarrow> is_dbl (dmul a b)"
  by (cases a; cases b) simp_all

lemma is_dbl_ddiv [simp, wf_rules]: "is_dbl a \<Longrightarrow> is_dbl b \<Longrightarrow> is_dbl (ddiv a b)"
  by (cases a; cases b) simp_all

lemma is_dbl_dmin [simp, wf_rules]: "is_dbl a \<Longrightarrow> is_dbl b \<Longrightarrow> is_dbl (dmin a b)"
  by (simp add: dmin_def)

lemma is_dbl_dmax [simp, wf_rules]: "is_dbl a \<Longrightarrow> is_dbl b \<Longrightarrow> is_dbl (dmax a b)"
  by (simp add: dmax_def)

lemma fl_exact: "is_dbl (Fin q) \<Longrightarrow> fl q = Fin q"
  by (auto simp: fl_def is_dbl_Fin)

lemma max_finite_ge_pow: "n \<le> 1023 \<Longrightarrow> (2::rat) ^ n \<le> max_finite"
proof -
  assume "n \<le> 1023"
  then have "(2::rat) ^ n \<le> 2 ^ 1023" by (intro power_increasing) auto
  also have "\<dots> \<le> max_finite" by (simp add: max_finite_def)
  finally show ?thesis .
qed

lemma round53_pow2 [simp]: "round53 (2 ^ n) = 2 ^ n"
  using round53_exact[of 1 "int n"] by simp

lemma fl_bounded:
  assumes "\<bar>q\<bar> \<le> 2 ^ n" and "n \<le> 1023"
  shows "fl q = Fin (round53 q)" and "\<bar>round53 q\<bar> \<le> 2 ^ n"
proof -
  have "- (2 ^ n) \<le> round53 q" and "round53 q \<le> 2 ^ n"
    using round53_mono[of q "2 ^ n"] round53_mono[of "- (2 ^ n)" q] assms(1)
    by (simp_all add: round53_minus abs_le_iff)
  then show "\<bar>round53 q\<bar> \<le> 2 ^ n" by simp
  then show "fl q = Fin (round53 q)" using max_finite_ge_pow[OF assms(2)] by (auto simp: fl_def Let_def)
qed

text \<open>Integers and dyadic fractions of at most 53 bits are doubles.\<close>

lemma is_dbl_dyadic:
  assumes "\<bar>m\<bar> \<le> 2 ^ 53" and "n \<le> 1074"
  shows "is_dbl (Fin (of_int m / 2 ^ n))"
proof -
  have eq: "of_int m / 2 ^ n = (of_int m * 2 powi (- int n) :: rat)" by (simp add: neg_pow)
  have "round53 (of_int m / 2 ^ n) = of_int m / 2 ^ n"
    unfolding eq using assms by (intro round53_exact) auto
  moreover have "\<bar>of_int m / 2 ^ n\<bar> \<le> (2 ^ 53 :: rat)"
  proof -
    have "(of_int \<bar>m\<bar> :: rat) \<le> of_int (2 ^ 53)" using assms(1) by (simp only: of_int_le_iff)
    moreover have "(of_int \<bar>m\<bar> :: rat) / 2 ^ n \<le> of_int \<bar>m\<bar> / 1" by (intro divide_left_mono) auto
    ultimately show ?thesis by simp
  qed
  ultimately show ?thesis using max_finite_ge_pow[of 53] by (simp add: is_dbl_Fin)
qed

lemma is_dbl_int: "\<bar>m\<bar> \<le> 2 ^ 53 \<Longrightarrow> is_dbl (Fin (of_int m))"
  using is_dbl_dyadic[of m 0] by simp

lemma fl_numeral [simp]:
  "fl 0 = Fin 0" "fl 1 = Fin 1" "(numeral n :: int) \<le> 2 ^ 53 \<Longrightarrow> fl (numeral n) = Fin (numeral n)"
  using is_dbl_int[of "numeral n"] is_dbl_int[of 1] by (simp_all add: fl_exact)

lemma dleq_Fin_bounds: "dleq (Fin lo) x \<Longrightarrow> dleq x (Fin hi) \<Longrightarrow> \<exists>q. x = Fin q \<and> lo \<le> q \<and> q \<le> hi"
  by (cases x) auto

lemma not_dless_bounds:
  "isfinite x \<Longrightarrow> \<not> dless x (Fin lo) \<Longrightarrow> \<not> dless (Fin hi) x \<Longrightarrow> lo \<le> dval x \<and> dval x \<le> hi"
  by (cases x) auto

section \<open>The first-order response\<close>

text \<open>\<open>x += alpha * (target - x)\<close>, the update of every simulated physical quantity.\<close>

definition first_order :: "double \<Rightarrow> double \<Rightarrow> double \<Rightarrow> double" where
  "first_order alpha target x = dadd x (dmul alpha (dsub target x))"

text \<open>Values a physical quantity may take: finite and far from overflow.\<close>

definition moderate :: "double \<Rightarrow> bool" where
  "moderate d \<longleftrightarrow> isfinite d \<and> is_dbl d \<and> \<bar>dval d\<bar> \<le> 2 ^ 1000"

lemma first_order_between:
  assumes a: "moderate x" and t: "moderate target" and al: "alpha = Fin \<alpha>" "0 \<le> \<alpha>" "\<alpha> \<le> 1 - 1 / 2 ^ 51"
  shows "moderate (first_order alpha target x)"
    and "min (dval x) (dval target) \<le> dval (first_order alpha target x)"
    and "dval (first_order alpha target x) \<le> max (dval x) (dval target)"
proof -
  define p q where pq: "p = dval x" "q = dval target"
  then have x: "x = Fin p" and tt: "target = Fin q" using a t by (auto simp: moderate_def isfinite_iff)
  have p: "round53 p = p" "\<bar>p\<bar> \<le> 2 ^ 1000" and q: "round53 q = q" "\<bar>q\<bar> \<le> 2 ^ 1000"
    using a t by (auto simp: moderate_def x tt is_dbl_Fin)
  then have "\<bar>q - p\<bar> \<le> 2 * 2 ^ 1000" by linarith
  then have "\<bar>q - p\<bar> \<le> 2 ^ 1001" by simp
  note d = fl_bounded[OF this]
  have "\<bar>\<alpha> * round53 (q - p)\<bar> \<le> 1 * 2 ^ 1001"
    unfolding abs_mult using al d(2) by (intro mult_mono) auto
  then have "\<bar>\<alpha> * round53 (q - p)\<bar> \<le> 2 ^ 1001" by simp
  note m = fl_bounded[OF this]
  define y where "y = round53 (p + round53 (\<alpha> * round53 (q - p)))"
  have y: "min p q \<le> y" "y \<le> max p q" unfolding y_def by (rule b64.lerp[OF p(1) q(1) al(2,3)])+
  have "\<bar>p + round53 (\<alpha> * round53 (q - p))\<bar> \<le> 2 ^ 1000 + 2 ^ 1001" using m(2) p(2) by linarith
  also have "\<dots> \<le> (2 ^ 1002 :: rat)" by simp
  finally have s: "fl (p + round53 (\<alpha> * round53 (q - p))) = Fin y"
    unfolding y_def by (rule fl_bounded) simp
  have res: "first_order alpha target x = Fin y"
    using d(1) m(1) s by (simp add: first_order_def x tt al dsub_def)
  have "is_dbl (Fin y)" using is_dbl_fl[of "p + round53 (\<alpha> * round53 (q - p))"] s by simp
  moreover have "\<bar>y\<bar> \<le> 2 ^ 1000" using y p(2) q(2) by (auto simp: min_def max_def abs_le_iff split: if_splits)
  ultimately show "moderate (first_order alpha target x)" by (simp add: res moderate_def)
  show "min (dval x) (dval target) \<le> dval (first_order alpha target x)"
    and "dval (first_order alpha target x) \<le> max (dval x) (dval target)"
    using y res by (simp_all add: x tt)
qed

section \<open>Printing\<close>

text \<open>
  \<open>std::to_string(double)\<close> prints as \<open>printf("%f")\<close> does: six digits after the point, the
  exact value rounded to the nearest, ties to even.
\<close>

definition pad6 :: "string \<Rightarrow> string" where
  "pad6 s = replicate (6 - length s) (digit_char 0) @ s"

fun to_string_double :: "double \<Rightarrow> string" where
  "to_string_double NaN = ''nan''"
| "to_string_double PosInf = ''inf''"
| "to_string_double NegInf = ''-inf''"
| "to_string_double (Fin q) =
     (let n = nat (rnd_even (\<bar>q\<bar> * 1000000))
      in (if q < 0 then ''-'' else []) @ to_string_nat (n div 1000000) @ ''.'' @ pad6 (to_string_nat (n mod 1000000)))"

lemma floor_rat_eval [simp]:
  "\<lfloor>numeral a / numeral b :: rat\<rfloor> = numeral a div numeral b"
  "\<lfloor>- (numeral a / numeral b) :: rat\<rfloor> = - numeral a div numeral b"
  "\<lfloor>1 / numeral b :: rat\<rfloor> = 1 div numeral b"
  "\<lfloor>- (1 / numeral b) :: rat\<rfloor> = - 1 div numeral b"
  using floor_divide_of_int_eq[of "numeral a" "numeral b", where 'a = rat]
    floor_divide_of_int_eq[of "- numeral a" "numeral b", where 'a = rat]
    floor_divide_of_int_eq[of 1 "numeral b", where 'a = rat]
    floor_divide_of_int_eq[of "- 1" "numeral b", where 'a = rat]
  by simp_all

lemma replicate_numeral_eval: "replicate (numeral k) x = x # replicate (pred_numeral k) x"
  by (simp add: numeral_eq_Suc)

lemmas print_simps = replicate_numeral_eval to_string_nat_eval digit_char_simps pad6_def rnd_even_def Let_def

text \<open>The bundle that evaluates a rounded literal or operation on concrete values.\<close>

lemmas fl_eval = fl_def round53_def ulp_def ulp_exp_def ilog2_def nlog2_eval rnd_even_def max_finite_def
  Let_def ceiling_def

end
