(* ===== verification/Adpp.thy ===== *)
theory Adpp
  imports Float64
begin

text \<open>
  The ADPP messages the provider builds and reads, and the helpers of
  \<open>src/devices/common/device_common.hpp\<close>.

  A message is a record of the fields the code sets or reads; an unset field has the default of
  protobuf. A \<open>Value\<close> carries its type beside its payload and the readers of the code check
  the type only, so a value whose payload was never set reads as the default of that type.
  A fallible reader (\<open>bool get_arg_X(args, key, out)\<close>) is an option: \<open>None\<close> is
  \<open>false\<close>, \<open>Some x\<close> is \<open>true\<close> with \<open>out = x\<close>.
\<close>

section \<open>Values\<close>

datatype value_type =
    VALUE_TYPE_DOUBLE
  | VALUE_TYPE_INT64
  | VALUE_TYPE_BOOL
  | VALUE_TYPE_STRING
  | VALUE_TYPE_OTHER nat  \<comment> \<open>any other number on the wire, 0 when unset\<close>

record pb_value =
  v_type :: value_type
  double_value :: double
  int64_value :: int64
  bool_value :: bool
  string_value :: string

definition empty_value :: pb_value where
  "empty_value = \<lparr>v_type = VALUE_TYPE_OTHER 0, double_value = Fin 0, int64_value = 0,
     bool_value = False, string_value = []\<rparr>"

type_synonym args = "(string, pb_value) smap"

definition value_is_type :: "pb_value \<Rightarrow> value_type \<Rightarrow> bool" where
  "value_is_type v t \<longleftrightarrow> v_type v = t"

definition get_arg_bool :: "args \<Rightarrow> string \<Rightarrow> bool option" where
  "get_arg_bool args key = (case m_find key args of
      None \<Rightarrow> None
    | Some v \<Rightarrow> if \<not> value_is_type v VALUE_TYPE_BOOL then None else Some (bool_value v))"

definition get_arg_int64 :: "args \<Rightarrow> string \<Rightarrow> int64 option" where
  "get_arg_int64 args key = (case m_find key args of
      None \<Rightarrow> None
    | Some v \<Rightarrow> if \<not> value_is_type v VALUE_TYPE_INT64 then None else Some (int64_value v))"

definition get_arg_double :: "args \<Rightarrow> string \<Rightarrow> double option" where
  "get_arg_double args key = (case m_find key args of
      None \<Rightarrow> None
    | Some v \<Rightarrow> if \<not> value_is_type v VALUE_TYPE_DOUBLE then None else Some (double_value v))"

definition get_arg_string :: "args \<Rightarrow> string \<Rightarrow> string option" where
  "get_arg_string args key = (case m_find key args of
      None \<Rightarrow> None
    | Some v \<Rightarrow> if \<not> value_is_type v VALUE_TYPE_STRING then None else Some (string_value v))"

definition make_bool :: "bool \<Rightarrow> pb_value" where
  "make_bool b = empty_value\<lparr>v_type := VALUE_TYPE_BOOL, bool_value := b\<rparr>"

definition make_double :: "double \<Rightarrow> pb_value" where
  "make_double d = empty_value\<lparr>v_type := VALUE_TYPE_DOUBLE, double_value := d\<rparr>"

definition make_string :: "string \<Rightarrow> pb_value" where
  "make_string s = empty_value\<lparr>v_type := VALUE_TYPE_STRING, string_value := s\<rparr>"

definition make_int64 :: "int64 \<Rightarrow> pb_value" where
  "make_int64 i = empty_value\<lparr>v_type := VALUE_TYPE_INT64, int64_value := i\<rparr>"

lemmas make_defs = make_bool_def make_double_def make_string_def make_int64_def

lemma make_fields [simp]:
  "v_type (make_bool b) = VALUE_TYPE_BOOL" "bool_value (make_bool b) = b"
  "v_type (make_double d) = VALUE_TYPE_DOUBLE" "double_value (make_double d) = d"
  "v_type (make_string s) = VALUE_TYPE_STRING" "string_value (make_string s) = s"
  "v_type (make_int64 i) = VALUE_TYPE_INT64" "int64_value (make_int64 i) = i"
  by (simp_all add: make_defs)

lemma get_arg_SomeD:
  "get_arg_bool args k = Some b \<Longrightarrow> \<exists>v. m_find k args = Some v \<and> v_type v = VALUE_TYPE_BOOL \<and> bool_value v = b"
  "get_arg_int64 args k = Some i \<Longrightarrow> \<exists>v. m_find k args = Some v \<and> v_type v = VALUE_TYPE_INT64 \<and> int64_value v = i"
  "get_arg_double args k = Some d \<Longrightarrow> \<exists>v. m_find k args = Some v \<and> v_type v = VALUE_TYPE_DOUBLE \<and> double_value v = d"
  "get_arg_string args k = Some s \<Longrightarrow> \<exists>v. m_find k args = Some v \<and> v_type v = VALUE_TYPE_STRING \<and> string_value v = s"
  by (auto simp: get_arg_bool_def get_arg_int64_def get_arg_double_def get_arg_string_def value_is_type_def
      split: option.splits if_splits)

text \<open>What the readers see in a map that was just written: the evaluation rules of a call's arguments.\<close>

lemma get_arg_put [simp, getter_simps]:
  "get_arg_bool (m_put k v args) k' =
     (if k' = k then (if v_type v = VALUE_TYPE_BOOL then Some (bool_value v) else None) else get_arg_bool args k')"
  "get_arg_int64 (m_put k v args) k' =
     (if k' = k then (if v_type v = VALUE_TYPE_INT64 then Some (int64_value v) else None) else get_arg_int64 args k')"
  "get_arg_double (m_put k v args) k' =
     (if k' = k then (if v_type v = VALUE_TYPE_DOUBLE then Some (double_value v) else None) else get_arg_double args k')"
  "get_arg_string (m_put k v args) k' =
     (if k' = k then (if v_type v = VALUE_TYPE_STRING then Some (string_value v) else None) else get_arg_string args k')"
  by (simp_all add: get_arg_bool_def get_arg_int64_def get_arg_double_def get_arg_string_def value_is_type_def)

lemma get_arg_empty [simp, getter_simps]:
  "get_arg_bool m_empty k = None" "get_arg_int64 m_empty k = None"
  "get_arg_double m_empty k = None" "get_arg_string m_empty k = None"
  by (simp_all add: get_arg_bool_def get_arg_int64_def get_arg_double_def get_arg_string_def)

text \<open>Argument maps whose doubles are binary64 values, as the wire format delivers them.\<close>

definition wf_args :: "args \<Rightarrow> bool" where
  "wf_args args \<longleftrightarrow> m_all (\<lambda>v. is_dbl (double_value v)) args"

lemma wf_args_double: "wf_args args \<Longrightarrow> get_arg_double args k = Some d \<Longrightarrow> is_dbl d"
  by (auto simp: wf_args_def get_arg_double_def dest: m_all_find split: option.splits if_splits)

lemma wf_args_put: "wf_args args \<Longrightarrow> is_dbl (double_value v) \<Longrightarrow> wf_args (m_put k v args)"
  by (auto simp: wf_args_def)

lemma wf_args_empty [simp]: "wf_args m_empty"
  by (simp add: wf_args_def)

section \<open>Clamping\<close>

definition clamp :: "double \<Rightarrow> double \<Rightarrow> double \<Rightarrow> double" where
  "clamp v lo hi = dmax lo (dmin hi v)"

lemma clamp_range:
  assumes "lo \<le> hi"
  shows "\<exists>q. clamp v (Fin lo) (Fin hi) = Fin q \<and> lo \<le> q \<and> q \<le> hi"
  using assms by (cases v) (auto simp: clamp_def dmax_def dmin_def)

lemma clamp_inside: "lo \<le> q \<Longrightarrow> q \<le> hi \<Longrightarrow> clamp (Fin q) (Fin lo) (Fin hi) = Fin q"
  by (auto simp: clamp_def dmax_def dmin_def)

lemma clamp_NaN: "lo \<le> hi \<Longrightarrow> clamp NaN (Fin lo) (Fin hi) = Fin hi"
  by (auto simp: clamp_def dmax_def dmin_def)

lemma is_dbl_clamp [simp, wf_rules]: "is_dbl v \<Longrightarrow> is_dbl lo \<Longrightarrow> is_dbl hi \<Longrightarrow> is_dbl (clamp v lo hi)"
  by (simp add: clamp_def)

section \<open>Signal values\<close>

datatype quality = QUALITY_OK | QUALITY_FAULT

record signal_value =
  sv_signal_id :: string
  sv_value :: pb_value
  sv_timestamp :: int
  sv_quality :: quality

text \<open>The system clock is read once per value; its reading is the argument \<open>ts\<close>.\<close>

definition make_signal_value :: "int \<Rightarrow> string \<Rightarrow> pb_value \<Rightarrow> signal_value" where
  "make_signal_value ts sid v =
     \<lparr>sv_signal_id = sid, sv_value = v, sv_timestamp = ts, sv_quality = QUALITY_OK\<rparr>"

lemma make_signal_value_fields [simp]:
  "sv_signal_id (make_signal_value ts i v) = i" "sv_value (make_signal_value ts i v) = v"
  "sv_quality (make_signal_value ts i v) = QUALITY_OK" "sv_timestamp (make_signal_value ts i v) = ts"
  by (simp_all add: make_signal_value_def)

section \<open>Results of calls\<close>

datatype status_code =
    CODE_OK
  | CODE_INVALID_ARGUMENT
  | CODE_NOT_FOUND
  | CODE_FAILED_PRECONDITION
  | CODE_OUT_OF_RANGE
  | CODE_UNAVAILABLE

record call_result =
  cr_code :: status_code
  cr_message :: string

definition ok :: call_result where
  "ok = \<lparr>cr_code = CODE_OK, cr_message = ''ok''\<rparr>"

definition bad :: "string \<Rightarrow> call_result" where
  "bad m = \<lparr>cr_code = CODE_INVALID_ARGUMENT, cr_message = m\<rparr>"

definition nf :: "string \<Rightarrow> call_result" where
  "nf m = \<lparr>cr_code = CODE_NOT_FOUND, cr_message = m\<rparr>"

definition precond :: "string \<Rightarrow> call_result" where
  "precond m = \<lparr>cr_code = CODE_FAILED_PRECONDITION, cr_message = m\<rparr>"

definition out_of_range :: "string \<Rightarrow> call_result" where
  "out_of_range m = \<lparr>cr_code = CODE_OUT_OF_RANGE, cr_message = m\<rparr>"

lemma result_codes [simp]:
  "cr_code ok = CODE_OK" "cr_code (bad m) = CODE_INVALID_ARGUMENT" "cr_code (nf m) = CODE_NOT_FOUND"
  "cr_code (precond m) = CODE_FAILED_PRECONDITION" "cr_code (out_of_range m) = CODE_OUT_OF_RANGE"
  by (simp_all add: ok_def bad_def nf_def precond_def out_of_range_def)

lemma result_messages [simp]:
  "cr_message (bad m) = m" "cr_message (nf m) = m" "cr_message (precond m) = m" "cr_message (out_of_range m) = m"
  by (simp_all add: bad_def nf_def precond_def out_of_range_def)

lemma result_distinct [simp]:
  "ok \<noteq> bad m" "ok \<noteq> nf m" "ok \<noteq> precond m" "ok \<noteq> out_of_range m"
  "bad m \<noteq> ok" "nf m \<noteq> ok" "precond m \<noteq> ok" "out_of_range m \<noteq> ok"
  by (simp_all add: ok_def bad_def nf_def precond_def out_of_range_def)

section \<open>Descriptors\<close>

record arg_spec =
  arg_name :: string
  arg_type :: value_type
  arg_required :: bool
  arg_description :: string
  arg_unit :: string
  arg_min_int64 :: "int option"
  arg_max_int64 :: "int option"
  arg_min_double :: "double option"
  arg_max_double :: "double option"

definition make_arg_spec :: "string \<Rightarrow> value_type \<Rightarrow> bool \<Rightarrow> string \<Rightarrow> string \<Rightarrow> arg_spec" where
  "make_arg_spec name t required description unit =
     \<lparr>arg_name = name, arg_type = t, arg_required = required, arg_description = description,
      arg_unit = unit, arg_min_int64 = None, arg_max_int64 = None, arg_min_double = None, arg_max_double = None\<rparr>"

datatype category = CATEGORY_CONFIG | CATEGORY_ACTUATE

record function_policy =
  fp_category :: category
  fp_requires_lease :: bool
  fp_is_idempotent :: bool
  fp_min_interval_ms :: int

text \<open>The code passes the category only; the other arguments keep their defaults.\<close>

definition make_function_policy :: "category \<Rightarrow> function_policy" where
  "make_function_policy c =
     \<lparr>fp_category = c, fp_requires_lease = False, fp_is_idempotent = False, fp_min_interval_ms = 0\<rparr>"

record result_spec =
  rs_name :: string
  rs_type :: value_type
  rs_required :: bool
  rs_description :: string

record function_spec =
  fs_function_id :: uint32
  fs_name :: string
  fs_description :: string
  fs_policy :: function_policy
  fs_args :: "arg_spec list"
  fs_results :: "result_spec list"

record signal_spec =
  ss_signal_id :: string
  ss_name :: string
  ss_description :: string
  ss_value_type :: value_type
  ss_unit :: string
  ss_poll_hint_hz :: double
  ss_stale_after_ms :: nat

record capability_set =
  caps_signals :: "signal_spec list"
  caps_functions :: "function_spec list"

definition empty_caps :: capability_set where
  "empty_caps = \<lparr>caps_signals = [], caps_functions = []\<rparr>"

record device =
  d_device_id :: string
  d_provider_name :: string
  d_type_id :: string
  d_type_version :: string
  d_label :: string
  d_address :: string
  d_tags :: "(string, string) smap"

definition empty_device :: device where
  "empty_device = \<lparr>d_device_id = [], d_provider_name = [], d_type_id = [], d_type_version = [],
     d_label = [], d_address = [], d_tags = m_empty\<rparr>"

text \<open>\<open>kProviderName\<close>, declared alike in every device module.\<close>

definition kProviderName :: string where
  "kProviderName = ''anolis-provider-sim''"

text \<open>The blocks of setters that fill one specification of a capability set.\<close>

definition mk_signal ::
  "string \<Rightarrow> string \<Rightarrow> string \<Rightarrow> value_type \<Rightarrow> string \<Rightarrow> double \<Rightarrow> nat \<Rightarrow> signal_spec" where
  "mk_signal sid name description t unit hz stale =
     \<lparr>ss_signal_id = sid, ss_name = name, ss_description = description, ss_value_type = t,
      ss_unit = unit, ss_poll_hint_hz = hz, ss_stale_after_ms = stale\<rparr>"

definition mk_function :: "uint32 \<Rightarrow> string \<Rightarrow> string \<Rightarrow> category \<Rightarrow> arg_spec list \<Rightarrow> function_spec" where
  "mk_function fid name description c as =
     \<lparr>fs_function_id = fid, fs_name = name, fs_description = description,
      fs_policy = make_function_policy c, fs_args = as, fs_results = []\<rparr>"

section \<open>Advertised and accepted arguments\<close>

text \<open>
  A call conforms to a function's specification when every required argument is there with the
  advertised type and inside the advertised bounds. The modules prove that what they accept conforms
  to what they advertise.
\<close>

definition within_int64 :: "arg_spec \<Rightarrow> int \<Rightarrow> bool" where
  "within_int64 a i \<longleftrightarrow>
     (case arg_min_int64 a of None \<Rightarrow> True | Some lo \<Rightarrow> lo \<le> i) \<and>
     (case arg_max_int64 a of None \<Rightarrow> True | Some hi \<Rightarrow> i \<le> hi)"

definition within_double :: "arg_spec \<Rightarrow> double \<Rightarrow> bool" where
  "within_double a d \<longleftrightarrow>
     (case arg_min_double a of None \<Rightarrow> True | Some lo \<Rightarrow> dleq lo d) \<and>
     (case arg_max_double a of None \<Rightarrow> True | Some hi \<Rightarrow> dleq d hi)"

definition arg_conforms :: "arg_spec \<Rightarrow> args \<Rightarrow> bool" where
  "arg_conforms a args \<longleftrightarrow> (case m_find (arg_name a) args of
      None \<Rightarrow> \<not> arg_required a
    | Some v \<Rightarrow> v_type v = arg_type a \<and> within_int64 a (sint (int64_value v)) \<and> within_double a (double_value v))"

definition call_conforms :: "capability_set \<Rightarrow> uint32 \<Rightarrow> args \<Rightarrow> bool" where
  "call_conforms caps f args \<longleftrightarrow>
     (\<exists>spec \<in> set (caps_functions caps). fs_function_id spec = f \<and> (\<forall>a \<in> set (fs_args spec). arg_conforms a args))"

definition function_ids :: "capability_set \<Rightarrow> uint32 list" where
  "function_ids caps = map fs_function_id (caps_functions caps)"

definition signal_ids :: "capability_set \<Rightarrow> string list" where
  "signal_ids caps = map ss_signal_id (caps_signals caps)"

lemma arg_conforms_simple:
  "arg_conforms (make_arg_spec n VALUE_TYPE_STRING True descr u) args \<longleftrightarrow> get_arg_string args n \<noteq> None"
  "arg_conforms (make_arg_spec n VALUE_TYPE_INT64 True descr u) args \<longleftrightarrow> get_arg_int64 args n \<noteq> None"
  "arg_conforms (make_arg_spec n VALUE_TYPE_DOUBLE True descr u) args \<longleftrightarrow> get_arg_double args n \<noteq> None"
  "arg_conforms (make_arg_spec n VALUE_TYPE_BOOL True descr u) args \<longleftrightarrow> get_arg_bool args n \<noteq> None"
  by (auto simp: arg_conforms_def make_arg_spec_def within_int64_def within_double_def get_arg_string_def
      get_arg_int64_def get_arg_double_def get_arg_bool_def value_is_type_def split: option.splits)

lemma arg_conforms_int64_range:
  "arg_conforms ((make_arg_spec n VALUE_TYPE_INT64 True descr u)\<lparr>arg_min_int64 := Some lo, arg_max_int64 := Some hi\<rparr>) args
     \<longleftrightarrow> (\<exists>i. get_arg_int64 args n = Some i \<and> lo \<le> sint i \<and> sint i \<le> hi)"
  by (auto simp: arg_conforms_def make_arg_spec_def within_int64_def within_double_def
      get_arg_int64_def value_is_type_def split: option.splits)

lemma arg_conforms_double_range:
  "arg_conforms ((make_arg_spec n VALUE_TYPE_DOUBLE True descr u)\<lparr>arg_min_double := Some lo, arg_max_double := Some hi\<rparr>) args
     \<longleftrightarrow> (\<exists>d. get_arg_double args n = Some d \<and> dleq lo d \<and> dleq d hi)"
  by (auto simp: arg_conforms_def make_arg_spec_def within_int64_def within_double_def
      get_arg_double_def value_is_type_def split: option.splits)

lemmas conforms_simps = arg_conforms_simple arg_conforms_int64_range arg_conforms_double_range

text \<open>An in-bounds test written with \<open>isfinite\<close> and \<open>\<open><\<close>\<close> is the advertised closed interval.\<close>

lemma finite_in_range_iff:
  "isfinite d \<and> \<not> dless d (Fin lo) \<and> \<not> dless (Fin hi) d \<longleftrightarrow> dleq (Fin lo) d \<and> dleq d (Fin hi)"
  by (cases d) auto

text \<open>The index arguments of the modules are tested by equality, and advertised as a range.\<close>

lemma int64_one_or_two: "(i = 1 \<or> i = 2) \<longleftrightarrow> 1 \<le> sint (i :: int64) \<and> sint i \<le> 2"
proof -
  have "i = 1 \<or> i = 2 \<longleftrightarrow> sint i = sint (1 :: int64) \<or> sint i = sint (2 :: int64)"
    by (metis signed_word_eqI)
  then show ?thesis by auto
qed

lemma concat_map_singletons:
  "(\<And>i. map g (f i) = (if P i then [i] else [])) \<Longrightarrow> map g (concat (map f is)) = filter P is"
  by (induction "is") auto

end
