(* ===== verification/Environment.thy ===== *)
theory Environment
  imports Adpp
begin

text \<open>
  The code outside the repository that the model takes as a parameter, and the documented behaviour
  the properties rely on.

  \<open>'g\<close> is the state of a \<open>std::mt19937\<close>; the distributions drawn from it are
  implementation-defined in the C++ standard, so they are functions of the parameter record
  \<open>lib\<close>, as are \<open>std::exp\<close> and the scalar conversion of yaml-cpp.
\<close>

section \<open>YAML nodes\<close>

text \<open>The four kinds of node of the YAML data model; a scalar is its text.\<close>

datatype yaml =
    YNull
  | YScalar string
  | YSequence "yaml list"
  | YMapping "(yaml \<times> yaml) list"

section \<open>Library functions\<close>

record 'g lib =
  lib_exp :: "double \<Rightarrow> double"                          \<comment> \<open>\<open>std::exp\<close>\<close>
  lib_uniform01 :: "'g \<Rightarrow> double \<times> 'g"                  \<comment> \<open>\<open>std::uniform_real_distribution(0.0, 1.0)\<close>\<close>
  lib_normal :: "double \<Rightarrow> double \<Rightarrow> 'g \<Rightarrow> double \<times> 'g"   \<comment> \<open>\<open>std::normal_distribution(mean, stddev)\<close>\<close>
  lib_mt19937 :: "uint32 \<Rightarrow> 'g"                          \<comment> \<open>the engine seeded with a number\<close>
  lib_yaml_double :: "yaml \<Rightarrow> double option"             \<comment> \<open>\<open>node.as<double>()\<close>, \<open>None\<close> when it throws\<close>
  lib_bad_conversion :: "yaml \<Rightarrow> string"                 \<comment> \<open>and the message of that exception\<close>

text \<open>
  What the properties assume of them, one predicate per library function:
  the exponential of a number between -32 and zero lies between \<open>2\<^sup>-\<^sup>5\<^sup>0\<close> and one,
  a uniform draw lies in the half-open unit interval, and every result is a binary64 value.
\<close>

definition exp_law :: "'g lib \<Rightarrow> bool" where
  "exp_law lib \<longleftrightarrow>
     (\<forall>q. - 32 \<le> q \<and> q \<le> 0 \<longrightarrow>
        (\<exists>e. lib_exp lib (Fin q) = Fin e \<and> is_dbl (Fin e) \<and> 1 / 2 ^ 50 \<le> e \<and> e \<le> 1))"

definition uniform_law :: "'g lib \<Rightarrow> bool" where
  "uniform_law lib \<longleftrightarrow> (\<forall>g. \<exists>u. fst (lib_uniform01 lib g) = Fin u \<and> 0 \<le> u \<and> u < 1)"

definition yaml_law :: "'g lib \<Rightarrow> bool" where
  "yaml_law lib \<longleftrightarrow> (\<forall>y d. lib_yaml_double lib y = Some d \<longrightarrow> is_dbl d)"

text \<open>
  A concrete library on which the laws hold: the engine state counts the draws, the uniform draw is
  the middle of the interval, the exponential is its tangent at zero down to a half, and a few scalars are read.
\<close>

definition ref_exp :: "double \<Rightarrow> double" where
  "ref_exp d = (case d of Fin q \<Rightarrow> if q < - 1 / 2 then Fin (1 / 2) else fl (1 + q) | _ \<Rightarrow> NaN)"

definition ref_yaml_double :: "yaml \<Rightarrow> double option" where
  "ref_yaml_double y = (case y of
      YScalar s \<Rightarrow>
        (if s = ''20'' then Some (Fin 20) else if s = ''80'' then Some (Fin 80)
         else if s = ''90'' then Some (Fin 90) else if s = ''3000'' then Some (Fin 3000)
         else if s = ''.nan'' then Some NaN else if s = ''.inf'' then Some PosInf else None)
    | _ \<Rightarrow> None)"

definition ref_lib :: "nat lib" where
  "ref_lib = \<lparr>lib_exp = ref_exp, lib_uniform01 = (\<lambda>g. (Fin (1 / 2), Suc g)),
     lib_normal = (\<lambda>m s g. (m, Suc g)), lib_mt19937 = (\<lambda>seed. 0), lib_yaml_double = ref_yaml_double,
     lib_bad_conversion = (\<lambda>y. ''bad conversion'')\<rparr>"

lemma half_fixed: "round53 (1 / 2) = 1 / 2" and one_fixed: "round53 1 = 1"
  using is_dbl_dyadic[of 1 1] is_dbl_int[of 1] by (simp_all add: is_dbl_Fin)

lemma exp_law_ref [simp]: "exp_law ref_lib"
  unfolding exp_law_def
proof (intro allI impI)
  fix q :: rat
  assume q: "- 32 \<le> q \<and> q \<le> 0"
  show "\<exists>e. lib_exp ref_lib (Fin q) = Fin e \<and> is_dbl (Fin e) \<and> 1 / 2 ^ 50 \<le> e \<and> e \<le> 1"
  proof (cases "q < - 1 / 2")
    case True
    then show ?thesis using is_dbl_dyadic[of 1 1] by (intro exI[of _ "1 / 2"]) (simp add: ref_lib_def ref_exp_def)
  next
    case False
    with q have "1 / 2 \<le> 1 + q" and "1 + q \<le> 1" by simp_all
    from b64.between[OF half_fixed one_fixed this]
    have r: "1 / 2 \<le> round53 (1 + q)" "round53 (1 + q) \<le> 1" by simp_all
    have "\<bar>1 + q\<bar> \<le> 2 ^ 0" using q False by simp
    from fl_bounded(1)[OF this] have fl: "fl (1 + q) = Fin (round53 (1 + q))" by simp
    then have "is_dbl (Fin (round53 (1 + q)))" using is_dbl_fl[of "1 + q"] by simp
    moreover have "1 / 2 ^ 50 \<le> round53 (1 + q)" by (rule order_trans[OF _ r(1)]) simp
    ultimately show ?thesis using r False fl
      by (intro exI[of _ "round53 (1 + q)"]) (simp add: ref_lib_def ref_exp_def)
  qed
qed

lemma uniform_law_ref [simp]: "uniform_law ref_lib"
  unfolding uniform_law_def ref_lib_def by (intro allI exI[of _ "1 / 2"]) simp

lemma yaml_law_ref [simp]: "yaml_law ref_lib"
  using is_dbl_int[of 20] is_dbl_int[of 80] is_dbl_int[of 90] is_dbl_int[of 3000]
  by (auto simp: yaml_law_def ref_lib_def ref_yaml_double_def split: yaml.splits if_splits)

section \<open>The smoothing factor\<close>

text \<open>\<open>1.0 - std::exp(-dt / tau)\<close>, the share of the way to its target a quantity covers in a tick.\<close>

definition smoothing :: "'g lib \<Rightarrow> double \<Rightarrow> double \<Rightarrow> double" where
  "smoothing lib dt tau = dsub (Fin 1) (lib_exp lib (ddiv (dneg dt) tau))"

lemma near_one_fixed: "round53 (1 - 1 / 2 ^ 50) = 1 - 1 / 2 ^ 50"
  using is_dbl_dyadic[of "2 ^ 50 - 1" 50] by (simp add: is_dbl_Fin)

text \<open>A double between two doubles rounds to a double between them, without overflow.\<close>

lemma fl_between:
  assumes "is_dbl (Fin a)" and "is_dbl (Fin b)" and "a \<le> q" and "q \<le> b"
  shows "fl q = Fin (round53 q) \<and> a \<le> round53 q \<and> round53 q \<le> b"
proof -
  have "a \<le> round53 q \<and> round53 q \<le> b" using assms by (intro b64.between) (auto simp: is_dbl_Fin)
  moreover from this assms(1,2) have "fl q = Fin (round53 q)" by (auto simp: fl_def Let_def is_dbl_Fin)
  ultimately show ?thesis by simp
qed

lemma smoothing_bounds:
  assumes "exp_law lib" and "0 \<le> t" and "0 < \<tau>" and "t \<le> 32 * \<tau>"
  shows "\<exists>\<alpha>. smoothing lib (Fin t) (Fin \<tau>) = Fin \<alpha> \<and> 0 \<le> \<alpha> \<and> \<alpha> \<le> 1 - 1 / 2 ^ 51"
proof -
  have "- 32 \<le> - t / \<tau>" and "- t / \<tau> \<le> 0" using assms(2-4) by (simp_all add: field_simps)
  moreover have "is_dbl (Fin (- 32))" using is_dbl_int[of "- 32"] by simp
  ultimately have q: "fl (- t / \<tau>) = Fin (round53 (- t / \<tau>))" "- 32 \<le> round53 (- t / \<tau>)" "round53 (- t / \<tau>) \<le> 0"
    using fl_between[of "- 32" 0 "- t / \<tau>"] by simp_all
  then obtain e where e: "lib_exp lib (Fin (round53 (- t / \<tau>))) = Fin e" "1 / 2 ^ 50 \<le> e" "e \<le> 1"
    using assms(1) by (auto simp: exp_law_def)
  have "is_dbl (Fin (1 - 1 / 2 ^ 50))" using is_dbl_dyadic[of "2 ^ 50 - 1" 50] by simp
  moreover have "0 \<le> 1 + - e" and "1 + - e \<le> 1 - 1 / 2 ^ 50" using e by simp_all
  ultimately have "fl (1 + - e) = Fin (round53 (1 + - e)) \<and> 0 \<le> round53 (1 + - e) \<and> round53 (1 + - e) \<le> 1 - 1 / 2 ^ 50"
    by (intro fl_between) auto
  moreover have "(1 - 1 / 2 ^ 50 :: rat) \<le> 1 - 1 / 2 ^ 51" by simp
  ultimately show ?thesis
    using q(1) e(1) assms(3) by (auto simp: smoothing_def dsub_def intro!: order_trans[of "round53 (1 - e)"])
qed

end
