(* ===== verification/Fault_Injection.thy ===== *)
theory Fault_Injection
  imports Environment
begin

text \<open>
  \<open>src/chaos/fault_injection.hpp\<close> and \<open>.cpp\<close>: the process-wide table of injected faults.

  Every function takes the state's mutex for its whole body, so each is one atomic operation on
  \<open>fault_state\<close>. The steady clock is read once per operation: its reading, in nanoseconds,
  is the argument \<open>now\<close>. A query drops what has expired, so it returns a new state.
\<close>

section \<open>State\<close>

record device_unavailable_fault =
  duf_expires_at :: int

record signal_fault =
  sf_signal_id :: string
  sf_expires_at :: int

record call_latency_fault =
  clf_latency_ms :: int64

record call_failure_fault =
  cff_function_id :: string
  cff_failure_rate :: double

record 'g fault_state =
  device_unavailable_faults :: "(string, device_unavailable_fault) smap"
  device_unreachable_faults :: "(string, device_unavailable_fault) smap"
  signal_faults :: "(string, signal_fault list) smap"
  call_latency_faults :: "(string, call_latency_fault) smap"
  call_failure_faults :: "(string, call_failure_fault list) smap"
  fault_rng :: 'g

definition init_fault_state :: "'g \<Rightarrow> 'g fault_state" where
  "init_fault_state g = \<lparr>device_unavailable_faults = m_empty, device_unreachable_faults = m_empty,
     signal_faults = m_empty, call_latency_faults = m_empty, call_failure_faults = m_empty, fault_rng = g\<rparr>"

section \<open>Operations\<close>

definition clear_all_faults :: "'g fault_state \<Rightarrow> 'g fault_state" where
  "clear_all_faults s = s\<lparr>device_unavailable_faults := m_empty, device_unreachable_faults := m_empty,
     signal_faults := m_empty, call_latency_faults := m_empty, call_failure_faults := m_empty\<rparr>"

text \<open>
  \<open>steady_clock::now() + milliseconds(duration_ms)\<close>: the duration is converted to the
  nanoseconds of the clock and added in 64 bits. A signed overflow, undefined in C++, is modelled by
  the two's complement result.
\<close>

definition expires_at :: "int \<Rightarrow> int64 \<Rightarrow> int" where
  "expires_at now duration_ms = wrap64 (now + wrap64 (sint duration_ms * 1000000))"

definition inject_device_unavailable :: "string \<Rightarrow> int64 \<Rightarrow> int \<Rightarrow> 'g fault_state \<Rightarrow> 'g fault_state" where
  "inject_device_unavailable device_id duration_ms now s =
     s\<lparr>device_unavailable_faults :=
         m_put device_id \<lparr>duf_expires_at = expires_at now duration_ms\<rparr> (device_unavailable_faults s)\<rparr>"

definition is_device_unavailable :: "string \<Rightarrow> int \<Rightarrow> 'g fault_state \<Rightarrow> bool \<times> 'g fault_state" where
  "is_device_unavailable device_id now s =
     (case m_find device_id (device_unavailable_faults s) of
        None \<Rightarrow> (False, s)
      | Some f \<Rightarrow>
          if duf_expires_at f \<le> now
          then (False, s\<lparr>device_unavailable_faults := m_erase device_id (device_unavailable_faults s)\<rparr>)
          else (True, s))"

definition inject_device_unreachable :: "string \<Rightarrow> int64 \<Rightarrow> int \<Rightarrow> 'g fault_state \<Rightarrow> 'g fault_state" where
  "inject_device_unreachable device_id duration_ms now s =
     s\<lparr>device_unreachable_faults :=
         m_put device_id \<lparr>duf_expires_at = expires_at now duration_ms\<rparr> (device_unreachable_faults s)\<rparr>"

definition is_device_unreachable :: "string \<Rightarrow> int \<Rightarrow> 'g fault_state \<Rightarrow> bool \<times> 'g fault_state" where
  "is_device_unreachable device_id now s =
     (case m_find device_id (device_unreachable_faults s) of
        None \<Rightarrow> (False, s)
      | Some f \<Rightarrow>
          if duf_expires_at f \<le> now
          then (False, s\<lparr>device_unreachable_faults := m_erase device_id (device_unreachable_faults s)\<rparr>)
          else (True, s))"

definition inject_signal_fault :: "string \<Rightarrow> string \<Rightarrow> int64 \<Rightarrow> int \<Rightarrow> 'g fault_state \<Rightarrow> 'g fault_state" where
  "inject_signal_fault device_id signal_id duration_ms now s =
     (let (faults, m) = m_get_or_insert device_id [] (signal_faults s);
          fault = \<lparr>sf_signal_id = signal_id, sf_expires_at = expires_at now duration_ms\<rparr>
      in s\<lparr>signal_faults := m_put device_id (faults @ [fault]) m\<rparr>)"

definition is_signal_faulted :: "string \<Rightarrow> string \<Rightarrow> int \<Rightarrow> 'g fault_state \<Rightarrow> bool \<times> 'g fault_state" where
  "is_signal_faulted device_id signal_id now s =
     (case m_find device_id (signal_faults s) of
        None \<Rightarrow> (False, s)
      | Some faults \<Rightarrow>
          let faults' = filter (\<lambda>f. \<not> sf_expires_at f \<le> now) faults
          in (list_ex (\<lambda>f. sf_signal_id f = signal_id) faults',
              s\<lparr>signal_faults := m_put device_id faults' (signal_faults s)\<rparr>))"

definition inject_call_latency :: "string \<Rightarrow> int64 \<Rightarrow> 'g fault_state \<Rightarrow> 'g fault_state" where
  "inject_call_latency device_id latency_ms s =
     s\<lparr>call_latency_faults := m_put device_id \<lparr>clf_latency_ms = latency_ms\<rparr> (call_latency_faults s)\<rparr>"

definition get_call_latency :: "string \<Rightarrow> 'g fault_state \<Rightarrow> int64" where
  "get_call_latency device_id s =
     (case m_find device_id (call_latency_faults s) of None \<Rightarrow> 0 | Some f \<Rightarrow> clf_latency_ms f)"

text \<open>The first rule for the function gets the new rate; a function without a rule gets one.\<close>

fun set_failure_rate :: "string \<Rightarrow> double \<Rightarrow> call_failure_fault list \<Rightarrow> call_failure_fault list" where
  "set_failure_rate function_id rate [] = [\<lparr>cff_function_id = function_id, cff_failure_rate = rate\<rparr>]"
| "set_failure_rate function_id rate (f # fs) =
     (if cff_function_id f = function_id then f\<lparr>cff_failure_rate := rate\<rparr> # fs
      else f # set_failure_rate function_id rate fs)"

definition inject_call_failure :: "string \<Rightarrow> string \<Rightarrow> double \<Rightarrow> 'g fault_state \<Rightarrow> 'g fault_state" where
  "inject_call_failure device_id function_id failure_rate s =
     (let (faults, m) = m_get_or_insert device_id [] (call_failure_faults s)
      in s\<lparr>call_failure_faults := m_put device_id (set_failure_rate function_id failure_rate faults) m\<rparr>)"

definition should_call_fail :: "'g lib \<Rightarrow> string \<Rightarrow> string \<Rightarrow> 'g fault_state \<Rightarrow> bool \<times> 'g fault_state" where
  "should_call_fail lib device_id function_id s =
     (case m_find device_id (call_failure_faults s) of
        None \<Rightarrow> (False, s)
      | Some faults \<Rightarrow>
          (case find (\<lambda>f. cff_function_id f = function_id) faults of
             None \<Rightarrow> (False, s)
           | Some f \<Rightarrow>
               let (u, g) = lib_uniform01 lib (fault_rng s)
               in (dless u (cff_failure_rate f), s\<lparr>fault_rng := g\<rparr>)))"

section \<open>Faults with a deadline\<close>

text \<open>
  The contract the two device-wide faults share: an injection sets a deadline, a query compares
  it with the clock and forgets it once it has passed.
\<close>

locale expiring_fault =
  fixes inject :: "string \<Rightarrow> int64 \<Rightarrow> int \<Rightarrow> 's \<Rightarrow> 's"
    and query :: "string \<Rightarrow> int \<Rightarrow> 's \<Rightarrow> bool \<times> 's"
    and deadline :: "string \<Rightarrow> 's \<Rightarrow> int option"
  assumes deadline_inject:
      "deadline d (inject d' ms now s) = (if d = d' then Some (expires_at now ms) else deadline d s)"
    and query_value: "fst (query d now s) \<longleftrightarrow> (\<exists>e. deadline d s = Some e \<and> now < e)"
    and deadline_query:
      "deadline d (snd (query d' now s)) = (if d = d' \<and> \<not> fst (query d' now s) then None else deadline d s)"
begin

lemma active_after_inject: "fst (query d t (inject d ms now s)) \<longleftrightarrow> t < expires_at now ms"
  by (simp add: query_value deadline_inject)

lemma other_device_unaffected: "d \<noteq> d' \<Longrightarrow> fst (query d t (inject d' ms now s)) = fst (query d t s)"
  by (simp add: query_value deadline_inject)

lemma query_stable: "fst (query d t (snd (query d t s))) = fst (query d t s)"
  using query_value[of d t s] by (auto simp: query_value deadline_query)

lemma query_other_device: "d \<noteq> d' \<Longrightarrow> fst (query d t (snd (query d' t' s))) = fst (query d t s)"
  by (simp add: query_value deadline_query)

lemma expired_for_good: "\<not> fst (query d t s) \<Longrightarrow> \<not> fst (query d t' (snd (query d t s)))"
  by (simp add: query_value deadline_query)

lemma active_until_deadline: "fst (query d t s) \<Longrightarrow> t' \<le> t \<Longrightarrow> fst (query d t' s)"
  by (auto simp: query_value)

lemma queries_do_not_extend: "fst (query d t (snd (query d' t' s))) \<Longrightarrow> fst (query d t s)"
  by (auto simp: query_value deadline_query split: if_splits)

end

lemma expires_at_exact:
  assumes "0 \<le> now" and "0 \<le> sint ms" and "now + sint ms * 1000000 < 2 ^ 63"
  shows "expires_at now ms = now + sint ms * 1000000"
  using assms by (simp add: expires_at_def in_int64_def)

definition unavailable_deadline :: "string \<Rightarrow> 'g fault_state \<Rightarrow> int option" where
  "unavailable_deadline d s = map_option duf_expires_at (m_find d (device_unavailable_faults s))"

definition unreachable_deadline :: "string \<Rightarrow> 'g fault_state \<Rightarrow> int option" where
  "unreachable_deadline d s = map_option duf_expires_at (m_find d (device_unreachable_faults s))"

interpretation unavailable: expiring_fault inject_device_unavailable is_device_unavailable unavailable_deadline
  by unfold_locales
    (auto simp: inject_device_unavailable_def is_device_unavailable_def unavailable_deadline_def split: option.splits)

interpretation unreachable: expiring_fault inject_device_unreachable is_device_unreachable unreachable_deadline
  by unfold_locales
    (auto simp: inject_device_unreachable_def is_device_unreachable_def unreachable_deadline_def split: option.splits)

section \<open>Signal faults\<close>

text \<open>A signal is faulted while one of the faults recorded for it has not expired.\<close>

definition signal_fault_active :: "string \<Rightarrow> string \<Rightarrow> int \<Rightarrow> 'g fault_state \<Rightarrow> bool" where
  "signal_fault_active d sg t s \<longleftrightarrow>
     (\<exists>fs. m_find d (signal_faults s) = Some fs \<and> (\<exists>f \<in> set fs. sf_signal_id f = sg \<and> t < sf_expires_at f))"

lemma is_signal_faulted_iff: "fst (is_signal_faulted d sg t s) \<longleftrightarrow> signal_fault_active d sg t s"
  by (auto simp: is_signal_faulted_def signal_fault_active_def Let_def list_ex_iff not_le split: option.splits)

text \<open>Dropping what has expired at \<open>t\<close> is invisible at every later instant.\<close>

lemma is_signal_faulted_purge:
  "t \<le> t' \<Longrightarrow> signal_fault_active d' sg' t' (snd (is_signal_faulted d sg t s)) = signal_fault_active d' sg' t' s"
  by (cases "m_find d (signal_faults s)")
    (auto simp: is_signal_faulted_def signal_fault_active_def Let_def not_le)

lemma signal_fault_active_inject:
  "signal_fault_active d sg t (inject_signal_fault d' sg' ms now s) \<longleftrightarrow>
     signal_fault_active d sg t s \<or> (d = d' \<and> sg = sg' \<and> t < expires_at now ms)"
  by (auto simp: signal_fault_active_def inject_signal_fault_def Let_def m_get_or_insert_def split: option.splits)

section \<open>Failure rules\<close>

definition failure_rate_of :: "string \<Rightarrow> string \<Rightarrow> 'g fault_state \<Rightarrow> double option" where
  "failure_rate_of d f s = (case m_find d (call_failure_faults s) of
      None \<Rightarrow> None
    | Some fs \<Rightarrow> map_option cff_failure_rate (find (\<lambda>r. cff_function_id r = f) fs))"

lemma find_set_failure_rate:
  "map_option cff_failure_rate (find (\<lambda>r. cff_function_id r = f) (set_failure_rate f' rate fs)) =
     (if f = f' then Some rate else map_option cff_failure_rate (find (\<lambda>r. cff_function_id r = f) fs))"
  by (induction fs) auto

lemma failure_rate_of_inject:
  "failure_rate_of d f (inject_call_failure d' f' rate s) =
     (if d = d' \<and> f = f' then Some rate else failure_rate_of d f s)"
  by (cases "m_find d' (call_failure_faults s)")
    (simp_all add: failure_rate_of_def inject_call_failure_def m_get_or_insert_def find_set_failure_rate)

lemma should_call_fail_eq:
  "should_call_fail lib d f s =
     (case failure_rate_of d f s of
        None \<Rightarrow> (False, s)
      | Some rate \<Rightarrow> (dless (fst (lib_uniform01 lib (fault_rng s))) rate,
                      s\<lparr>fault_rng := snd (lib_uniform01 lib (fault_rng s))\<rparr>))"
  by (simp add: should_call_fail_def failure_rate_of_def Let_def split: option.splits prod.splits)

text \<open>Each device has at most one rule per function.\<close>

definition failure_rules_ok :: "'g fault_state \<Rightarrow> bool" where
  "failure_rules_ok s \<longleftrightarrow> m_all (\<lambda>fs. distinct (map cff_function_id fs)) (call_failure_faults s)"

lemma set_failure_rate_ids:
  "set (map cff_function_id (set_failure_rate f r fs)) = insert f (set (map cff_function_id fs))"
  by (induction fs) auto

lemma set_failure_rate_distinct:
  "distinct (map cff_function_id fs) \<Longrightarrow> distinct (map cff_function_id (set_failure_rate f r fs))"
proof (induction fs)
  case (Cons x fs)
  with set_failure_rate_ids[of f r fs] show ?case by auto
qed simp

lemma failure_rules_ok_inject [wf_rules]:
  "failure_rules_ok s \<Longrightarrow> failure_rules_ok (inject_call_failure d f r s)"
  by (auto simp: failure_rules_ok_def inject_call_failure_def Let_def m_get_or_insert_def
      intro!: m_all_put set_failure_rate_distinct dest: m_all_find split: option.splits)

lemma failure_rules_ok_other [wf_rules]:
  "failure_rules_ok (init_fault_state g)"
  "failure_rules_ok (clear_all_faults s)"
  "failure_rules_ok s \<Longrightarrow> failure_rules_ok (inject_device_unavailable d ms now s)"
  "failure_rules_ok s \<Longrightarrow> failure_rules_ok (inject_device_unreachable d ms now s)"
  "failure_rules_ok s \<Longrightarrow> failure_rules_ok (inject_signal_fault d sg ms now s)"
  "failure_rules_ok s \<Longrightarrow> failure_rules_ok (inject_call_latency d ms s)"
  by (simp_all add: failure_rules_ok_def init_fault_state_def clear_all_faults_def inject_device_unavailable_def
      inject_device_unreachable_def inject_signal_fault_def inject_call_latency_def Let_def split: prod.splits)

section \<open>Frames: what a query leaves alone\<close>

lemma is_device_unavailable_frame [frame_rules, simp]:
  "device_unreachable_faults (snd (is_device_unavailable d t s)) = device_unreachable_faults s"
  "signal_faults (snd (is_device_unavailable d t s)) = signal_faults s"
  "call_latency_faults (snd (is_device_unavailable d t s)) = call_latency_faults s"
  "call_failure_faults (snd (is_device_unavailable d t s)) = call_failure_faults s"
  "fault_rng (snd (is_device_unavailable d t s)) = fault_rng s"
  by (auto simp: is_device_unavailable_def split: option.splits)

lemma is_device_unreachable_frame [frame_rules, simp]:
  "device_unavailable_faults (snd (is_device_unreachable d t s)) = device_unavailable_faults s"
  "signal_faults (snd (is_device_unreachable d t s)) = signal_faults s"
  "call_latency_faults (snd (is_device_unreachable d t s)) = call_latency_faults s"
  "call_failure_faults (snd (is_device_unreachable d t s)) = call_failure_faults s"
  "fault_rng (snd (is_device_unreachable d t s)) = fault_rng s"
  by (auto simp: is_device_unreachable_def split: option.splits)

lemma is_signal_faulted_frame [frame_rules, simp]:
  "device_unavailable_faults (snd (is_signal_faulted d sg t s)) = device_unavailable_faults s"
  "device_unreachable_faults (snd (is_signal_faulted d sg t s)) = device_unreachable_faults s"
  "call_latency_faults (snd (is_signal_faulted d sg t s)) = call_latency_faults s"
  "call_failure_faults (snd (is_signal_faulted d sg t s)) = call_failure_faults s"
  "fault_rng (snd (is_signal_faulted d sg t s)) = fault_rng s"
  by (auto simp: is_signal_faulted_def Let_def split: option.splits)

lemma should_call_fail_frame [frame_rules, simp]:
  "device_unavailable_faults (snd (should_call_fail lib d f s)) = device_unavailable_faults s"
  "device_unreachable_faults (snd (should_call_fail lib d f s)) = device_unreachable_faults s"
  "signal_faults (snd (should_call_fail lib d f s)) = signal_faults s"
  "call_latency_faults (snd (should_call_fail lib d f s)) = call_latency_faults s"
  "call_failure_faults (snd (should_call_fail lib d f s)) = call_failure_faults s"
  by (auto simp: should_call_fail_eq split: option.splits)

text \<open>Queries that found nothing leave the state as it was.\<close>

lemma unavailable_true_id: "fst (is_device_unavailable d t s) \<Longrightarrow> snd (is_device_unavailable d t s) = s"
  by (auto simp: is_device_unavailable_def split: option.splits)

lemma failure_rate_of_cong:
  "call_failure_faults s = call_failure_faults s' \<Longrightarrow> failure_rate_of d f s = failure_rate_of d f s'"
  by (simp add: failure_rate_of_def)

lemma unavailable_value: "fst (is_device_unavailable d t s) \<longleftrightarrow> (\<exists>e. unavailable_deadline d s = Some e \<and> t < e)"
  by (rule unavailable.query_value)

lemma unreachable_value: "fst (is_device_unreachable d t s) \<longleftrightarrow> (\<exists>e. unreachable_deadline d s = Some e \<and> t < e)"
  by (rule unreachable.query_value)

lemma deadline_cong:
  "device_unavailable_faults s = device_unavailable_faults s' \<Longrightarrow> unavailable_deadline d s = unavailable_deadline d s'"
  "device_unreachable_faults s = device_unreachable_faults s' \<Longrightarrow> unreachable_deadline d s = unreachable_deadline d s'"
  by (simp_all add: unavailable_deadline_def unreachable_deadline_def)

lemma injections_independent:
  "fst (is_device_unreachable d t (inject_device_unavailable d' ms now s)) = fst (is_device_unreachable d t s)"
  "fst (is_device_unavailable d t (inject_device_unreachable d' ms now s)) = fst (is_device_unavailable d t s)"
  by (simp_all add: unreachable_value unavailable_value unreachable_deadline_def unavailable_deadline_def
      inject_device_unavailable_def inject_device_unreachable_def)

end
