(* ===== verification/Chaos_Control.thy ===== *)
theory Chaos_Control
  imports Fault_Injection
begin

text \<open>
  \<open>src/chaos/chaos_control_device.hpp\<close> and \<open>.cpp\<close>: the built-in device whose functions
  inject and clear faults. It has no signals and no state of its own; a call works on the fault
  table, at the reading \<open>now\<close> of the steady clock.
\<close>

section \<open>Identity\<close>

definition chaos_kDeviceId :: string where
  "chaos_kDeviceId = ''chaos_control''"

definition kFnInjectDeviceUnavailable :: uint32 where "kFnInjectDeviceUnavailable = 1"
definition kFnInjectSignalFault :: uint32 where "kFnInjectSignalFault = 2"
definition kFnInjectCallLatency :: uint32 where "kFnInjectCallLatency = 3"
definition kFnInjectCallFailure :: uint32 where "kFnInjectCallFailure = 4"
definition kFnClearFaults :: uint32 where "kFnClearFaults = 5"
definition kFnInjectDeviceUnreachable :: uint32 where "kFnInjectDeviceUnreachable = 6"

lemmas chaos_fn_defs = kFnInjectDeviceUnavailable_def kFnInjectSignalFault_def kFnInjectCallLatency_def
  kFnInjectCallFailure_def kFnClearFaults_def kFnInjectDeviceUnreachable_def

definition chaos_get_device_info :: "bool \<Rightarrow> device" where
  "chaos_get_device_info include_health =
     \<lparr>d_device_id = chaos_kDeviceId, d_provider_name = kProviderName, d_type_id = ''chaos.control'',
      d_type_version = ''1.0'', d_label = ''Chaos Fault Injection Control'',
      d_address = ''chaos://control'',
      d_tags = m_put ''kind'' ''fault_injection'' (m_put ''family'' ''chaos'' m_empty)\<rparr>"

definition is_numeric_function_id :: "string \<Rightarrow> bool" where
  "is_numeric_function_id function_id \<longleftrightarrow> function_id \<noteq> [] \<and> list_all is_digit_char function_id"

definition chaos_get_capabilities :: capability_set where
  "chaos_get_capabilities = \<lparr>caps_signals = [], caps_functions =
    [mk_function kFnInjectDeviceUnavailable ''inject_device_unavailable''
       ''Make a device appear unavailable for specified duration'' CATEGORY_ACTUATE
       [make_arg_spec ''device_id'' VALUE_TYPE_STRING True ''Target device ID'' [],
        make_arg_spec ''duration_ms'' VALUE_TYPE_INT64 True ''Duration in milliseconds'' ''ms''],
     mk_function kFnInjectSignalFault ''inject_signal_fault''
       ''Make a signal report FAULT quality for specified duration'' CATEGORY_ACTUATE
       [make_arg_spec ''device_id'' VALUE_TYPE_STRING True ''Target device ID'' [],
        make_arg_spec ''signal_id'' VALUE_TYPE_STRING True ''Target signal ID'' [],
        make_arg_spec ''duration_ms'' VALUE_TYPE_INT64 True ''Duration in milliseconds'' ''ms''],
     mk_function kFnInjectCallLatency ''inject_call_latency''
       ''Add artificial latency to all function calls on a device'' CATEGORY_ACTUATE
       [make_arg_spec ''device_id'' VALUE_TYPE_STRING True ''Target device ID'' [],
        make_arg_spec ''latency_ms'' VALUE_TYPE_INT64 True ''Latency in milliseconds'' ''ms''],
     mk_function kFnInjectCallFailure ''inject_call_failure''
       ''Make a function fail probabilistically'' CATEGORY_ACTUATE
       [make_arg_spec ''device_id'' VALUE_TYPE_STRING True ''Target device ID'' [],
        make_arg_spec ''function_id'' VALUE_TYPE_STRING True
          (''Target function ID as string (e.g. '' @ [CHR 0x27] @ ''1'' @ [CHR 0x27] @ '')'') [],
        make_arg_spec ''failure_rate'' VALUE_TYPE_DOUBLE True ''Failure probability (0.0-1.0)'' []],
     mk_function kFnClearFaults ''clear_faults'' ''Clear all injected faults'' CATEGORY_ACTUATE [],
     mk_function kFnInjectDeviceUnreachable ''inject_device_unreachable''
       (''Make a device'' @ [CHR 0x27] @ ''s reads and calls fail with UNAVAILABLE for specified duration'') CATEGORY_ACTUATE
       [make_arg_spec ''device_id'' VALUE_TYPE_STRING True ''Target device ID'' [],
        make_arg_spec ''duration_ms'' VALUE_TYPE_INT64 True ''Duration in milliseconds'' ''ms'']]\<rparr>"

definition chaos_read_signals :: "string list \<Rightarrow> signal_value list" where
  "chaos_read_signals ids = []"

section \<open>Calls\<close>

definition chaos_call_function ::
  "uint32 \<Rightarrow> args \<Rightarrow> int \<Rightarrow> 'g fault_state \<Rightarrow> call_result \<times> 'g fault_state" where
  "chaos_call_function function_id args now s =
    (if function_id = kFnInjectDeviceUnavailable then
       (case get_arg_string args ''device_id'' of
          None \<Rightarrow> (bad ''missing or invalid device_id'', s)
        | Some device_id \<Rightarrow>
       (case get_arg_int64 args ''duration_ms'' of
          None \<Rightarrow> (bad ''missing or invalid duration_ms'', s)
        | Some duration_ms \<Rightarrow>
          if sint duration_ms \<le> 0 then (bad ''duration_ms must be > 0'', s)
          else (ok, inject_device_unavailable device_id duration_ms now s)))
     else if function_id = kFnInjectSignalFault then
       (case get_arg_string args ''device_id'' of
          None \<Rightarrow> (bad ''missing or invalid device_id'', s)
        | Some device_id \<Rightarrow>
       (case get_arg_string args ''signal_id'' of
          None \<Rightarrow> (bad ''missing or invalid signal_id'', s)
        | Some signal_id \<Rightarrow>
       (case get_arg_int64 args ''duration_ms'' of
          None \<Rightarrow> (bad ''missing or invalid duration_ms'', s)
        | Some duration_ms \<Rightarrow>
          if sint duration_ms \<le> 0 then (bad ''duration_ms must be > 0'', s)
          else (ok, inject_signal_fault device_id signal_id duration_ms now s))))
     else if function_id = kFnInjectCallLatency then
       (case get_arg_string args ''device_id'' of
          None \<Rightarrow> (bad ''missing or invalid device_id'', s)
        | Some device_id \<Rightarrow>
       (case get_arg_int64 args ''latency_ms'' of
          None \<Rightarrow> (bad ''missing or invalid latency_ms'', s)
        | Some latency_ms \<Rightarrow>
          if sint latency_ms < 0 then (bad ''latency_ms must be >= 0'', s)
          else (ok, inject_call_latency device_id latency_ms s)))
     else if function_id = kFnInjectCallFailure then
       (case get_arg_string args ''device_id'' of
          None \<Rightarrow> (bad ''missing or invalid device_id'', s)
        | Some device_id \<Rightarrow>
       (case get_arg_string args ''function_id'' of
          None \<Rightarrow> (bad ''missing or invalid function_id'', s)
        | Some function_id_str \<Rightarrow>
          if \<not> is_numeric_function_id function_id_str
          then (bad (''function_id must be a numeric string (e.g. '' @ [CHR 0x27] @ ''1'' @ [CHR 0x27] @ '')''), s)
          else if function_id_str = ''0'' then (bad ''function_id must be >= 1'', s)
          else
       (case get_arg_double args ''failure_rate'' of
          None \<Rightarrow> (bad ''missing or invalid failure_rate'', s)
        | Some failure_rate \<Rightarrow>
          if dless failure_rate (Fin 0) \<or> dless (Fin 1) failure_rate
          then (bad ''failure_rate must be in [0.0, 1.0]'', s)
          else (ok, inject_call_failure device_id function_id_str failure_rate s))))
     else if function_id = kFnInjectDeviceUnreachable then
       (case get_arg_string args ''device_id'' of
          None \<Rightarrow> (bad ''missing or invalid device_id'', s)
        | Some device_id \<Rightarrow>
       (case get_arg_int64 args ''duration_ms'' of
          None \<Rightarrow> (bad ''missing or invalid duration_ms'', s)
        | Some duration_ms \<Rightarrow>
          if sint duration_ms \<le> 0 then (bad ''duration_ms must be > 0'', s)
          else (ok, inject_device_unreachable device_id duration_ms now s)))
     else if function_id = kFnClearFaults then (ok, clear_all_faults s)
     else (nf ''unknown function_id'', s))"

section \<open>What a call does\<close>

text \<open>
  The facts about a call are proved once of its result pair, where the handler occurs a single
  time and its branches are split once, then read off its components.
\<close>

lemmas chaos_call_splits = if_splits option.splits

lemma chaos_call_cases:
  assumes "chaos_call_function f args now s = (r, s')"
  shows "cr_code r \<noteq> CODE_OK \<Longrightarrow> s' = s"
    and "cr_code r = CODE_NOT_FOUND \<longleftrightarrow> f \<notin> {1, 2, 3, 4, 5, 6}"
    and "failure_rules_ok s \<Longrightarrow> failure_rules_ok s'"
  using assms unfolding chaos_call_function_def chaos_fn_defs
  by (auto simp: wf_rules split: chaos_call_splits)

lemma chaos_function_ids: "set (function_ids chaos_get_capabilities) = {1, 2, 3, 4, 5, 6}"
  by (auto simp: function_ids_def chaos_get_capabilities_def mk_function_def chaos_fn_defs)

lemma chaos_call_rejected: "cr_code (fst (chaos_call_function f args now s)) \<noteq> CODE_OK \<Longrightarrow> snd (chaos_call_function f args now s) = s"
  using chaos_call_cases(1)[OF prod.collapse[symmetric]] .

lemma chaos_not_found_iff:
  "cr_code (fst (chaos_call_function f args now s)) = CODE_NOT_FOUND \<longleftrightarrow> f \<notin> set (function_ids chaos_get_capabilities)"
  unfolding chaos_function_ids by (rule chaos_call_cases(2)[OF prod.collapse[symmetric]])

lemma chaos_failure_rules_ok [wf_rules]:
  "failure_rules_ok s \<Longrightarrow> failure_rules_ok (snd (chaos_call_function f args now s))"
  using chaos_call_cases(3)[OF prod.collapse[symmetric]] .

text \<open>The effect of each function when it accepts.\<close>

lemma chaos_accepts_unavailable:
  assumes "get_arg_string args ''device_id'' = Some d" and "get_arg_int64 args ''duration_ms'' = Some ms"
    and "0 < sint ms"
  shows "chaos_call_function kFnInjectDeviceUnavailable args now s = (ok, inject_device_unavailable d ms now s)"
    and "chaos_call_function kFnInjectDeviceUnreachable args now s = (ok, inject_device_unreachable d ms now s)"
  using assms by (simp_all add: chaos_call_function_def chaos_fn_defs)

lemma chaos_accepts_signal_fault:
  assumes "get_arg_string args ''device_id'' = Some d" and "get_arg_string args ''signal_id'' = Some sg"
    and "get_arg_int64 args ''duration_ms'' = Some ms" and "0 < sint ms"
  shows "chaos_call_function kFnInjectSignalFault args now s = (ok, inject_signal_fault d sg ms now s)"
  using assms by (simp add: chaos_call_function_def chaos_fn_defs)

lemma chaos_accepts_call_failureD:
  assumes "chaos_call_function kFnInjectCallFailure args now s = (res, s')" and "cr_code res = CODE_OK"
  shows "\<exists>d f r. get_arg_string args ''device_id'' = Some d \<and> get_arg_string args ''function_id'' = Some f \<and>
      get_arg_double args ''failure_rate'' = Some r \<and> is_numeric_function_id f \<and> f \<noteq> ''0'' \<and>
      \<not> dless r (Fin 0) \<and> \<not> dless (Fin 1) r \<and>
      s' = inject_call_failure d f r s"
  using assms by (auto simp: chaos_call_function_def chaos_fn_defs split: chaos_call_splits)

lemma chaos_clear_all: "chaos_call_function kFnClearFaults args now s = (ok, clear_all_faults s)"
  by (simp add: chaos_call_function_def chaos_fn_defs)

lemma conforms_witness:
  "spec \<in> set (caps_functions caps) \<Longrightarrow> fs_function_id spec = f \<Longrightarrow> \<forall>a \<in> set (fs_args spec). arg_conforms a args \<Longrightarrow>
   call_conforms caps f args"
  by (auto simp: call_conforms_def)

lemma chaos_conforms_iff:
  "call_conforms chaos_get_capabilities f args \<longleftrightarrow>
     (f = 1 \<and> get_arg_string args ''device_id'' \<noteq> None \<and> get_arg_int64 args ''duration_ms'' \<noteq> None) \<or>
     (f = 2 \<and> get_arg_string args ''device_id'' \<noteq> None \<and> get_arg_string args ''signal_id'' \<noteq> None \<and>
        get_arg_int64 args ''duration_ms'' \<noteq> None) \<or>
     (f = 3 \<and> get_arg_string args ''device_id'' \<noteq> None \<and> get_arg_int64 args ''latency_ms'' \<noteq> None) \<or>
     (f = 4 \<and> get_arg_string args ''device_id'' \<noteq> None \<and> get_arg_string args ''function_id'' \<noteq> None \<and>
        get_arg_double args ''failure_rate'' \<noteq> None) \<or>
     f = 5 \<or>
     (f = 6 \<and> get_arg_string args ''device_id'' \<noteq> None \<and> get_arg_int64 args ''duration_ms'' \<noteq> None)"
  unfolding call_conforms_def chaos_get_capabilities_def
  by (simp add: mk_function_def chaos_fn_defs conforms_simps)

lemma chaos_call_accepted:
  assumes "chaos_call_function f args now s = (r, s')"
  shows "cr_code r = CODE_OK \<Longrightarrow> call_conforms chaos_get_capabilities f args"
  using assms unfolding chaos_call_function_def chaos_fn_defs chaos_conforms_iff
  by (auto split: chaos_call_splits)

section \<open>Properties\<close>

text \<open>The chaos device dispatches exactly the function ids it advertises, every call it accepts
  carries the advertised arguments with the advertised types, and a call it does not accept leaves
  the fault table as it was.\<close>

lemma chaos_calls_match_capabilities:
  "(cr_code (fst (chaos_call_function f args now s)) = CODE_NOT_FOUND \<longleftrightarrow> f \<notin> set (function_ids chaos_get_capabilities)) \<and>
   (cr_code (fst (chaos_call_function f args now s)) = CODE_OK \<longrightarrow> call_conforms chaos_get_capabilities f args) \<and>
   (cr_code (fst (chaos_call_function f args now s)) \<noteq> CODE_OK \<longrightarrow> snd (chaos_call_function f args now s) = s)"
proof (intro conjI impI)
  show "cr_code (fst (chaos_call_function f args now s)) = CODE_NOT_FOUND \<longleftrightarrow> f \<notin> set (function_ids chaos_get_capabilities)"
    by (rule chaos_not_found_iff)
next
  assume "cr_code (fst (chaos_call_function f args now s)) = CODE_OK"
  with chaos_call_accepted[OF prod.collapse[symmetric]]
  show "call_conforms chaos_get_capabilities f args" by blast
next
  assume "cr_code (fst (chaos_call_function f args now s)) \<noteq> CODE_OK"
  then show "snd (chaos_call_function f args now s) = s" by (rule chaos_call_rejected)
qed

definition example_duration_args :: "string \<Rightarrow> int64 \<Rightarrow> args" where
  "example_duration_args d ms = m_put ''device_id'' (make_string d) (m_put ''duration_ms'' (make_int64 ms) m_empty)"

lemma example_duration_args_get [simp]:
  "get_arg_string (example_duration_args d ms) ''device_id'' = Some d"
  "get_arg_int64 (example_duration_args d ms) ''duration_ms'' = Some ms"
  by (simp_all add: example_duration_args_def)

lemma chaos_calls_match_capabilities_example:
  "cr_code (fst (chaos_call_function 1 (example_duration_args ''tempctl0'' 50) 0 (init_fault_state (0::nat)))) = CODE_OK \<and>
   call_conforms chaos_get_capabilities 1 (example_duration_args ''tempctl0'' 50)"
proof -
  have "cr_code (fst (chaos_call_function 1 (example_duration_args ''tempctl0'' 50) 0 (init_fault_state (0::nat)))) = CODE_OK"
    by (simp add: chaos_call_function_def chaos_fn_defs)
  then show ?thesis
    using chaos_calls_match_capabilities[of 1 "example_duration_args ''tempctl0'' 50" 0 "init_fault_state (0::nat)"] by simp
qed

text \<open>An accepted injection of a device fault is in force for exactly the requested duration:
  from the call on, a query at time \<open>t\<close> says the device is unavailable (unreachable) if and
  only if \<open>t\<close> is before the call plus \<open>duration_ms\<close> milliseconds. Other devices
  and the other kind of fault are as before.\<close>

lemma chaos_device_fault_window:
  assumes "get_arg_string args ''device_id'' = Some d" and "get_arg_int64 args ''duration_ms'' = Some ms"
    and "0 < sint ms" and "0 \<le> now" and "now + sint ms * 1000000 < 2 ^ 63"
  shows "fst (chaos_call_function kFnInjectDeviceUnavailable args now s) = ok \<and>
    fst (chaos_call_function kFnInjectDeviceUnreachable args now s) = ok \<and>
    (\<forall>d' t. fst (is_device_unavailable d' t (snd (chaos_call_function kFnInjectDeviceUnavailable args now s))) =
        (if d' = d then t < now + sint ms * 1000000 else fst (is_device_unavailable d' t s))) \<and>
    (\<forall>d' t. fst (is_device_unreachable d' t (snd (chaos_call_function kFnInjectDeviceUnreachable args now s))) =
        (if d' = d then t < now + sint ms * 1000000 else fst (is_device_unreachable d' t s))) \<and>
    (\<forall>d' t. fst (is_device_unreachable d' t (snd (chaos_call_function kFnInjectDeviceUnavailable args now s))) =
        fst (is_device_unreachable d' t s))"
proof -
  have e: "expires_at now ms = now + sint ms * 1000000"
    using assms(3-5) by (intro expires_at_exact) auto
  show ?thesis
    by (simp add: chaos_accepts_unavailable[OF assms(1-3)] unavailable.active_after_inject e
        unreachable.active_after_inject unavailable.other_device_unaffected unreachable.other_device_unaffected injections_independent)
qed

lemma chaos_device_fault_window_example:
  "fst (is_device_unavailable ''motorctl0'' 2999999
     (snd (chaos_call_function kFnInjectDeviceUnavailable (example_duration_args ''motorctl0'' 2) 1000000 (init_fault_state (0::nat))))) \<and>
   \<not> fst (is_device_unavailable ''motorctl0'' 3000000
     (snd (chaos_call_function kFnInjectDeviceUnavailable (example_duration_args ''motorctl0'' 2) 1000000 (init_fault_state (0::nat)))))"
  using chaos_device_fault_window[of "example_duration_args ''motorctl0'' 2" "''motorctl0''" 2 1000000
      "init_fault_state (0::nat)"] by simp

text \<open>A duration whose nanoseconds do not fit the clock is accepted with \<open>ok\<close>, yet the
  fault is never in force: the product wraps to a deadline in the past.\<close>

lemma chaos_long_duration_has_no_effect:
  assumes "get_arg_string args ''device_id'' = Some d" and "get_arg_int64 args ''duration_ms'' = Some ms"
    and "2 ^ 63 \<le> sint ms * 1000000" and "0 \<le> now" and "now + sint ms * 1000000 < 2 ^ 64" and "now \<le> t"
  shows "fst (chaos_call_function kFnInjectDeviceUnavailable args now s) = ok \<and>
    \<not> fst (is_device_unavailable d t (snd (chaos_call_function kFnInjectDeviceUnavailable args now s)))"
proof -
  have pos: "0 < sint ms"
  proof (rule ccontr)
    assume "\<not> 0 < sint ms"
    then have "sint ms * 1000000 \<le> 0" by simp
    with assms(3) show False by simp
  qed
  have "wrap64 (sint ms * 1000000) = sint ms * 1000000 - 2 ^ 64"
    using assms(3-5) by (intro wrap64_once) auto
  moreover have "in_int64 (now + (sint ms * 1000000 - 2 ^ 64))"
    using assms(3-5) by (simp add: in_int64_def)
  ultimately have "expires_at now ms = now + (sint ms * 1000000 - 2 ^ 64)" by (simp add: expires_at_def)
  with assms(4-6) show ?thesis
    by (simp add: chaos_accepts_unavailable[OF assms(1,2) pos] unavailable.active_after_inject)
qed

lemma chaos_long_duration_has_no_effect_example:
  "\<not> fst (is_device_unavailable ''motorctl0'' 5
     (snd (chaos_call_function kFnInjectDeviceUnavailable (example_duration_args ''motorctl0'' 10000000000000) 5 (init_fault_state (0::nat)))))"
  using chaos_long_duration_has_no_effect[of "example_duration_args ''motorctl0'' 10000000000000" "''motorctl0''"
      10000000000000 5 5 "init_fault_state (0::nat)"] by simp

text \<open>Signal faults add up: after an accepted injection a signal is faulted at \<open>t\<close> if and
  only if it already was, or it is the named signal and \<open>t\<close> is before the new deadline; a
  later query, which drops expired entries, does not change the answer of any later query.\<close>

lemma chaos_signal_fault_window:
  assumes "get_arg_string args ''device_id'' = Some d" and "get_arg_string args ''signal_id'' = Some sg"
    and "get_arg_int64 args ''duration_ms'' = Some ms"
    and "0 < sint ms" and "0 \<le> now" and "now + sint ms * 1000000 < 2 ^ 63" and "t0 \<le> t"
  shows "fst (is_signal_faulted d' sg' t (snd (is_signal_faulted d0 sg0 t0
       (snd (chaos_call_function kFnInjectSignalFault args now s))))) =
     (fst (is_signal_faulted d' sg' t s) \<or> (d' = d \<and> sg' = sg \<and> t < now + sint ms * 1000000))"
proof -
  have "expires_at now ms = now + sint ms * 1000000"
    using assms(4-6) by (intro expires_at_exact) auto
  then show ?thesis
    by (simp add: chaos_accepts_signal_fault[OF assms(1-4)] is_signal_faulted_iff signal_fault_active_inject
        is_signal_faulted_purge[OF assms(7)])
qed

definition example_signal_args :: "string \<Rightarrow> string \<Rightarrow> int64 \<Rightarrow> args" where
  "example_signal_args d sg ms = m_put ''signal_id'' (make_string sg) (example_duration_args d ms)"

lemma chaos_signal_fault_window_example:
  "fst (is_signal_faulted ''tempctl0'' ''tc1_temp'' 4000000 (snd (is_signal_faulted ''tempctl0'' ''tc2_temp'' 3000000
     (snd (chaos_call_function kFnInjectSignalFault (example_signal_args ''tempctl0'' ''tc1_temp'' 5) 0 (init_fault_state (0::nat)))))))"
  using chaos_signal_fault_window[of "example_signal_args ''tempctl0'' ''tc1_temp'' 5" "''tempctl0''" "''tc1_temp''" 5 0
      3000000 4000000 "''tempctl0''" "''tc1_temp''" "''tempctl0''" "''tc2_temp''" "init_fault_state (0::nat)"]
  by (simp add: example_signal_args_def example_duration_args_def)

text \<open>C38. An accepted failure rule sets the rate of one numbered function: the one whose number the
  given string prints. A string with a leading zero, or one beyond 32 bits, is accepted as well,
  and then the rule applies to no function at all.\<close>

theorem chaos_failure_rule_target:
  assumes "chaos_call_function kFnInjectCallFailure args now s = (res, s')" and "cr_code res = CODE_OK"
  shows "\<exists>d f r. get_arg_string args ''device_id'' = Some d \<and> get_arg_string args ''function_id'' = Some f \<and>
    get_arg_double args ''failure_rate'' = Some r \<and>
    (\<forall>d' (n :: uint32). failure_rate_of d' (to_string_nat (unat n)) s' =
       (if d' = d \<and> canonical_digits f \<and> digits_value f = unat n then Some r
        else failure_rate_of d' (to_string_nat (unat n)) s))"
proof -
  obtain d f r where a: "get_arg_string args ''device_id'' = Some d" "get_arg_string args ''function_id'' = Some f"
    "get_arg_double args ''failure_rate'' = Some r" and s': "s' = inject_call_failure d f r s"
    using chaos_accepts_call_failureD[OF assms] by auto
  have "to_string_nat k = f \<longleftrightarrow> canonical_digits f \<and> digits_value f = k" for k
    using to_string_digits_value[of f] by auto
  with a show ?thesis by (intro exI[of _ d] exI[of _ f] exI[of _ r]) (simp add: s' failure_rate_of_inject)
qed

definition example_failure_args :: "string \<Rightarrow> string \<Rightarrow> double \<Rightarrow> args" where
  "example_failure_args d f r = m_put ''device_id'' (make_string d)
     (m_put ''failure_rate'' (make_double r) (m_put ''function_id'' (make_string f) m_empty))"

lemma example_failure_args_get [simp]:
  "get_arg_string (example_failure_args d f r) ''device_id'' = Some d"
  "get_arg_string (example_failure_args d f r) ''function_id'' = Some f"
  "get_arg_double (example_failure_args d f r) ''failure_rate'' = Some r"
  by (simp_all add: example_failure_args_def)

lemma numeric_01: "is_numeric_function_id ''01''"
  by (simp add: is_numeric_function_id_def is_digit_char_def)

theorem chaos_failure_rule_target_witness:
  "cr_code (fst (chaos_call_function kFnInjectCallFailure (example_failure_args ''tempctl0'' ''01'' (Fin 1)) 0 (init_fault_state (0::nat)))) = CODE_OK \<and>
   (\<forall>n :: uint32. failure_rate_of ''tempctl0'' (to_string_nat (unat n))
      (snd (chaos_call_function kFnInjectCallFailure (example_failure_args ''tempctl0'' ''01'' (Fin 1)) 0 (init_fault_state (0::nat)))) = None)"
proof -
  let ?c = "chaos_call_function kFnInjectCallFailure (example_failure_args ''tempctl0'' ''01'' (Fin 1)) 0 (init_fault_state (0::nat))"
  have c: "?c = (ok, snd ?c)"
    by (simp add: chaos_call_function_def chaos_fn_defs numeric_01)
  have "\<not> canonical_digits ''01''" by (simp add: canonical_digits_def digit_char_simps)
  with chaos_failure_rule_target[OF c] show ?thesis
    by (subst c) (auto simp: failure_rate_of_def init_fault_state_def)
qed

text \<open>The rate decides as documented at its ends: under a uniform draw from \<open>[0, 1)\<close> a
  rule with rate 1 makes every call of the function fail and one with rate 0 none. A rate that is
  not a number passes the range check as well and never makes a call fail.\<close>

lemma chaos_failure_rate_ends:
  assumes "uniform_law lib"
    and "chaos_call_function kFnInjectCallFailure (example_failure_args d (to_string_nat (unat (n :: uint32))) r) now s = (res, s')"
  shows "(r = Fin 1 \<and> 0 < n \<longrightarrow> res = ok \<and> fst (should_call_fail lib d (to_string_nat (unat n)) s')) \<and>
    (r = Fin 0 \<and> 0 < n \<longrightarrow> res = ok \<and> \<not> fst (should_call_fail lib d (to_string_nat (unat n)) s')) \<and>
    (r = NaN \<and> 0 < n \<longrightarrow> res = ok \<and> \<not> fst (should_call_fail lib d (to_string_nat (unat n)) s')) \<and>
    (dless r (Fin 0) \<or> dless (Fin 1) r \<or> n = 0 \<longrightarrow> cr_code res = CODE_INVALID_ARGUMENT \<and> s' = s)"
proof -
  have num: "is_numeric_function_id (to_string_nat k)" for k
    using to_string_nat_digits[of k] by (simp add: is_numeric_function_id_def list_all_iff)
  have zero: "to_string_nat k = ''0'' \<longleftrightarrow> k = 0" for k
    using to_string_nat_inj[of k 0] by (simp add: to_string_nat_eval digit_char_simps)
  have n: "unat n = 0 \<longleftrightarrow> n = 0" "0 < n \<longleftrightarrow> n \<noteq> 0" by (simp_all add: unat_eq_0 word_gt_0)
  obtain u where u: "fst (lib_uniform01 lib (fault_rng s)) = Fin u" "0 \<le> u" "u < 1"
    using assms(1) by (auto simp: uniform_law_def)
  have frame: "fault_rng (inject_call_failure d f q s) = fault_rng s" for f q
    by (simp add: inject_call_failure_def split: prod.splits)
  show ?thesis
    using assms(2) u num zero n
    by (auto simp: chaos_call_function_def chaos_fn_defs should_call_fail_eq failure_rate_of_inject frame split: if_splits)
qed

lemma chaos_failure_rate_ends_example:
  "fst (should_call_fail ref_lib ''tempctl0'' (to_string_nat (unat (1::uint32)))
     (snd (chaos_call_function kFnInjectCallFailure (example_failure_args ''tempctl0'' (to_string_nat (unat (1::uint32))) (Fin 1)) 0
        (init_fault_state (0::nat)))))"
  using chaos_failure_rate_ends[where d = "''tempctl0''" and n = 1 and r = "Fin 1" and now = 0 and
      s = "init_fault_state (0::nat)", OF uniform_law_ref prod.collapse[symmetric]] by simp

text \<open>\<open>clear_faults\<close> always succeeds and ends every fault of every kind: no device is
  unavailable or unreachable, no signal faulted, no call delayed or failed. The random engine
  keeps its state.\<close>

lemma chaos_clear_faults_ends_all:
  "fst (chaos_call_function kFnClearFaults args now s) = ok \<and>
   (let s' = snd (chaos_call_function kFnClearFaults args now s) in
      \<not> fst (is_device_unavailable d t s') \<and> \<not> fst (is_device_unreachable d t s') \<and>
      \<not> fst (is_signal_faulted d sg t s') \<and> get_call_latency d s' = 0 \<and>
      should_call_fail lib d f s' = (False, s') \<and> fault_rng s' = fault_rng s)"
  by (simp add: chaos_clear_all clear_all_faults_def is_device_unavailable_def is_device_unreachable_def
      is_signal_faulted_def get_call_latency_def should_call_fail_def)

end
