(* ===== verification/Signal_Registry.thy ===== *)
theory Signal_Registry
  imports Adpp
begin

text \<open>
  \<open>src/devices/common/signal_source.hpp\<close>, \<open>signal_registry.hpp\<close> and \<open>.cpp\<close>: the
  table through which the physics engine overrides what the devices report.

  Each function holds the registry's mutex, so it is one atomic operation; \<open>read_signal\<close>
  releases it before it calls the device reader, whose effects are on the rest of the program. The
  reader is a \<open>std::function\<close> member: the program installs a single closure, named by
  \<open>device_reader\<close>, and what it does is the argument \<open>run\<close> of \<open>registry_read_signal\<close>
  (\<open>'w\<close> is the state it works on).
\<close>

section \<open>State and operations\<close>

datatype device_reader = DeviceSignalReader  \<comment> \<open>installed by \<open>initialize_physics\<close>\<close>

record signal_registry =
  signal_cache :: "(string, double) smap"
  physics_driven_signals :: "string set"
  the_device_reader :: "device_reader option"

definition empty_registry :: signal_registry where
  "empty_registry = \<lparr>signal_cache = m_empty, physics_driven_signals = {}, the_device_reader = None\<rparr>"

definition registry_read_signal ::
  "(device_reader \<Rightarrow> string \<Rightarrow> 'w \<Rightarrow> double option \<times> 'w) \<Rightarrow> string \<Rightarrow> signal_registry \<Rightarrow> 'w \<Rightarrow> double option \<times> 'w" where
  "registry_read_signal run path r w =
     (if path \<in> physics_driven_signals r then
        (case m_find path (signal_cache r) of
           Some v \<Rightarrow> (Some v, w)
         | None \<Rightarrow> (None, w))
      else (case the_device_reader r of
              Some reader \<Rightarrow> run reader path w
            | None \<Rightarrow> (None, w)))"

definition registry_write_signal :: "string \<Rightarrow> double \<Rightarrow> signal_registry \<Rightarrow> signal_registry" where
  "registry_write_signal path v r =
     (let r = r\<lparr>physics_driven_signals := insert path (physics_driven_signals r)\<rparr>
      in r\<lparr>signal_cache := m_put path v (signal_cache r)\<rparr>)"

definition is_physics_driven :: "string \<Rightarrow> signal_registry \<Rightarrow> bool" where
  "is_physics_driven path r \<longleftrightarrow> path \<in> physics_driven_signals r"

definition mark_physics_driven :: "string \<Rightarrow> signal_registry \<Rightarrow> signal_registry" where
  "mark_physics_driven path r = r\<lparr>physics_driven_signals := insert path (physics_driven_signals r)\<rparr>"

definition clear_physics_overrides :: "signal_registry \<Rightarrow> signal_registry" where
  "clear_physics_overrides r = r\<lparr>physics_driven_signals := {}, signal_cache := m_empty\<rparr>"

definition set_device_reader :: "device_reader option \<Rightarrow> signal_registry \<Rightarrow> signal_registry" where
  "set_device_reader reader r = r\<lparr>the_device_reader := reader\<rparr>"

definition get_physics_driven_signals :: "signal_registry \<Rightarrow> string set" where
  "get_physics_driven_signals r = physics_driven_signals r"

definition get_cached_value :: "string \<Rightarrow> signal_registry \<Rightarrow> double option" where
  "get_cached_value path r = m_find path (signal_cache r)"

lemmas registry_defs = registry_read_signal_def registry_write_signal_def is_physics_driven_def
  mark_physics_driven_def clear_physics_overrides_def set_device_reader_def get_cached_value_def
  get_physics_driven_signals_def

section \<open>The interface\<close>

text \<open>\<open>ISignalSource\<close>: what is written is read back, and no other path changes.\<close>

locale signal_source =
  fixes get :: "string \<Rightarrow> 'r \<Rightarrow> double option"
    and put :: "string \<Rightarrow> double \<Rightarrow> 'r \<Rightarrow> 'r"
  assumes read_write: "get p (put p v r) = Some v"
    and read_other: "p \<noteq> q \<Longrightarrow> get p (put q v r) = get p r"
begin

definition write_all :: "(string \<times> double) list \<Rightarrow> 'r \<Rightarrow> 'r" where
  "write_all ps r = foldl (\<lambda>r (p, v). put p v r) r ps"

lemma write_all_Nil [simp]: "write_all [] r = r"
  by (simp add: write_all_def)

lemma write_all_Cons [simp]: "write_all ((p, v) # ps) r = write_all ps (put p v r)"
  by (simp add: write_all_def)

text \<open>After a batch of updates a path reads as its last value of the batch.\<close>

lemma read_write_all:
  "get p (write_all ps r) = (case map_of (rev ps) p of Some v \<Rightarrow> Some v | None \<Rightarrow> get p r)"
proof (induction ps arbitrary: r)
  case (Cons e ps)
  obtain q v where e: "e = (q, v)" by fastforce
  then show ?case
    using Cons.IH[of "put q v r"] by (auto simp: read_write read_other map_add_def split: option.splits)
qed simp

lemma writes_commute: "p \<noteq> q \<Longrightarrow> get s (put p u (put q v r)) = get s (put q v (put p u r))"
  by (cases "s = p"; cases "s = q") (simp_all add: read_write read_other)

end

text \<open>The registry also says which paths the physics drives, and can forget them all.\<close>

locale physics_source = signal_source get put
  for get :: "string \<Rightarrow> 'r \<Rightarrow> double option" and put :: "string \<Rightarrow> double \<Rightarrow> 'r \<Rightarrow> 'r" +
  fixes driven :: "string \<Rightarrow> 'r \<Rightarrow> bool"
    and mark :: "string \<Rightarrow> 'r \<Rightarrow> 'r"
    and clear :: "'r \<Rightarrow> 'r"
    and source :: "string \<Rightarrow> 'r \<Rightarrow> double option"
  assumes driven_write: "driven p (put q v r) \<longleftrightarrow> p = q \<or> driven p r"
    and driven_mark: "driven p (mark q r) \<longleftrightarrow> p = q \<or> driven p r"
    and driven_clear: "\<not> driven p (clear r)"
    and read_undriven: "\<not> driven p r \<Longrightarrow> get p r = source p r"
    and source_clear: "source p (clear r) = source p r"
begin

lemma read_clear: "get p (clear r) = source p r"
  by (simp add: read_undriven driven_clear source_clear)

lemma driven_write_all: "driven p (write_all ps r) \<longleftrightarrow> p \<in> fst ` set ps \<or> driven p r"
proof (induction ps arbitrary: r)
  case (Cons e ps)
  then show ?case by (cases e) (auto simp: driven_write)
qed simp

end

interpretation registry: physics_source "\<lambda>p r. fst (registry_read_signal run p r w)" registry_write_signal
  is_physics_driven mark_physics_driven clear_physics_overrides
  "\<lambda>p r. case the_device_reader r of Some reader \<Rightarrow> fst (run reader p w) | None \<Rightarrow> None"
  for run w
  by unfold_locales (auto simp: registry_defs Let_def split: option.splits)

section \<open>Reading a driven signal\<close>

lemma read_driven:
  "is_physics_driven p r \<Longrightarrow> registry_read_signal run p r w = (get_cached_value p r, w)"
  by (auto simp: registry_defs split: option.splits)

text \<open>
  \<open>maybe_physics_value\<close>, the lambda every device module defines: the value the physics wrote
  for a signal of this device, if it drives it. The reader is not reached: see \<open>maybe_physics_value_eq\<close>.
\<close>

definition maybe_physics_value :: "signal_registry option \<Rightarrow> string \<Rightarrow> string \<Rightarrow> double option" where
  "maybe_physics_value registry device_id signal_id =
     (case registry of
        None \<Rightarrow> None
      | Some r \<Rightarrow>
          let full_path = signal_path device_id signal_id
          in if \<not> is_physics_driven full_path r then None
             else fst (registry_read_signal (\<lambda>reader path w. (None, w)) full_path r ()))"

lemma maybe_physics_value_eq:
  "maybe_physics_value (Some r) d s =
     (if is_physics_driven (signal_path d s) r then fst (registry_read_signal run (signal_path d s) r w) else None)"
  by (simp add: maybe_physics_value_def Let_def read_driven)

lemma maybe_physics_value_None [simp]: "maybe_physics_value None d s = None"
  by (simp add: maybe_physics_value_def)

lemma maybe_physics_value_undriven [simp]:
  "physics_driven_signals r = {} \<Longrightarrow> maybe_physics_value (Some r) d s = None"
  by (simp add: maybe_physics_value_def is_physics_driven_def Let_def)

lemma maybe_physics_value_write:
  "slash \<notin> set d \<Longrightarrow> slash \<notin> set d' \<Longrightarrow>
   maybe_physics_value (Some (registry_write_signal (signal_path d s) v r)) d' s' =
     (if d' = d \<and> s' = s then Some v else maybe_physics_value (Some r) d' s')"
  by (auto simp: maybe_physics_value_def registry_defs Let_def signal_path_inj)

text \<open>\<open>value_or\<close>.\<close>

definition value_or :: "'a option \<Rightarrow> 'a \<Rightarrow> 'a" where
  "value_or x d = (case x of Some v \<Rightarrow> v | None \<Rightarrow> d)"

lemma value_or_simps [simp]: "value_or (Some v) d = v" "value_or None d = d"
  by (simp_all add: value_or_def)

section \<open>Property\<close>

text \<open>C36. The registry is a signal source over the device reader: a batch of physics writes leaves
  each written path with its last value, read from the cache without running the device reader,
  and every other path as it was; clearing the overrides gives every path back to the reader.\<close>

theorem registry_reads_last_write:
  "fst (registry_read_signal run p (foldl (\<lambda>r (q, v). registry_write_signal q v r) r ps) w) =
      (case map_of (rev ps) p of Some v \<Rightarrow> Some v | None \<Rightarrow> fst (registry_read_signal run p r w)) \<and>
   (p \<in> fst ` set ps \<longrightarrow>
      snd (registry_read_signal run p (foldl (\<lambda>r (q, v). registry_write_signal q v r) r ps) w) = w) \<and>
   fst (registry_read_signal run p (clear_physics_overrides (foldl (\<lambda>r (q, v). registry_write_signal q v r) r ps)) w) =
      (case the_device_reader r of Some reader \<Rightarrow> fst (run reader p w) | None \<Rightarrow> None)"
proof -
  have reader: "the_device_reader (foldl (\<lambda>r (q, v). registry_write_signal q v r) r ps) = the_device_reader r"
    by (induction ps arbitrary: r) (auto simp: registry_defs Let_def)
  show ?thesis
    using registry.read_write_all[where run = run and w = w and p = p and ps = ps and r = r] registry.driven_write_all[of p ps r]
    by (simp add: registry.write_all_def registry.read_clear reader read_driven)
qed

theorem registry_reads_last_write_witness:
  "snd (registry_read_signal (\<lambda>_ _ n. (Some NaN, Suc n)) ''m/x''
     (foldl (\<lambda>r (q, v). registry_write_signal q v r) empty_registry [(''m/x'', Fin 1), (''m/x'', Fin 2)]) 0) = 0"
  using registry_reads_last_write[where run = "\<lambda>_ _ n. (Some NaN, Suc n)" and p = "''m/x''" and
      ps = "[(''m/x'', Fin 1), (''m/x'', Fin 2)]" and r = empty_registry and w = 0] by simp

end
