(* ===== verification/Device_Module.thy ===== *)
theory Device_Module
  imports Signal_Registry Environment
begin

text \<open>
  The contract the four device modules of \<open>src/devices\<close> share.

  A module keeps a process-wide \<open>std::map\<close> from device ids to states, behind one mutex, and
  looks states up with \<open>operator[]\<close>, so a state is what \<open>m_at default\<close> sees. It exports
  \<open>read_signals\<close>, \<open>call_function\<close> and \<open>get_capabilities\<close>; the laws say how the three
  fit together. Each module interprets the locale on its own definitions.
\<close>

text \<open>What a read returns for a list of ids: the known ones, in order, with the advertised types.\<close>

definition advertised_value :: "capability_set \<Rightarrow> signal_value \<Rightarrow> bool" where
  "advertised_value caps v \<longleftrightarrow>
     sv_quality v = QUALITY_OK \<and>
     (\<exists>ss \<in> set (caps_signals caps). ss_signal_id ss = sv_signal_id v \<and> ss_value_type ss = v_type (sv_value v))"

locale device_module =
  fixes caps :: capability_set
    and default :: 's
    and defaults :: "string list"
    and wf :: "'s \<Rightarrow> bool"
    and reads :: "signal_registry option \<Rightarrow> int \<Rightarrow> string \<Rightarrow> string list \<Rightarrow> (string, 's) smap \<Rightarrow>
      signal_value list \<times> (string, 's) smap"
    and call :: "string \<Rightarrow> uint32 \<Rightarrow> args \<Rightarrow> (string, 's) smap \<Rightarrow> call_result \<times> (string, 's) smap"
  assumes call_frame: "d' \<noteq> d \<Longrightarrow> m_at default d' (snd (call d f as m)) = m_at default d' m"
    and call_local: "m_at default d m = m_at default d m' \<Longrightarrow>
      fst (call d f as m) = fst (call d f as m') \<and>
      m_at default d (snd (call d f as m)) = m_at default d (snd (call d f as m'))"
    and call_rejected: "cr_code (fst (call d f as m)) \<noteq> CODE_OK \<Longrightarrow>
      m_at default d (snd (call d f as m)) = m_at default d m"
    and call_not_found: "cr_code (fst (call d f as m)) = CODE_NOT_FOUND \<longleftrightarrow> f \<notin> set (function_ids caps)"
    and call_conforming: "cr_code (fst (call d f as m)) = CODE_OK \<Longrightarrow> call_conforms caps f as"
    and call_wf: "wf (m_at default d m) \<Longrightarrow> wf_args as \<Longrightarrow> wf (m_at default d (snd (call d f as m)))"
    and read_frame: "d' \<noteq> d \<Longrightarrow> m_at default d' (snd (reads reg ts d ids m)) = m_at default d' m"
    and read_wf: "wf (m_at default d m) \<Longrightarrow> wf (m_at default d (snd (reads reg ts d ids m)))"
    and read_ids: "map sv_signal_id (fst (reads reg ts d ids m)) =
      filter (\<lambda>i. i \<in> set (signal_ids caps)) (if ids = [] then defaults else ids)"
    and read_advertised: "v \<in> set (fst (reads reg ts d ids m)) \<Longrightarrow> advertised_value caps v"
    and defaults_known: "set defaults \<subseteq> set (signal_ids caps)"
    and default_wf: "wf default"
begin

text \<open>A history of calls, and the part of it the module accepted.\<close>

primrec run :: "(string \<times> uint32 \<times> args) list \<Rightarrow> (string, 's) smap \<Rightarrow> (string, 's) smap" where
  "run [] m = m"
| "run (c # cs) m = run cs (case c of (d, f, as) \<Rightarrow> snd (call d f as m))"

primrec accepted :: "(string \<times> uint32 \<times> args) list \<Rightarrow> (string, 's) smap \<Rightarrow> (string \<times> uint32 \<times> args) list" where
  "accepted [] m = []"
| "accepted (c # cs) m = (case c of (d, f, as) \<Rightarrow>
     (if cr_code (fst (call d f as m)) = CODE_OK then [c] else []) @ accepted cs (snd (call d f as m)))"

definition same_states :: "(string, 's) smap \<Rightarrow> (string, 's) smap \<Rightarrow> bool" where
  "same_states m m' \<longleftrightarrow> (\<forall>d. m_at default d m = m_at default d m')"

lemma call_same_states:
  assumes "same_states m m'"
  shows "fst (call d f as m) = fst (call d f as m')" and "same_states (snd (call d f as m)) (snd (call d f as m'))"
proof -
  show "fst (call d f as m) = fst (call d f as m')"
    using assms call_local[of d m m' f as] by (simp add: same_states_def)
  show "same_states (snd (call d f as m)) (snd (call d f as m'))"
    unfolding same_states_def
  proof
    fix d'
    show "m_at default d' (snd (call d f as m)) = m_at default d' (snd (call d f as m'))"
      using assms call_local[of d m m' f as] by (cases "d' = d") (simp_all add: same_states_def call_frame)
  qed
qed

lemma rejected_same_states: "cr_code (fst (call d f as m)) \<noteq> CODE_OK \<Longrightarrow> same_states (snd (call d f as m)) m"
  unfolding same_states_def using call_rejected call_frame by metis

lemma run_same_states: "same_states m m' \<Longrightarrow> same_states (run cs m) (run cs m')"
proof (induction cs arbitrary: m m')
  case (Cons c cs)
  then show ?case by (cases c) (simp add: call_same_states)
qed simp

text \<open>Rejected calls leave no trace: a history acts as the sublist of its accepted calls.\<close>

lemma run_accepted: "same_states (run cs m) (run (accepted cs m) m)"
proof (induction cs arbitrary: m)
  case (Cons c cs)
  obtain d f as where c: "c = (d, f, as)" by (cases c)
  let ?m = "snd (call d f as m)"
  show ?case
  proof (cases "cr_code (fst (call d f as m)) = CODE_OK")
    case False
    with run_same_states[OF rejected_same_states[OF False], of "accepted cs ?m"] Cons.IH[of ?m] show ?thesis
      by (simp add: c same_states_def)
  qed (use Cons.IH[of ?m] in \<open>simp add: c\<close>)
qed (simp add: same_states_def)

lemma accepted_conform: "(d, f, as) \<in> set (accepted cs m) \<Longrightarrow> call_conforms caps f as"
  by (induction cs arbitrary: m) (auto split: if_splits dest: call_conforming)

lemma run_frame: "d \<notin> fst ` set cs \<Longrightarrow> m_at default d (run cs m) = m_at default d m"
proof (induction cs arbitrary: m)
  case (Cons c cs)
  then show ?case by (cases c) (auto simp: call_frame)
qed simp

definition all_wf :: "(string, 's) smap \<Rightarrow> bool" where
  "all_wf m \<longleftrightarrow> (\<forall>d. wf (m_at default d m))"

lemma all_wf_empty: "all_wf m_empty"
  by (simp add: all_wf_def default_wf)

lemma all_wf_call: "all_wf m \<Longrightarrow> wf_args as \<Longrightarrow> all_wf (snd (call d f as m))"
  unfolding all_wf_def using call_wf call_frame by metis

lemma all_wf_read: "all_wf m \<Longrightarrow> all_wf (snd (reads reg ts d ids m))"
  unfolding all_wf_def using read_wf read_frame by metis

lemma all_wf_run: "all_wf m \<Longrightarrow> \<forall>(d, f, as) \<in> set cs. wf_args as \<Longrightarrow> all_wf (run cs m)"
  by (induction cs arbitrary: m) (auto simp: all_wf_call)

lemma read_subset: "set (map sv_signal_id (fst (reads reg ts d ids m))) \<subseteq> set (signal_ids caps)"
  unfolding read_ids by auto

lemma read_no_ids: "map sv_signal_id (fst (reads reg ts d [] m)) = defaults"
  unfolding read_ids using defaults_known by (auto simp: filter_id_conv)

lemma read_requested:
  "ids \<noteq> [] \<Longrightarrow> set ids \<subseteq> set (signal_ids caps) \<Longrightarrow> map sv_signal_id (fst (reads reg ts d ids m)) = ids"
  unfolding read_ids by (auto simp: filter_id_conv)

end

end
