(* ===== verification/Tempctl.thy ===== *)
theory Tempctl
  imports Device_Module
begin

text \<open>
  \<open>src/devices/tempctl/tempctl_device.hpp\<close> and \<open>.cpp\<close>: a temperature controller with two
  thermocouples, two relays, a mode and a setpoint.

  Every function but \<open>update_control\<close> is one critical section of the module's mutex.
  \<open>update_control\<close> is two sections with a read of the signal registry between them; they are
  separate definitions, so that their interleaving with calls can be stated.
\<close>

section \<open>State\<close>

definition kFnSetMode :: uint32 where "kFnSetMode = 1"
definition kFnSetSetpoint :: uint32 where "kFnSetSetpoint = 2"
definition kFnSetRelay :: uint32 where "kFnSetRelay = 3"

definition kSigTc1Temp :: string where "kSigTc1Temp = ''tc1_temp''"
definition kSigTc2Temp :: string where "kSigTc2Temp = ''tc2_temp''"
definition kSigRelay1State :: string where "kSigRelay1State = ''relay1_state''"
definition kSigRelay2State :: string where "kSigRelay2State = ''relay2_state''"
definition kSigControlMode :: string where "kSigControlMode = ''control_mode''"
definition kSigSetpoint :: string where "kSigSetpoint = ''setpoint''"

lemmas tempctl_id_defs = kFnSetMode_def kFnSetSetpoint_def kFnSetRelay_def kSigTc1Temp_def kSigTc2Temp_def
  kSigRelay1State_def kSigRelay2State_def kSigControlMode_def kSigSetpoint_def

record tempctl_state =
  tc1_c :: double
  tc2_c :: double
  relay1 :: bool
  relay2 :: bool
  mode :: string
  setpoint_c :: double

definition tempctl_default :: tempctl_state where
  "tempctl_default = \<lparr>tc1_c = Fin 25, tc2_c = Fin 25, relay1 = False, relay2 = False,
     mode = ''open'', setpoint_c = Fin 60\<rparr>"

record tempctl_config =
  initial_temp :: "double option"
  temp_range :: "(double \<times> double) option"

type_synonym tempctl_states = "(string, tempctl_state) smap"

definition tempctl_get_state_unlocked :: "string \<Rightarrow> tempctl_states \<Rightarrow> tempctl_state \<times> tempctl_states" where
  "tempctl_get_state_unlocked device_id m = m_get_or_insert device_id tempctl_default m"

abbreviation tempctl_at :: "string \<Rightarrow> tempctl_states \<Rightarrow> tempctl_state" where
  "tempctl_at \<equiv> m_at tempctl_default"

section \<open>Initialization\<close>

text \<open>An exception is the left value, with its message.\<close>

definition tempctl_init :: "string \<Rightarrow> tempctl_config \<Rightarrow> tempctl_states \<Rightarrow> string + tempctl_states" where
  "tempctl_init device_id config m =
    (let s = tempctl_default in
     case initial_temp config of
       None \<Rightarrow> Inr (m_put device_id s m)
     | Some temp \<Rightarrow>
         let accept = Inr (m_put device_id (s\<lparr>tc1_c := temp, tc2_c := temp\<rparr>) m) in
         case temp_range config of
           None \<Rightarrow> accept
         | Some (min_temp, max_temp) \<Rightarrow>
             if dless temp min_temp \<or> dless max_temp temp
             then Inl (''[TempCtl] initial_temp '' @ to_string_double temp @ '' out of valid range ['' @
                       to_string_double min_temp @ '', '' @ to_string_double max_temp @ '']'')
             else accept)"

section \<open>Physics and control\<close>

definition tempctl_target :: "tempctl_state \<Rightarrow> double" where
  "tempctl_target s =
    (let ambient = Fin 23;
         relays_on = (if relay1 s then 1 else 0) + (if relay2 s then 1 else 0) :: int
     in if mode s = ''closed'' then setpoint_c s
        else dadd ambient (if relays_on = 0 then Fin 0 else if relays_on = 1 then Fin 45 else Fin 75))"

definition tempctl_update_physics :: "'g lib \<Rightarrow> string \<Rightarrow> double \<Rightarrow> tempctl_states \<Rightarrow> tempctl_states" where
  "tempctl_update_physics lib device_id dt m =
    (let (s, m) = tempctl_get_state_unlocked device_id m;
         target = tempctl_target s;
         alpha = smoothing lib dt (Fin 6);
         s = s\<lparr>tc1_c := first_order alpha target (tc1_c s)\<rparr>;
         s = s\<lparr>tc2_c := first_order alpha (dsub target (Fin (3 / 2))) (tc2_c s)\<rparr>
     in m_put device_id s m)"

text \<open>The first critical section of \<open>update_control\<close>: whether it goes on.\<close>

definition tempctl_control_enabled :: "string \<Rightarrow> tempctl_states \<Rightarrow> bool \<times> tempctl_states" where
  "tempctl_control_enabled device_id m =
    (let (s, m) = tempctl_get_state_unlocked device_id m in (mode s = ''closed'', m))"

text \<open>The second one, with the temperature that was read.\<close>

definition tempctl_control_apply :: "string \<Rightarrow> double \<Rightarrow> tempctl_states \<Rightarrow> tempctl_states" where
  "tempctl_control_apply device_id current_temp m =
    (let (s, m) = tempctl_get_state_unlocked device_id m in
     if mode s \<noteq> ''closed'' then m
     else
       let error = dsub (setpoint_c s) current_temp in
       if dless (Fin 10) error then m_put device_id (s\<lparr>relay1 := True, relay2 := True\<rparr>) m
       else if dless (Fin 2) error then m_put device_id (s\<lparr>relay1 := True, relay2 := False\<rparr>) m
       else if dless error (Fin (- 2)) then m_put device_id (s\<lparr>relay1 := False, relay2 := False\<rparr>) m
       else m)"

text \<open>
  \<open>update_control\<close> run without interruption. The reader may act on the rest of the program,
  \<open>'w\<close>, and on the states of this module.
\<close>

definition tempctl_update_control ::
  "(device_reader \<Rightarrow> string \<Rightarrow> tempctl_states \<times> 'w \<Rightarrow> double option \<times> tempctl_states \<times> 'w) \<Rightarrow>
   signal_registry option \<Rightarrow> string \<Rightarrow> tempctl_states \<times> 'w \<Rightarrow> tempctl_states \<times> 'w" where
  "tempctl_update_control run registry device_id mw =
    (case registry of
       None \<Rightarrow> mw
     | Some r \<Rightarrow>
         let (m, w) = mw;
             (closed, m) = tempctl_control_enabled device_id m
         in if \<not> closed then (m, w)
            else
              let (current_temp_opt, m, w) = registry_read_signal run (device_id @ ''/tc1_temp'') r (m, w)
              in case current_temp_opt of
                   None \<Rightarrow> (m, w)
                 | Some current_temp \<Rightarrow> (tempctl_control_apply device_id current_temp m, w))"

section \<open>Identity and capabilities\<close>

definition tempctl_get_device_info :: "string \<Rightarrow> bool \<Rightarrow> device" where
  "tempctl_get_device_info device_id include_health =
     \<lparr>d_device_id = device_id, d_provider_name = kProviderName, d_type_id = ''sim.temp_control_card'',
      d_type_version = ''1.0'', d_label = ''Sim Temp Control Card (2TC + 2Relay)'',
      d_address = ''sim://'' @ device_id,
      d_tags = m_put ''kind'' ''temp_control'' (m_put ''family'' ''sim'' m_empty)\<rparr>"

definition tempctl_get_capabilities :: capability_set where
  "tempctl_get_capabilities = \<lparr>caps_signals =
    [mk_signal kSigTc1Temp ''TC1 Temperature'' ''Thermocouple channel 1'' VALUE_TYPE_DOUBLE ''C'' (Fin 2) 1500,
     mk_signal kSigTc2Temp ''TC2 Temperature'' ''Thermocouple channel 2'' VALUE_TYPE_DOUBLE ''C'' (Fin 2) 1500,
     mk_signal kSigRelay1State ''Relay 1 State'' ''Relay output channel 1'' VALUE_TYPE_BOOL [] (Fin 2) 1500,
     mk_signal kSigRelay2State ''Relay 2 State'' ''Relay output channel 2'' VALUE_TYPE_BOOL [] (Fin 2) 1500,
     mk_signal kSigControlMode ''Control Mode'' ''open or closed'' VALUE_TYPE_STRING [] (Fin (1 / 2)) 3000,
     mk_signal kSigSetpoint ''Setpoint'' ''Closed-loop temperature setpoint'' VALUE_TYPE_DOUBLE ''C'' (Fin (1 / 2)) 3000],
   caps_functions =
    [mk_function kFnSetMode ''set_mode'' ''Set control mode: open or closed'' CATEGORY_CONFIG
       [make_arg_spec ''mode'' VALUE_TYPE_STRING True ''open or closed'' []],
     mk_function kFnSetSetpoint ''set_setpoint'' ''Set closed-loop setpoint (C)'' CATEGORY_CONFIG
       [(make_arg_spec ''value'' VALUE_TYPE_DOUBLE True ''Temperature setpoint'' ''C'')
          \<lparr>arg_min_double := Some (Fin (- 50)), arg_max_double := Some (Fin 400)\<rparr>],
     mk_function kFnSetRelay ''set_relay'' ''Set relay state in open-loop mode'' CATEGORY_ACTUATE
       [(make_arg_spec ''relay_index'' VALUE_TYPE_INT64 True ''1 or 2'' [])
          \<lparr>arg_min_int64 := Some 1, arg_max_int64 := Some 2\<rparr>,
        make_arg_spec ''state'' VALUE_TYPE_BOOL True ''true=on false=off'' []]]\<rparr>"

section \<open>Reads\<close>

definition tempctl_known_signals :: "string set" where
  "tempctl_known_signals =
     {kSigTc1Temp, kSigTc2Temp, kSigRelay1State, kSigRelay2State, kSigControlMode, kSigSetpoint}"

definition tempctl_default_signals :: "string list" where
  "tempctl_default_signals = [kSigTc1Temp, kSigTc2Temp, kSigRelay1State, kSigRelay2State]"

definition tempctl_read_one ::
  "signal_registry option \<Rightarrow> int \<Rightarrow> string \<Rightarrow> tempctl_state \<Rightarrow> string \<Rightarrow> signal_value list" where
  "tempctl_read_one registry ts device_id snapshot sid =
    (if sid \<notin> tempctl_known_signals then []
     else if sid = kSigTc1Temp then
       [make_signal_value ts sid (make_double (value_or (maybe_physics_value registry device_id sid) (tc1_c snapshot)))]
     else if sid = kSigTc2Temp then
       [make_signal_value ts sid (make_double (value_or (maybe_physics_value registry device_id sid) (tc2_c snapshot)))]
     else if sid = kSigRelay1State then
       [make_signal_value ts sid (make_bool (dleq (Fin (1 / 2))
          (value_or (maybe_physics_value registry device_id sid) (if relay1 snapshot then Fin 1 else Fin 0))))]
     else if sid = kSigRelay2State then
       [make_signal_value ts sid (make_bool (dleq (Fin (1 / 2))
          (value_or (maybe_physics_value registry device_id sid) (if relay2 snapshot then Fin 1 else Fin 0))))]
     else if sid = kSigControlMode then [make_signal_value ts sid (make_string (mode snapshot))]
     else if sid = kSigSetpoint then [make_signal_value ts sid (make_double (setpoint_c snapshot))]
     else [])"

definition tempctl_read_signals ::
  "signal_registry option \<Rightarrow> int \<Rightarrow> string \<Rightarrow> string list \<Rightarrow> tempctl_states \<Rightarrow> signal_value list \<times> tempctl_states" where
  "tempctl_read_signals registry ts device_id requested m =
    (let (snapshot, m) = tempctl_get_state_unlocked device_id m;
         ids = (if requested = [] then tempctl_default_signals else requested)
     in (concat (map (tempctl_read_one registry ts device_id snapshot) ids), m))"

section \<open>Calls\<close>

text \<open>
  The body of \<open>call_function\<close> works on a reference into the map; here it takes the state and
  returns it, and \<open>tempctl_call_function\<close> stores it back.
\<close>

definition tempctl_call_body ::
  "string \<Rightarrow> uint32 \<Rightarrow> args \<Rightarrow> tempctl_state \<Rightarrow> call_result \<times> tempctl_state" where
  "tempctl_call_body device_id function_id args s =
    (if function_id = kFnSetMode then
       (case get_arg_string args ''mode'' of
          None \<Rightarrow> (bad ''missing/invalid arg: mode (string)'', s)
        | Some md \<Rightarrow>
            if md \<noteq> ''open'' \<and> md \<noteq> ''closed''
            then (bad (''mode must be '' @ [CHR 0x27] @ ''open'' @ [CHR 0x27] @ '' or '' @ [CHR 0x27] @ ''closed'' @ [CHR 0x27]), s)
            else (ok, s\<lparr>mode := md\<rparr>))
     else if function_id = kFnSetSetpoint then
       (case get_arg_double args ''value'' of
          None \<Rightarrow> (bad ''missing/invalid arg: value (double)'', s)
        | Some sp \<Rightarrow>
            if \<not> isfinite sp then (bad ''setpoint must be finite (not NaN or +/-Inf)'', s)
            else if dless sp (Fin (- 50)) \<or> dless (Fin 400) sp then (out_of_range ''setpoint out of range'', s)
            else (ok, s\<lparr>setpoint_c := sp\<rparr>))
     else if function_id = kFnSetRelay then
       (if mode s \<noteq> ''open'' then (precond ''set_relay only allowed in open mode'', s)
        else
       (case get_arg_int64 args ''relay_index'' of
          None \<Rightarrow> (bad ''missing/invalid arg: relay_index (int64)'', s)
        | Some idx \<Rightarrow>
            if idx \<noteq> 1 \<and> idx \<noteq> 2 then (out_of_range ''relay_index must be 1 or 2'', s)
            else
       (case get_arg_bool args ''state'' of
          None \<Rightarrow> (bad ''missing/invalid arg: state (bool)'', s)
        | Some st \<Rightarrow>
            if idx = 1 then (ok, s\<lparr>relay1 := st\<rparr>)
            else (ok, s\<lparr>relay2 := st\<rparr>))))
     else (nf (''unknown function_id for '' @ device_id), s))"

definition tempctl_call_function ::
  "string \<Rightarrow> uint32 \<Rightarrow> args \<Rightarrow> tempctl_states \<Rightarrow> call_result \<times> tempctl_states" where
  "tempctl_call_function device_id function_id args m =
    (let (s, m) = tempctl_get_state_unlocked device_id m;
         (result, s) = tempctl_call_body device_id function_id args s
     in (result, m_put device_id s m))"

section \<open>The module's contract\<close>

lemma tempctl_get_state: "tempctl_get_state_unlocked d m = (tempctl_at d m, snd (m_get_or_insert d tempctl_default m))"
  unfolding tempctl_get_state_unlocked_def by (rule m_get_or_insert_at)

lemma tempctl_call_fst: "fst (tempctl_call_function d f as m) = fst (tempctl_call_body d f as (tempctl_at d m))"
  by (simp add: tempctl_call_function_def tempctl_get_state split: prod.split)

lemma tempctl_call_at: "tempctl_at d' (snd (tempctl_call_function d f as m)) =
    (if d' = d then snd (tempctl_call_body d f as (tempctl_at d m)) else tempctl_at d' m)"
  by (simp add: tempctl_call_function_def tempctl_get_state split: prod.split)

lemmas tempctl_call_simps = tempctl_call_fst tempctl_call_at

text \<open>What the handler keeps: a valid mode and a setpoint inside the advertised bounds.\<close>

definition tempctl_wf :: "tempctl_state \<Rightarrow> bool" where
  "tempctl_wf s \<longleftrightarrow> (mode s = ''open'' \<or> mode s = ''closed'') \<and> is_dbl (setpoint_c s) \<and>
     (\<exists>q. setpoint_c s = Fin q \<and> - 50 \<le> q \<and> q \<le> 400)"

lemma tempctl_default_wf [simp]: "tempctl_wf tempctl_default"
  using is_dbl_int[of 60] by (simp add: tempctl_wf_def tempctl_default_def)

lemma setpoint_accepted: "isfinite d \<Longrightarrow> \<not> dless d (Fin (- 50)) \<Longrightarrow> \<not> dless (Fin 400) d \<Longrightarrow> \<exists>q. d = Fin q \<and> - 50 \<le> q \<and> q \<le> 400"
  by (cases d) auto

lemma tempctl_body_cases:
  assumes "tempctl_call_body d f as s = (r, s')"
  shows "cr_code r \<noteq> CODE_OK \<Longrightarrow> s' = s"
    and "cr_code r = CODE_NOT_FOUND \<longleftrightarrow> f \<notin> {kFnSetMode, kFnSetSetpoint, kFnSetRelay}"
    and "tempctl_wf s \<Longrightarrow> wf_args as \<Longrightarrow> tempctl_wf s'"
    and "tc1_c s' = tc1_c s \<and> tc2_c s' = tc2_c s"
proof -
  show "cr_code r \<noteq> CODE_OK \<Longrightarrow> s' = s"
    using assms unfolding tempctl_call_body_def by (auto split: if_splits option.splits)
  show "cr_code r = CODE_NOT_FOUND \<longleftrightarrow> f \<notin> {kFnSetMode, kFnSetSetpoint, kFnSetRelay}"
    using assms unfolding tempctl_call_body_def by (auto split: if_splits option.splits)
  show "tempctl_wf s \<Longrightarrow> wf_args as \<Longrightarrow> tempctl_wf s'"
    using assms unfolding tempctl_call_body_def
    by (simp split: if_splits option.splits) (auto simp: tempctl_wf_def dest: wf_args_double setpoint_accepted)
  show "tc1_c s' = tc1_c s \<and> tc2_c s' = tc2_c s"
    using assms unfolding tempctl_call_body_def by (auto split: if_splits option.splits)
qed

lemmas tempctl_body = tempctl_body_cases[OF prod.collapse[symmetric]]

lemma tempctl_function_ids: "set (function_ids tempctl_get_capabilities) = {kFnSetMode, kFnSetSetpoint, kFnSetRelay}"
  by (auto simp: function_ids_def tempctl_get_capabilities_def mk_function_def)

lemma tempctl_conforms_iff:
  "call_conforms tempctl_get_capabilities f args \<longleftrightarrow>
     (f = 1 \<and> get_arg_string args ''mode'' \<noteq> None) \<or>
     (f = 2 \<and> (\<exists>v. get_arg_double args ''value'' = Some v \<and> dleq (Fin (- 50)) v \<and> dleq v (Fin 400))) \<or>
     (f = 3 \<and> (\<exists>i. get_arg_int64 args ''relay_index'' = Some i \<and> 1 \<le> sint i \<and> sint i \<le> 2) \<and>
        get_arg_bool args ''state'' \<noteq> None)"
  unfolding call_conforms_def tempctl_get_capabilities_def
  by (simp add: mk_function_def tempctl_id_defs conforms_simps)

text \<open>A call succeeds exactly when it conforms to the advertised specification, names one of the two
  modes, and, for a relay, finds the controller in open mode.\<close>

lemma tempctl_call_ok_iff:
  "cr_code (fst (tempctl_call_function d f as m)) = CODE_OK \<longleftrightarrow>
     call_conforms tempctl_get_capabilities f as \<and>
     (f = kFnSetMode \<longrightarrow> get_arg_string as ''mode'' \<in> {Some ''open'', Some ''closed''}) \<and>
     (f = kFnSetRelay \<longrightarrow> mode (tempctl_at d m) = ''open'')"
  unfolding tempctl_call_simps tempctl_call_body_def tempctl_conforms_iff int64_one_or_two[symmetric] tempctl_id_defs
  by (simp add: finite_in_range_iff[symmetric] split: option.split)

lemma tempctl_signal_ids: "signal_ids tempctl_get_capabilities =
    [kSigTc1Temp, kSigTc2Temp, kSigRelay1State, kSigRelay2State, kSigControlMode, kSigSetpoint]"
  by (simp add: signal_ids_def tempctl_get_capabilities_def mk_signal_def)

lemma tempctl_read_one_ids:
  "map sv_signal_id (tempctl_read_one reg ts d s i) = (if i \<in> set (signal_ids tempctl_get_capabilities) then [i] else [])"
  by (auto simp: tempctl_read_one_def tempctl_signal_ids tempctl_known_signals_def)

lemma tempctl_read_one_advertised:
  "v \<in> set (tempctl_read_one reg ts d s i) \<Longrightarrow> advertised_value tempctl_get_capabilities v"
  by (auto simp: tempctl_read_one_def advertised_value_def tempctl_get_capabilities_def mk_signal_def split: if_splits)

interpretation tempctl: device_module tempctl_get_capabilities tempctl_default tempctl_default_signals tempctl_wf
  tempctl_read_signals tempctl_call_function
proof (unfold_locales, goal_cases)
  case (5 d f as m)
  then show ?case by (simp add: tempctl_call_ok_iff)
next
  case (9 reg ts d ids m)
  show ?case
    by (simp add: tempctl_read_signals_def tempctl_get_state Let_def concat_map_singletons[OF tempctl_read_one_ids])
next
  case (10 v reg ts d ids m)
  then show ?case
    by (auto simp: tempctl_read_signals_def tempctl_get_state Let_def intro: tempctl_read_one_advertised)
qed (auto simp: tempctl_call_simps tempctl_body tempctl_function_ids tempctl_read_signals_def tempctl_get_state
    Let_def tempctl_signal_ids tempctl_default_signals_def)

section \<open>Temperatures\<close>

text \<open>The range the simulated temperatures live in: from the lowest target of the second
  thermocouple (\<open>-50 - 1.5\<close>) to the highest setpoint.\<close>

definition temp_ok :: "double \<Rightarrow> bool" where
  "temp_ok d \<longleftrightarrow> is_dbl d \<and> (\<exists>q. d = Fin q \<and> - 103 / 2 \<le> q \<and> q \<le> 400)"

definition tempctl_safe :: "tempctl_state \<Rightarrow> bool" where
  "tempctl_safe s \<longleftrightarrow> tempctl_wf s \<and> temp_ok (tc1_c s) \<and> temp_ok (tc2_c s)"

lemma temp_ok_moderate: "temp_ok d \<Longrightarrow> moderate d"
proof -
  assume "temp_ok d"
  then obtain q where d: "d = Fin q" "- 103 / 2 \<le> q" "q \<le> 400" "is_dbl d" by (auto simp: temp_ok_def)
  then have "\<bar>q\<bar> \<le> 400" by (simp add: abs_le_iff)
  also have "(400 :: rat) \<le> 2 ^ 9" by simp
  also have "(2 :: rat) ^ 9 \<le> 2 ^ 1000" by (rule power_increasing) auto
  finally show ?thesis using d by (simp add: moderate_def)
qed

lemma temp_ok_first_order:
  assumes "temp_ok x" and "temp_ok t" and "0 \<le> \<alpha>" and "\<alpha> \<le> 1 - 1 / 2 ^ 51"
  shows "temp_ok (first_order (Fin \<alpha>) t x)"
proof -
  note b = first_order_between[OF temp_ok_moderate[OF assms(1)] temp_ok_moderate[OF assms(2)] refl assms(3,4)]
  obtain p q where pq: "x = Fin p" "t = Fin q" "- 103 / 2 \<le> p" "p \<le> 400" "- 103 / 2 \<le> q" "q \<le> 400"
    using assms(1,2) by (auto simp: temp_ok_def)
  have "- 103 / 2 \<le> min p q" and "max p q \<le> 400" using pq by simp_all
  from order_trans[OF this(1), of "dval (first_order (Fin \<alpha>) t x)"] order_trans[OF _ this(2), of "dval (first_order (Fin \<alpha>) t x)"] b(2,3)
  have "- 103 / 2 \<le> dval (first_order (Fin \<alpha>) t x)" "dval (first_order (Fin \<alpha>) t x) \<le> 400"
    by (simp_all add: pq(1,2))
  with b(1) show ?thesis by (auto simp: temp_ok_def moderate_def isfinite_iff)
qed

lemma tempctl_targets:
  assumes "tempctl_wf s"
  shows "temp_ok (tempctl_target s)" and "temp_ok (dsub (tempctl_target s) (Fin (3 / 2)))"
proof -
  obtain q where t: "tempctl_target s = Fin q" "is_dbl (Fin q)" "- 50 \<le> q" "q \<le> 400"
    using assms is_dbl_int[of 23] is_dbl_int[of 68] is_dbl_int[of 98]
    by (cases "relay1 s"; cases "relay2 s") (auto simp: tempctl_target_def tempctl_wf_def Let_def)
  then show "temp_ok (tempctl_target s)" by (simp add: temp_ok_def)
  have "is_dbl (Fin (- 103 / 2))" and "is_dbl (Fin (797 / 2))"
    using is_dbl_dyadic[of "- 103" 1] is_dbl_dyadic[of 797 1] by simp_all
  from fl_between[OF this, of "q + - (3 / 2)"] t
  have "fl (q + - (3 / 2)) = Fin (round53 (q + - (3 / 2)))" "- 103 / 2 \<le> round53 (q + - (3 / 2))" "round53 (q + - (3 / 2)) \<le> 400"
    by simp_all
  then show "temp_ok (dsub (tempctl_target s) (Fin (3 / 2)))"
    using is_dbl_fl[of "q + - (3 / 2)"] by (auto simp: temp_ok_def dsub_def t)
qed

lemma tempctl_physics_at: "tempctl_at d' (tempctl_update_physics lib d dt m) =
    (if d' = d then
       let s = tempctl_at d m; alpha = smoothing lib dt (Fin 6) in
       s\<lparr>tc1_c := first_order alpha (tempctl_target s) (tc1_c s),
         tc2_c := first_order alpha (dsub (tempctl_target s) (Fin (3 / 2))) (tc2_c s)\<rparr>
     else tempctl_at d' m)"
  by (simp add: tempctl_update_physics_def tempctl_get_state Let_def)

lemma tempctl_control_at: "d' \<noteq> d \<Longrightarrow> tempctl_at d' (tempctl_control_apply d T m) = tempctl_at d' m"
  by (simp add: tempctl_control_apply_def tempctl_get_state Let_def)

lemma tempctl_control_safe: "tempctl_safe (tempctl_at d' m) \<Longrightarrow> tempctl_safe (tempctl_at d' (tempctl_control_apply d T m))"
  by (cases "d' = d") (auto simp: tempctl_control_apply_def tempctl_get_state Let_def tempctl_safe_def tempctl_wf_def)

lemma tempctl_physics_safe:
  assumes "exp_law lib" and "0 \<le> t" and "t \<le> 192" and "tempctl_safe (tempctl_at d' m)"
  shows "tempctl_safe (tempctl_at d' (tempctl_update_physics lib d (Fin t) m))"
proof -
  obtain \<alpha> where "smoothing lib (Fin t) (Fin 6) = Fin \<alpha>" "0 \<le> \<alpha>" "\<alpha> \<le> 1 - 1 / 2 ^ 51"
    using smoothing_bounds[OF assms(1,2), of 6] assms(3) by auto
  with assms(4) tempctl_targets[of "tempctl_at d' m"] show ?thesis
    by (auto simp: tempctl_physics_at Let_def tempctl_safe_def temp_ok_first_order tempctl_wf_def)
qed

text \<open>Everything that can happen to the module's states, in any order and for any device.\<close>

inductive tempctl_step :: "'g lib \<Rightarrow> tempctl_states \<Rightarrow> tempctl_states \<Rightarrow> bool" for lib where
  init: "tempctl_init d c m = Inr m' \<Longrightarrow> (\<And>t. initial_temp c = Some t \<Longrightarrow> temp_ok t) \<Longrightarrow> tempctl_step lib m m'"
| call: "wf_args as \<Longrightarrow> tempctl_step lib m (snd (tempctl_call_function d f as m))"
| physics: "0 \<le> t \<Longrightarrow> t \<le> 192 \<Longrightarrow> tempctl_step lib m (tempctl_update_physics lib d (Fin t) m)"
| control_check: "tempctl_step lib m (snd (tempctl_control_enabled d m))"
| control: "tempctl_step lib m (tempctl_control_apply d T m)"
| reading: "tempctl_step lib m (snd (tempctl_read_signals reg ts d ids m))"

inductive tempctl_reachable :: "'g lib \<Rightarrow> tempctl_states \<Rightarrow> bool" for lib where
  start: "tempctl_reachable lib m_empty"
| step: "tempctl_reachable lib m \<Longrightarrow> tempctl_step lib m m' \<Longrightarrow> tempctl_reachable lib m'"

lemma temp_ok_25: "temp_ok (Fin 25)"
  using is_dbl_int[of 25] by (simp add: temp_ok_def)

lemma tempctl_default_safe: "tempctl_safe tempctl_default"
  using tempctl_default_wf temp_ok_25 by (simp add: tempctl_safe_def) (simp add: tempctl_default_def)

lemma tempctl_init_at:
  "tempctl_init d c m = Inr m' \<Longrightarrow> tempctl_at d' m' =
     (if d' = d then (case initial_temp c of None \<Rightarrow> tempctl_default
                      | Some t \<Rightarrow> tempctl_default\<lparr>tc1_c := t, tc2_c := t\<rparr>)
      else tempctl_at d' m)"
  by (auto simp: tempctl_init_def Let_def split: option.splits if_splits)

lemma tempctl_step_safe:
  "tempctl_step lib m m' \<Longrightarrow> exp_law lib \<Longrightarrow> tempctl_safe (tempctl_at d m) \<Longrightarrow> tempctl_safe (tempctl_at d m')"
proof (induction rule: tempctl_step.induct)
  case (init d' c m m')
  then show ?case using tempctl_default_safe
    by (auto simp: tempctl_init_at tempctl_safe_def tempctl_wf_def split: option.split)
next
  case (call as m d' f)
  then show ?case
    by (auto simp: tempctl_call_simps tempctl_safe_def tempctl_body)
next
  case (physics t m d')
  then show ?case by (simp add: tempctl_physics_safe)
next
  case (control m d' T)
  then show ?case by (simp add: tempctl_control_safe)
qed (simp_all add: tempctl_control_enabled_def tempctl_read_signals_def tempctl_get_state Let_def)

section \<open>Properties\<close>

text \<open>C32. \<open>call_function\<close> of the temperature controller succeeds exactly on calls that conform to
  the advertised capabilities (function id, argument types, the setpoint's and the relay index's
  bounds, non-finite numbers excluded), with one of the two modes and, for \<open>set_relay\<close>, in open
  mode; it answers \<open>NOT_FOUND\<close> exactly on ids it does not advertise, and a call that is not
  accepted changes no device's state.\<close>

theorem tempctl_calls_accepted:
  "(cr_code (fst (tempctl_call_function d f as m)) = CODE_OK \<longleftrightarrow>
      call_conforms tempctl_get_capabilities f as \<and>
      (f = kFnSetMode \<longrightarrow> get_arg_string as ''mode'' \<in> {Some ''open'', Some ''closed''}) \<and>
      (f = kFnSetRelay \<longrightarrow> mode (tempctl_at d m) = ''open'')) \<and>
   (cr_code (fst (tempctl_call_function d f as m)) = CODE_NOT_FOUND \<longleftrightarrow> f \<notin> set (function_ids tempctl_get_capabilities)) \<and>
   (cr_code (fst (tempctl_call_function d f as m)) \<noteq> CODE_OK \<longrightarrow>
      tempctl_at d' (snd (tempctl_call_function d f as m)) = tempctl_at d' m)"
  using tempctl_call_ok_iff[of d f as m] tempctl.call_not_found[of d f as m] tempctl.rejected_same_states[of d f as m]
  by (simp add: tempctl.same_states_def)

definition example_relay_args :: args where
  "example_relay_args = m_put ''relay_index'' (make_int64 2) (m_put ''state'' (make_bool True) m_empty)"

theorem tempctl_calls_accepted_witness:
  "cr_code (fst (tempctl_call_function ''t'' kFnSetRelay example_relay_args m_empty)) = CODE_OK"
  using tempctl_calls_accepted[of "''t''" kFnSetRelay example_relay_args m_empty "''t''"]
  by (simp add: tempctl_conforms_iff example_relay_args_def tempctl_default_def tempctl_id_defs)

text \<open>C22. Whatever sequence of initializations, calls, reads, control steps and physics ticks of any
  length up to 192 seconds happens to the controllers, every temperature stays a finite number
  between -51.5 and 400 degrees, every setpoint inside its advertised bounds and every mode one of
  the two, provided the configured initial temperatures are in that range.\<close>

theorem tempctl_temperatures_bounded:
  assumes "exp_law lib" and "tempctl_reachable lib m"
  shows "tempctl_safe (tempctl_at d m)"
  using assms(2) by (induction) (auto simp: tempctl_default_safe assms(1) intro: tempctl_step_safe)

theorem tempctl_temperatures_bounded_witness:
  "tempctl_safe (tempctl_at ''t'' (tempctl_update_physics ref_lib ''t'' (Fin 10)
     (snd (tempctl_call_function ''t'' kFnSetRelay example_relay_args m_empty))))"
proof (rule tempctl_temperatures_bounded[OF exp_law_ref])
  have "wf_args example_relay_args" by (simp add: example_relay_args_def wf_args_put make_defs empty_value_def)
  then have "tempctl_reachable ref_lib (snd (tempctl_call_function ''t'' kFnSetRelay example_relay_args m_empty))"
    by (rule tempctl_reachable.step[OF tempctl_reachable.start tempctl_step.call])
  then show "tempctl_reachable ref_lib (tempctl_update_physics ref_lib ''t'' (Fin 10)
      (snd (tempctl_call_function ''t'' kFnSetRelay example_relay_args m_empty)))"
    by (rule tempctl_reachable.step[OF _ tempctl_step.physics]) auto
qed

text \<open>C23. A physics tick is a damped step toward the target: each thermocouple ends between where it
  was and its target (the setpoint in closed mode; 23, 68 or 98 degrees by the number of relays
  in open mode; 1.5 degrees less for the second one), never beyond it, with every floating-point
  rounding accounted for; nothing else of any device changes.\<close>

theorem tempctl_tick_never_overshoots:
  assumes "exp_law lib" and "0 \<le> t" and "t \<le> 192" and "tempctl_safe (tempctl_at d m)"
    and "s = tempctl_at d m" and "s' = tempctl_at d (tempctl_update_physics lib d (Fin t) m)"
    and "target2 = dsub (tempctl_target s) (Fin (3 / 2))"
  shows "min (dval (tc1_c s)) (dval (tempctl_target s)) \<le> dval (tc1_c s') \<and>
    dval (tc1_c s') \<le> max (dval (tc1_c s)) (dval (tempctl_target s)) \<and>
    min (dval (tc2_c s)) (dval target2) \<le> dval (tc2_c s') \<and> dval (tc2_c s') \<le> max (dval (tc2_c s)) (dval target2) \<and>
    s' = s\<lparr>tc1_c := tc1_c s', tc2_c := tc2_c s'\<rparr> \<and>
    (\<forall>d'. d' \<noteq> d \<longrightarrow> tempctl_at d' (tempctl_update_physics lib d (Fin t) m) = tempctl_at d' m)"
proof -
  obtain \<alpha> where al: "smoothing lib (Fin t) (Fin 6) = Fin \<alpha>" "0 \<le> \<alpha>" "\<alpha> \<le> 1 - 1 / 2 ^ 51"
    using smoothing_bounds[OF assms(1,2), of 6] assms(3) by auto
  have s: "moderate (tc1_c s)" "moderate (tc2_c s)" "moderate (tempctl_target s)" "moderate target2"
    using assms(4,5,7) tempctl_targets[of s] by (auto simp: tempctl_safe_def intro: temp_ok_moderate)
  have s': "s' = s\<lparr>tc1_c := first_order (Fin \<alpha>) (tempctl_target s) (tc1_c s), tc2_c := first_order (Fin \<alpha>) target2 (tc2_c s)\<rparr>"
    using assms(5-7) al(1) by (simp add: tempctl_physics_at Let_def)
  show ?thesis
    using first_order_between(2,3)[OF s(1,3) refl al(2,3)] first_order_between(2,3)[OF s(2,4) refl al(2,3)]
    by (simp add: s' tempctl_physics_at)
qed

theorem tempctl_tick_never_overshoots_witness:
  "dval (tc1_c (tempctl_at ''t'' (tempctl_update_physics ref_lib ''t'' (Fin 10) m_empty))) \<le> 25"
  using tempctl_tick_never_overshoots[where lib = ref_lib and t = 10 and d = "''t''" and m = m_empty, OF exp_law_ref _ _ _ refl refl refl]
    tempctl_default_safe by (simp add: tempctl_default_def tempctl_target_def Let_def)

text \<open>Initialization accepts an initial temperature exactly when it is inside the configured range,
  and then both thermocouples start there with the relays off in open mode, whatever was
  stored for the device before; a rejected one stores nothing. A NaN temperature compares as
  inside every range and is accepted.\<close>

lemma tempctl_init_checks_range:
  "(case tempctl_init d \<lparr>initial_temp = Some (Fin t), temp_range = Some (Fin lo, Fin hi)\<rparr> m of
      Inl msg \<Rightarrow> t < lo \<or> hi < t
    | Inr m' \<Rightarrow> lo \<le> t \<and> t \<le> hi \<and>
        tempctl_at d' m' = (if d' = d
          then \<lparr>tc1_c = Fin t, tc2_c = Fin t, relay1 = False, relay2 = False, mode = ''open'', setpoint_c = Fin 60\<rparr>
          else tempctl_at d' m)) \<and>
   (\<exists>m'. tempctl_init d \<lparr>initial_temp = Some NaN, temp_range = Some (Fin lo, Fin hi)\<rparr> m = Inr m' \<and>
      tc1_c (tempctl_at d m') = NaN)"
  by (auto simp: tempctl_init_def Let_def tempctl_default_def)

text \<open>The relays a control step asks for, with the error as the code computes it.\<close>

definition bang_bang :: "double \<Rightarrow> bool \<times> bool \<Rightarrow> bool \<times> bool" where
  "bang_bang error relays =
     (if dless (Fin 10) error then (True, True)
      else if dless (Fin 2) error then (True, False)
      else if dless error (Fin (- 2)) then (False, False)
      else relays)"

lemma bang_bang_dead_band:
  assumes "is_dbl (Fin sp)" and "is_dbl (Fin q)" and "- 2 \<le> sp - q" and "sp - q \<le> 2"
  shows "bang_bang (dsub (Fin sp) (Fin q)) relays = relays"
proof -
  have "is_dbl (Fin (- 2))" and "is_dbl (Fin 2)" using is_dbl_int[of "- 2"] is_dbl_int[of 2] by simp_all
  from fl_between[OF this, of "sp + - q"] assms(3,4) show ?thesis by (auto simp: bang_bang_def dsub_def)
qed

lemma tempctl_control_apply_bang_bang:
  "mode (tempctl_at d m) = ''closed'' \<Longrightarrow>
   tempctl_at d (tempctl_control_apply d T m) =
     (let s = tempctl_at d m; (r1, r2) = bang_bang (dsub (setpoint_c s) T) (relay1 s, relay2 s)
      in s\<lparr>relay1 := r1, relay2 := r2\<rparr>)"
  by (simp add: tempctl_control_apply_def tempctl_get_state Let_def bang_bang_def)

text \<open>C13. Closed-loop control of a physics-driven thermocouple is a two-stage thermostat with
  hysteresis. In closed mode both relays go on when the error exceeds 10 degrees, the first alone
  when it exceeds 2, both off when it is below -2, and in the dead band between, computed exactly
  although the code subtracts in floating point, or when the reading is not a number, they stay;
  in open mode nothing changes. Mode, setpoint, temperatures and other devices are never touched,
  and the device reader is not run.\<close>

theorem tempctl_control_is_thermostat:
  assumes "is_physics_driven (signal_path d kSigTc1Temp) r" and "get_cached_value (signal_path d kSigTc1Temp) r = Some T"
    and "tempctl_wf (tempctl_at d m)" and "is_dbl T" and "s = tempctl_at d m"
    and "tempctl_update_control run (Some r) d (m, w) = (m', w')"
  shows "w' = w \<and> (\<forall>d'. d' \<noteq> d \<longrightarrow> tempctl_at d' m' = tempctl_at d' m) \<and>
    (mode s = ''open'' \<longrightarrow> tempctl_at d m' = s) \<and>
    (mode s = ''closed'' \<longrightarrow>
       tempctl_at d m' = s\<lparr>relay1 := fst (bang_bang (dsub (setpoint_c s) T) (relay1 s, relay2 s)),
                           relay2 := snd (bang_bang (dsub (setpoint_c s) T) (relay1 s, relay2 s))\<rparr>) \<and>
    (T = NaN \<or> (\<exists>q. T = Fin q \<and> \<bar>dval (setpoint_c s) - q\<bar> \<le> 2) \<longrightarrow> tempctl_at d m' = s)"
proof -
  have path: "d @ ''/tc1_temp'' = signal_path d kSigTc1Temp"
    by (simp add: signal_path_def slash_def kSigTc1Temp_def)
  have rd: "registry_read_signal run (d @ ''/tc1_temp'') r x = (Some T, x)" for x
    unfolding path using read_driven[OF assms(1)] assms(2) by simp
  have at: "tempctl_at d' (snd (m_get_or_insert d tempctl_default m)) = tempctl_at d' m" for d' by simp
  let ?m = "snd (m_get_or_insert d tempctl_default m)"
  have res: "w' = w \<and> m' = (if mode s = ''closed'' then tempctl_control_apply d T ?m else ?m)"
    using assms(6) by (simp add: tempctl_update_control_def tempctl_control_enabled_def tempctl_get_state rd assms(5) split: if_splits)
  obtain sp where sp: "setpoint_c s = Fin sp" "is_dbl (Fin sp)" using assms(3,5) by (auto simp: tempctl_wf_def)
  have keep: "bang_bang (dsub (setpoint_c s) T) (relay1 s, relay2 s) = (relay1 s, relay2 s)"
    if "T = NaN \<or> (\<exists>q. T = Fin q \<and> \<bar>dval (setpoint_c s) - q\<bar> \<le> 2)"
    using that
  proof
    assume "T = NaN" then show ?thesis by (simp add: sp dsub_def bang_bang_def)
  next
    assume "\<exists>q. T = Fin q \<and> \<bar>dval (setpoint_c s) - q\<bar> \<le> 2"
    then show ?thesis using sp assms(4) by (auto intro!: bang_bang_dead_band simp: abs_le_iff)
  qed
  show ?thesis
  proof (cases "mode s = ''closed''")
    case True
    then have "tempctl_at d m' = s\<lparr>relay1 := fst (bang_bang (dsub (setpoint_c s) T) (relay1 s, relay2 s)),
        relay2 := snd (bang_bang (dsub (setpoint_c s) T) (relay1 s, relay2 s))\<rparr>"
      using res assms(5) by (simp add: tempctl_control_apply_bang_bang at Let_def split: prod.split)
    with res True keep assms(5) show ?thesis by (auto simp: tempctl_control_at)
  qed (use res assms(5) in auto)
qed

theorem tempctl_control_is_thermostat_witness:
  "tempctl_at ''t'' (fst (tempctl_update_control (\<lambda>_ _ x. (None, x))
      (Some (registry_write_signal (signal_path ''t'' kSigTc1Temp) (Fin 61) empty_registry)) ''t''
      (m_put ''t'' (tempctl_default\<lparr>mode := ''closed'', relay1 := True\<rparr>) m_empty, ())))
   = tempctl_default\<lparr>mode := ''closed'', relay1 := True\<rparr>"
proof -
  let ?r = "registry_write_signal (signal_path ''t'' kSigTc1Temp) (Fin 61) empty_registry"
  let ?s = "tempctl_default\<lparr>mode := ''closed'', relay1 := True\<rparr>"
  have r: "is_physics_driven (signal_path ''t'' kSigTc1Temp) ?r" "get_cached_value (signal_path ''t'' kSigTc1Temp) ?r = Some (Fin 61)"
    by (simp_all add: registry_defs Let_def)
  have wf: "tempctl_wf (tempctl_at ''t'' (m_put ''t'' ?s m_empty))"
    using is_dbl_int[of 60] by (simp add: tempctl_wf_def tempctl_default_def)
  have "is_dbl (Fin 61)" using is_dbl_int[of 61] by simp
  from tempctl_control_is_thermostat[OF r wf this refl prod.collapse[symmetric],
      THEN conjunct2, THEN conjunct2, THEN conjunct2, THEN conjunct2, THEN mp]
  show ?thesis by (simp add: tempctl_default_def)
qed

end
