(* ===== verification/Motorctl.thy ===== *)
theory Motorctl
  imports Device_Module
begin

text \<open>
  \<open>src/devices/motorctl/motorctl_device.hpp\<close> and \<open>.cpp\<close>: two DC motors, each with a duty
  cycle in \<open>[0, 1]\<close> and a speed that follows \<open>duty * max_rpm\<close> with a lag. Every function
  is one critical section of the module's mutex (\<open>read_signals\<close> copies the state under it).
\<close>

section \<open>State\<close>

definition kFnSetDuty :: uint32 where "kFnSetDuty = 1"

definition kSigMotor1Speed :: string where "kSigMotor1Speed = ''motor1_speed''"
definition kSigMotor2Speed :: string where "kSigMotor2Speed = ''motor2_speed''"
definition kSigMotor1Duty :: string where "kSigMotor1Duty = ''motor1_duty''"
definition kSigMotor2Duty :: string where "kSigMotor2Duty = ''motor2_duty''"

lemmas motorctl_id_defs = kFnSetDuty_def kSigMotor1Speed_def kSigMotor2Speed_def kSigMotor1Duty_def kSigMotor2Duty_def

record motorctl_state =
  duty1 :: double
  duty2 :: double
  speed1 :: double
  speed2 :: double
  max_rpm :: double

definition motorctl_default :: motorctl_state where
  "motorctl_default = \<lparr>duty1 = Fin 0, duty2 = Fin 0, speed1 = Fin 0, speed2 = Fin 0, max_rpm = Fin 3200\<rparr>"

record motorctl_config =
  max_speed :: "double option"

type_synonym motorctl_states = "(string, motorctl_state) smap"

definition motorctl_get_state_unlocked :: "string \<Rightarrow> motorctl_states \<Rightarrow> motorctl_state \<times> motorctl_states" where
  "motorctl_get_state_unlocked device_id m = m_get_or_insert device_id motorctl_default m"

abbreviation motorctl_at :: "string \<Rightarrow> motorctl_states \<Rightarrow> motorctl_state" where
  "motorctl_at \<equiv> m_at motorctl_default"

section \<open>Initialization and physics\<close>

definition motorctl_init :: "string \<Rightarrow> motorctl_config \<Rightarrow> motorctl_states \<Rightarrow> string + motorctl_states" where
  "motorctl_init device_id config m =
    (let s = motorctl_default in
     case max_speed config of
       None \<Rightarrow> Inr (m_put device_id s m)
     | Some ms \<Rightarrow>
         if dleq ms (Fin 0) \<or> dless (Fin 10000) ms
         then Inl (''[MotorCtl] max_speed '' @ to_string_double ms @ '' out of valid range (0, 10000] RPM'')
         else Inr (m_put device_id (s\<lparr>max_rpm := ms\<rparr>) m))"

definition motorctl_update_physics :: "'g lib \<Rightarrow> string \<Rightarrow> double \<Rightarrow> motorctl_states \<Rightarrow> motorctl_states" where
  "motorctl_update_physics lib device_id dt m =
    (let (s, m) = motorctl_get_state_unlocked device_id m;
         motor_tau = fl (4 / 5);
         motor_alpha = smoothing lib dt motor_tau;
         tgt1 = dmul (clamp (duty1 s) (Fin 0) (Fin 1)) (max_rpm s);
         tgt2 = dmul (clamp (duty2 s) (Fin 0) (Fin 1)) (max_rpm s);
         s = s\<lparr>speed1 := first_order motor_alpha tgt1 (speed1 s)\<rparr>;
         s = s\<lparr>speed2 := first_order motor_alpha tgt2 (speed2 s)\<rparr>
     in m_put device_id s m)"

section \<open>Identity and capabilities\<close>

definition motorctl_get_device_info :: "string \<Rightarrow> bool \<Rightarrow> device" where
  "motorctl_get_device_info device_id include_health =
     \<lparr>d_device_id = device_id, d_provider_name = kProviderName, d_type_id = ''sim.dual_dc_motor'',
      d_type_version = ''1.0'', d_label = ''Sim Dual DC Motor Controller'',
      d_address = ''sim://'' @ device_id,
      d_tags = m_put ''kind'' ''motor_control'' (m_put ''family'' ''sim'' m_empty)\<rparr>"

definition motorctl_get_capabilities :: capability_set where
  "motorctl_get_capabilities = \<lparr>caps_signals =
    [mk_signal kSigMotor1Speed ''Motor 1 Speed'' ''Estimated speed'' VALUE_TYPE_DOUBLE ''rpm'' (Fin 5) 800,
     mk_signal kSigMotor2Speed ''Motor 2 Speed'' ''Estimated speed'' VALUE_TYPE_DOUBLE ''rpm'' (Fin 5) 800,
     mk_signal kSigMotor1Duty ''Motor 1 Duty'' ''PWM duty 0..1'' VALUE_TYPE_DOUBLE [] (Fin 2) 1500,
     mk_signal kSigMotor2Duty ''Motor 2 Duty'' ''PWM duty 0..1'' VALUE_TYPE_DOUBLE [] (Fin 2) 1500],
   caps_functions =
    [mk_function kFnSetDuty ''set_motor_duty'' ''Set PWM duty for a motor channel'' CATEGORY_ACTUATE
       [(make_arg_spec ''motor_index'' VALUE_TYPE_INT64 True ''1 or 2'' [])
          \<lparr>arg_min_int64 := Some 1, arg_max_int64 := Some 2\<rparr>,
        (make_arg_spec ''duty'' VALUE_TYPE_DOUBLE True ''Duty 0..1'' [])
          \<lparr>arg_min_double := Some (Fin 0), arg_max_double := Some (Fin 1)\<rparr>]]\<rparr>"

section \<open>Reads\<close>

definition motorctl_known_signals :: "string set" where
  "motorctl_known_signals = {kSigMotor1Speed, kSigMotor2Speed, kSigMotor1Duty, kSigMotor2Duty}"

definition motorctl_default_signals :: "string list" where
  "motorctl_default_signals = [kSigMotor1Speed, kSigMotor2Speed]"

definition motorctl_read_one ::
  "signal_registry option \<Rightarrow> int \<Rightarrow> string \<Rightarrow> motorctl_state \<Rightarrow> string \<Rightarrow> signal_value list" where
  "motorctl_read_one registry ts device_id snapshot sid =
    (if sid \<notin> motorctl_known_signals then []
     else if sid = kSigMotor1Speed then
       [make_signal_value ts sid (make_double (value_or (maybe_physics_value registry device_id sid) (speed1 snapshot)))]
     else if sid = kSigMotor2Speed then
       [make_signal_value ts sid (make_double (value_or (maybe_physics_value registry device_id sid) (speed2 snapshot)))]
     else if sid = kSigMotor1Duty then
       [make_signal_value ts sid (make_double (value_or (maybe_physics_value registry device_id sid) (duty1 snapshot)))]
     else if sid = kSigMotor2Duty then
       [make_signal_value ts sid (make_double (value_or (maybe_physics_value registry device_id sid) (duty2 snapshot)))]
     else [])"

definition motorctl_read_signals ::
  "signal_registry option \<Rightarrow> int \<Rightarrow> string \<Rightarrow> string list \<Rightarrow> motorctl_states \<Rightarrow> signal_value list \<times> motorctl_states" where
  "motorctl_read_signals registry ts device_id requested m =
    (let (snapshot, m) = motorctl_get_state_unlocked device_id m;
         ids = (if requested = [] then motorctl_default_signals else requested)
     in (concat (map (motorctl_read_one registry ts device_id snapshot) ids), m))"

section \<open>Calls\<close>

definition motorctl_call_body ::
  "string \<Rightarrow> uint32 \<Rightarrow> args \<Rightarrow> motorctl_state \<Rightarrow> call_result \<times> motorctl_state" where
  "motorctl_call_body device_id function_id args s =
    (if function_id = kFnSetDuty then
       (case get_arg_int64 args ''motor_index'' of
          None \<Rightarrow> (bad ''missing/invalid arg: motor_index (int64)'', s)
        | Some idx \<Rightarrow>
            if idx \<noteq> 1 \<and> idx \<noteq> 2 then (out_of_range ''motor_index must be 1 or 2'', s)
            else
       (case get_arg_double args ''duty'' of
          None \<Rightarrow> (bad ''missing/invalid arg: duty (double)'', s)
        | Some duty \<Rightarrow>
            if \<not> isfinite duty then (bad ''duty must be finite (not NaN or +/-Inf)'', s)
            else if dless duty (Fin 0) \<or> dless (Fin 1) duty then (out_of_range ''duty out of range (0..1)'', s)
            else if idx = 1 then (ok, s\<lparr>duty1 := duty\<rparr>)
            else (ok, s\<lparr>duty2 := duty\<rparr>)))
     else (nf (''unknown function_id for '' @ device_id), s))"

definition motorctl_call_function ::
  "string \<Rightarrow> uint32 \<Rightarrow> args \<Rightarrow> motorctl_states \<Rightarrow> call_result \<times> motorctl_states" where
  "motorctl_call_function device_id function_id args m =
    (let (s, m) = motorctl_get_state_unlocked device_id m;
         (result, s) = motorctl_call_body device_id function_id args s
     in (result, m_put device_id s m))"

section \<open>The module's contract\<close>

lemma motorctl_get_state: "motorctl_get_state_unlocked d m = (motorctl_at d m, snd (m_get_or_insert d motorctl_default m))"
  unfolding motorctl_get_state_unlocked_def by (rule m_get_or_insert_at)

lemma motorctl_call_fst: "fst (motorctl_call_function d f as m) = fst (motorctl_call_body d f as (motorctl_at d m))"
  by (simp add: motorctl_call_function_def motorctl_get_state split: prod.split)

lemma motorctl_call_at: "motorctl_at d' (snd (motorctl_call_function d f as m)) =
    (if d' = d then snd (motorctl_call_body d f as (motorctl_at d m)) else motorctl_at d' m)"
  by (simp add: motorctl_call_function_def motorctl_get_state split: prod.split)

lemmas motorctl_call_simps = motorctl_call_fst motorctl_call_at

definition duty_ok :: "double \<Rightarrow> bool" where
  "duty_ok d \<longleftrightarrow> is_dbl d \<and> (\<exists>q. d = Fin q \<and> 0 \<le> q \<and> q \<le> 1)"

definition motorctl_wf :: "motorctl_state \<Rightarrow> bool" where
  "motorctl_wf s \<longleftrightarrow> duty_ok (duty1 s) \<and> duty_ok (duty2 s)"

lemma motorctl_default_wf [simp]: "motorctl_wf motorctl_default"
  by (simp add: motorctl_wf_def duty_ok_def motorctl_default_def)

lemma duty_accepted: "isfinite d \<Longrightarrow> \<not> dless d (Fin 0) \<Longrightarrow> \<not> dless (Fin 1) d \<Longrightarrow> is_dbl d \<Longrightarrow> duty_ok d"
  by (cases d) (auto simp: duty_ok_def)

lemma motorctl_body_cases:
  assumes "motorctl_call_body d f as s = (r, s')"
  shows "cr_code r \<noteq> CODE_OK \<Longrightarrow> s' = s"
    and "cr_code r = CODE_NOT_FOUND \<longleftrightarrow> f \<noteq> kFnSetDuty"
    and "motorctl_wf s \<Longrightarrow> wf_args as \<Longrightarrow> motorctl_wf s'"
    and "speed1 s' = speed1 s \<and> speed2 s' = speed2 s \<and> max_rpm s' = max_rpm s"
proof -
  show "cr_code r \<noteq> CODE_OK \<Longrightarrow> s' = s"
    using assms unfolding motorctl_call_body_def by (auto split: if_splits option.splits)
  show "cr_code r = CODE_NOT_FOUND \<longleftrightarrow> f \<noteq> kFnSetDuty"
    using assms unfolding motorctl_call_body_def by (auto split: if_splits option.splits)
  show "motorctl_wf s \<Longrightarrow> wf_args as \<Longrightarrow> motorctl_wf s'"
    using assms unfolding motorctl_call_body_def
    by (simp split: if_splits option.splits) (auto simp: motorctl_wf_def intro: duty_accepted[OF _ _ _ wf_args_double])
  show "speed1 s' = speed1 s \<and> speed2 s' = speed2 s \<and> max_rpm s' = max_rpm s"
    using assms unfolding motorctl_call_body_def by (auto split: if_splits option.splits)
qed

lemmas motorctl_body = motorctl_body_cases[OF prod.collapse[symmetric]]

lemma motorctl_function_ids: "function_ids motorctl_get_capabilities = [kFnSetDuty]"
  by (simp add: function_ids_def motorctl_get_capabilities_def mk_function_def)

lemma motorctl_conforms_iff:
  "call_conforms motorctl_get_capabilities f args \<longleftrightarrow>
     f = kFnSetDuty \<and> (\<exists>i. get_arg_int64 args ''motor_index'' = Some i \<and> 1 \<le> sint i \<and> sint i \<le> 2) \<and>
     (\<exists>v. get_arg_double args ''duty'' = Some v \<and> dleq (Fin 0) v \<and> dleq v (Fin 1))"
  unfolding call_conforms_def motorctl_get_capabilities_def
  by (auto simp: mk_function_def conforms_simps)

lemma motorctl_call_ok_iff:
  "cr_code (fst (motorctl_call_function d f as m)) = CODE_OK \<longleftrightarrow> call_conforms motorctl_get_capabilities f as"
  unfolding motorctl_call_simps motorctl_call_body_def motorctl_conforms_iff int64_one_or_two[symmetric]
  by (simp add: finite_in_range_iff[symmetric] split: option.split)

lemma motorctl_signal_ids:
  "signal_ids motorctl_get_capabilities = [kSigMotor1Speed, kSigMotor2Speed, kSigMotor1Duty, kSigMotor2Duty]"
  by (simp add: signal_ids_def motorctl_get_capabilities_def mk_signal_def)

lemma motorctl_read_one_ids:
  "map sv_signal_id (motorctl_read_one reg ts d s i) = (if i \<in> set (signal_ids motorctl_get_capabilities) then [i] else [])"
  by (auto simp: motorctl_read_one_def motorctl_signal_ids motorctl_known_signals_def)

lemma motorctl_read_one_advertised:
  "v \<in> set (motorctl_read_one reg ts d s i) \<Longrightarrow> advertised_value motorctl_get_capabilities v"
  by (auto simp: motorctl_read_one_def advertised_value_def motorctl_get_capabilities_def mk_signal_def split: if_splits)

interpretation motorctl: device_module motorctl_get_capabilities motorctl_default motorctl_default_signals motorctl_wf
  motorctl_read_signals motorctl_call_function
proof (unfold_locales, goal_cases)
  case (5 d f as m)
  then show ?case by (simp add: motorctl_call_ok_iff)
next
  case (9 reg ts d ids m)
  show ?case
    by (simp add: motorctl_read_signals_def motorctl_get_state Let_def concat_map_singletons[OF motorctl_read_one_ids])
next
  case (10 v reg ts d ids m)
  then show ?case
    by (auto simp: motorctl_read_signals_def motorctl_get_state Let_def intro: motorctl_read_one_advertised)
qed (auto simp: motorctl_call_simps motorctl_body motorctl_function_ids motorctl_read_signals_def motorctl_get_state
    Let_def motorctl_signal_ids motorctl_default_signals_def)

section \<open>Speeds\<close>

text \<open>A motor runs between standstill and its maximum.\<close>

definition speed_ok :: "rat \<Rightarrow> double \<Rightarrow> bool" where
  "speed_ok M d \<longleftrightarrow> is_dbl d \<and> (\<exists>q. d = Fin q \<and> 0 \<le> q \<and> q \<le> M)"

definition motorctl_safe :: "motorctl_state \<Rightarrow> bool" where
  "motorctl_safe s \<longleftrightarrow> motorctl_wf s \<and>
     (\<exists>M. max_rpm s = Fin M \<and> is_dbl (Fin M) \<and> 0 < M \<and> M \<le> 10000 \<and> speed_ok M (speed1 s) \<and> speed_ok M (speed2 s))"

lemma speed_ok_moderate: "speed_ok M d \<Longrightarrow> M \<le> 10000 \<Longrightarrow> moderate d"
proof -
  assume "speed_ok M d" "M \<le> 10000"
  then obtain q where d: "d = Fin q" "0 \<le> q" "q \<le> 10000" "is_dbl d" by (auto simp: speed_ok_def)
  then have "\<bar>q\<bar> \<le> 2 ^ 14" by simp
  also have "(2 :: rat) ^ 14 \<le> 2 ^ 1000" by (rule power_increasing) auto
  finally show ?thesis using d by (simp add: moderate_def)
qed

lemma motor_target:
  assumes "duty_ok d" and "is_dbl (Fin M)" and "0 < M"
  shows "speed_ok M (dmul (clamp d (Fin 0) (Fin 1)) (Fin M))"
proof -
  obtain q where q: "d = Fin q" "0 \<le> q" "q \<le> 1" using assms(1) by (auto simp: duty_ok_def)
  have "q * M \<le> 1 * M" using q(3) assms(3) by (intro mult_right_mono) auto
  with q(2) assms(3) have "0 \<le> q * M" and "q * M \<le> M" by simp_all
  from fl_between[OF is_dbl_zero assms(2) this] show ?thesis
    using is_dbl_fl[of "q * M"] q by (auto simp: speed_ok_def clamp_inside)
qed

lemma speed_ok_first_order:
  assumes "speed_ok M x" and "speed_ok M t" and "M \<le> 10000" and "0 \<le> \<alpha>" and "\<alpha> \<le> 1 - 1 / 2 ^ 51"
  shows "speed_ok M (first_order (Fin \<alpha>) t x)"
proof -
  note b = first_order_between[OF speed_ok_moderate[OF assms(1,3)] speed_ok_moderate[OF assms(2,3)] refl assms(4,5)]
  obtain p q where pq: "x = Fin p" "t = Fin q" "0 \<le> p" "p \<le> M" "0 \<le> q" "q \<le> M"
    using assms(1,2) by (auto simp: speed_ok_def)
  have "0 \<le> min p q" and "max p q \<le> M" using pq by simp_all
  from order_trans[OF this(1), of "dval (first_order (Fin \<alpha>) t x)"] order_trans[OF _ this(2), of "dval (first_order (Fin \<alpha>) t x)"] b(2,3)
  have "0 \<le> dval (first_order (Fin \<alpha>) t x)" "dval (first_order (Fin \<alpha>) t x) \<le> M"
    by (simp_all add: pq(1,2))
  with b(1) show ?thesis by (auto simp: speed_ok_def moderate_def isfinite_iff)
qed

lemma motor_tau: "\<exists>\<tau>. fl (4 / 5) = Fin \<tau> \<and> 3 / 4 \<le> \<tau>"
proof -
  have "is_dbl (Fin (3 / 4))" using is_dbl_dyadic[of 3 2] by simp
  moreover have "is_dbl (Fin 1)" using is_dbl_int[of 1] by simp
  ultimately show ?thesis using fl_between[of "3 / 4" 1 "4 / 5"] by auto
qed

lemma motorctl_physics_at: "motorctl_at d' (motorctl_update_physics lib d dt m) =
    (if d' = d then
       let s = motorctl_at d m; alpha = smoothing lib dt (fl (4 / 5)) in
       s\<lparr>speed1 := first_order alpha (dmul (clamp (duty1 s) (Fin 0) (Fin 1)) (max_rpm s)) (speed1 s),
         speed2 := first_order alpha (dmul (clamp (duty2 s) (Fin 0) (Fin 1)) (max_rpm s)) (speed2 s)\<rparr>
     else motorctl_at d' m)"
  by (simp add: motorctl_update_physics_def motorctl_get_state Let_def)

lemma motorctl_physics_safe:
  assumes "exp_law lib" and "0 \<le> t" and "t \<le> 24" and "motorctl_safe (motorctl_at d' m)"
  shows "motorctl_safe (motorctl_at d' (motorctl_update_physics lib d (Fin t) m))"
proof -
  obtain \<tau> where tau: "fl (4 / 5) = Fin \<tau>" "3 / 4 \<le> \<tau>" using motor_tau by auto
  then obtain \<alpha> where al: "smoothing lib (Fin t) (Fin \<tau>) = Fin \<alpha>" "0 \<le> \<alpha>" "\<alpha> \<le> 1 - 1 / 2 ^ 51"
    using smoothing_bounds[OF assms(1,2), of \<tau>] assms(3) by auto
  obtain M where M: "max_rpm (motorctl_at d' m) = Fin M" "is_dbl (Fin M)" "0 < M" "M \<le> 10000"
    using assms(4) by (auto simp: motorctl_safe_def)
  have duty: "duty_ok (duty1 (motorctl_at d' m))" "duty_ok (duty2 (motorctl_at d' m))"
    using assms(4) by (simp_all add: motorctl_safe_def motorctl_wf_def)
  show ?thesis
    using assms(4) M motor_target[OF duty(1) M(2,3)] motor_target[OF duty(2) M(2,3)] al
    by (auto simp: motorctl_physics_at Let_def motorctl_safe_def motorctl_wf_def tau(1) intro: speed_ok_first_order[OF _ _ _ al(2,3)])
qed

inductive motorctl_step :: "'g lib \<Rightarrow> motorctl_states \<Rightarrow> motorctl_states \<Rightarrow> bool" for lib where
  init: "motorctl_init d c m = Inr m' \<Longrightarrow> (\<And>v. max_speed c = Some v \<Longrightarrow> is_dbl v \<and> v \<noteq> NaN) \<Longrightarrow> motorctl_step lib m m'"
| call: "wf_args as \<Longrightarrow> motorctl_step lib m (snd (motorctl_call_function d f as m))"
| physics: "0 \<le> t \<Longrightarrow> t \<le> 24 \<Longrightarrow> motorctl_step lib m (motorctl_update_physics lib d (Fin t) m)"
| reading: "motorctl_step lib m (snd (motorctl_read_signals reg ts d ids m))"

inductive motorctl_reachable :: "'g lib \<Rightarrow> motorctl_states \<Rightarrow> bool" for lib where
  start: "motorctl_reachable lib m_empty"
| step: "motorctl_reachable lib m \<Longrightarrow> motorctl_step lib m m' \<Longrightarrow> motorctl_reachable lib m'"

lemma motorctl_fresh_safe:
  "is_dbl (Fin M) \<Longrightarrow> 0 < M \<Longrightarrow> M \<le> 10000 \<Longrightarrow> motorctl_safe (motorctl_default\<lparr>max_rpm := Fin M\<rparr>)"
  by (simp add: motorctl_safe_def motorctl_wf_def duty_ok_def speed_ok_def motorctl_default_def)

lemma motorctl_default_safe: "motorctl_safe motorctl_default"
  using motorctl_fresh_safe[of 3200] is_dbl_int[of 3200] by (simp add: motorctl_default_def)

lemma speed_range_accepted: "\<not> dleq v (Fin 0) \<Longrightarrow> \<not> dless (Fin 10000) v \<Longrightarrow> v \<noteq> NaN \<Longrightarrow> \<exists>M. v = Fin M \<and> 0 < M \<and> M \<le> 10000"
  by (cases v) auto

lemma motorctl_init_at:
  "motorctl_init d c m = Inr m' \<Longrightarrow> motorctl_at d' m' =
     (if d' = d then (case max_speed c of None \<Rightarrow> motorctl_default | Some v \<Rightarrow> motorctl_default\<lparr>max_rpm := v\<rparr>)
      else motorctl_at d' m) \<and>
   (\<forall>v. max_speed c = Some v \<longrightarrow> \<not> dleq v (Fin 0) \<and> \<not> dless (Fin 10000) v)"
  by (auto simp: motorctl_init_def Let_def split: option.splits if_splits)

lemma motorctl_step_safe:
  "motorctl_step lib m m' \<Longrightarrow> exp_law lib \<Longrightarrow> motorctl_safe (motorctl_at d m) \<Longrightarrow> motorctl_safe (motorctl_at d m')"
proof (induction rule: motorctl_step.induct)
  case (init d' c m m')
  show ?case
  proof (cases "d = d'")
    case True
    show ?thesis
    proof (cases "max_speed c")
      case None
      with True init motorctl_init_at[OF init(1), of d] motorctl_default_safe show ?thesis by simp
    next
      case (Some v)
      with motorctl_init_at[OF init(1), of d] init(2)[OF Some] obtain M where "v = Fin M" "0 < M" "M \<le> 10000"
        using speed_range_accepted[of v] by auto
      with Some True motorctl_init_at[OF init(1), of d] init(2)[OF Some] motorctl_fresh_safe show ?thesis by simp
    qed
  qed (use init motorctl_init_at[OF init(1), of d] in simp)
next
  case (call as m d' f)
  then show ?case by (auto simp: motorctl_call_simps motorctl_safe_def motorctl_body)
next
  case (physics t m d')
  then show ?case by (simp add: motorctl_physics_safe)
qed (simp add: motorctl_read_signals_def motorctl_get_state Let_def)

section \<open>Properties\<close>

text \<open>C33. \<open>call_function\<close> of the motor controller succeeds exactly on calls that conform to the
  advertised capabilities (a motor index of 1 or 2 and a finite duty in \<open>[0, 1]\<close>), answers
  \<open>NOT_FOUND\<close> exactly on ids it does not advertise, and a call that is not accepted changes no
  device's state.\<close>

theorem motorctl_calls_accepted:
  "(cr_code (fst (motorctl_call_function d f as m)) = CODE_OK \<longleftrightarrow> call_conforms motorctl_get_capabilities f as) \<and>
   (cr_code (fst (motorctl_call_function d f as m)) = CODE_NOT_FOUND \<longleftrightarrow> f \<notin> set (function_ids motorctl_get_capabilities)) \<and>
   (cr_code (fst (motorctl_call_function d f as m)) \<noteq> CODE_OK \<longrightarrow>
      motorctl_at d' (snd (motorctl_call_function d f as m)) = motorctl_at d' m)"
  using motorctl_call_ok_iff[of d f as m] motorctl.call_not_found[of d f as m] motorctl.rejected_same_states[of d f as m]
  by (simp add: motorctl.same_states_def)

definition example_duty_args :: "double \<Rightarrow> args" where
  "example_duty_args d = m_put ''duty'' (make_double d) (m_put ''motor_index'' (make_int64 1) m_empty)"

theorem motorctl_calls_accepted_witness:
  "cr_code (fst (motorctl_call_function ''m'' kFnSetDuty (example_duty_args NaN) m_empty)) \<noteq> CODE_OK \<and>
   motorctl_at ''m'' (snd (motorctl_call_function ''m'' kFnSetDuty (example_duty_args NaN) m_empty)) = motorctl_default"
  using motorctl_calls_accepted[of "''m''" kFnSetDuty "example_duty_args NaN" m_empty "''m''"]
  by (simp add: motorctl_conforms_iff example_duty_args_def)

text \<open>Whatever sequence of initializations, calls, reads and physics ticks of any length up to 24
  seconds happens to the motor controllers, every speed is between zero and the device's maximum,
  which is positive and at most 10000, and every duty is in \<open>[0, 1]\<close>, provided no maximum
  speed was configured as NaN.\<close>

lemma motorctl_speeds_bounded:
  assumes "exp_law lib" and "motorctl_reachable lib m"
  shows "motorctl_safe (motorctl_at d m)"
  using assms(2) by (induction) (auto simp: motorctl_default_safe assms(1) intro: motorctl_step_safe)

lemma motorctl_speeds_bounded_example:
  "motorctl_safe (motorctl_at ''m'' (motorctl_update_physics ref_lib ''m'' (Fin (1 / 10))
     (snd (motorctl_call_function ''m'' kFnSetDuty (example_duty_args (Fin 1)) m_empty))))"
proof (rule motorctl_speeds_bounded[OF exp_law_ref])
  have "wf_args (example_duty_args (Fin 1))"
    using is_dbl_int[of 1] by (simp add: example_duty_args_def wf_args_put make_defs empty_value_def)
  then have "motorctl_reachable ref_lib (snd (motorctl_call_function ''m'' kFnSetDuty (example_duty_args (Fin 1)) m_empty))"
    by (rule motorctl_reachable.step[OF motorctl_reachable.start motorctl_step.call])
  then show "motorctl_reachable ref_lib (motorctl_update_physics ref_lib ''m'' (Fin (1 / 10))
      (snd (motorctl_call_function ''m'' kFnSetDuty (example_duty_args (Fin 1)) m_empty)))"
    by (rule motorctl_reachable.step[OF _ motorctl_step.physics]) auto
qed

text \<open>Initialization accepts a finite maximum speed exactly when it is positive and at most 10000,
  and then the motors stand still with that maximum. NaN passes both comparisons: the device is
  accepted and after one physics tick both reported speeds are NaN for good.\<close>

lemma motorctl_init_checks_speed:
  "(case motorctl_init d \<lparr>max_speed = Some (Fin v)\<rparr> m of
      Inl msg \<Rightarrow> v \<le> 0 \<or> 10000 < v
    | Inr m' \<Rightarrow> 0 < v \<and> v \<le> 10000 \<and>
        motorctl_at d' m' = (if d' = d
          then \<lparr>duty1 = Fin 0, duty2 = Fin 0, speed1 = Fin 0, speed2 = Fin 0, max_rpm = Fin v\<rparr>
          else motorctl_at d' m)) \<and>
   (\<exists>m'. motorctl_init d \<lparr>max_speed = Some NaN\<rparr> m = Inr m' \<and>
      map (double_value \<circ> sv_value) (fst (motorctl_read_signals None ts d []
        (motorctl_update_physics lib d dt m'))) = [NaN, NaN])"
proof -
  have nan: "first_order alpha NaN x = NaN" for alpha x
    by (cases alpha; cases x) (simp_all add: first_order_def dsub_def)
  have clamp0: "clamp (Fin 0) (Fin 0) (Fin 1) = Fin 0" by (simp add: clamp_inside)
  show ?thesis
    by (auto simp: motorctl_init_def Let_def motorctl_default_def motorctl_read_signals_def motorctl_get_state_unlocked_def
        motorctl_update_physics_def m_get_or_insert_def nan clamp0 motorctl_default_signals_def motorctl_read_one_def
        motorctl_known_signals_def motorctl_id_defs)
qed

end
