(* ===== verification/Relayio.thy ===== *)
theory Relayio
  imports Device_Module
begin

text \<open>
  \<open>src/devices/relayio/relayio_device.hpp\<close> and \<open>.cpp\<close>: four relay channels and four inputs
  that follow them at each tick, two of them inverted. Every function is one critical section of
  the module's mutex (\<open>read_signals\<close> copies the state under it).
\<close>

section \<open>State\<close>

definition kFnSetRelayCh1 :: uint32 where "kFnSetRelayCh1 = 1"
definition kFnSetRelayCh2 :: uint32 where "kFnSetRelayCh2 = 2"
definition kFnSetRelayCh3 :: uint32 where "kFnSetRelayCh3 = 3"
definition kFnSetRelayCh4 :: uint32 where "kFnSetRelayCh4 = 4"

definition kSigRelayCh1State :: string where "kSigRelayCh1State = ''relay_ch1_state''"
definition kSigRelayCh2State :: string where "kSigRelayCh2State = ''relay_ch2_state''"
definition kSigRelayCh3State :: string where "kSigRelayCh3State = ''relay_ch3_state''"
definition kSigRelayCh4State :: string where "kSigRelayCh4State = ''relay_ch4_state''"
definition kSigGpioInput1 :: string where "kSigGpioInput1 = ''gpio_input_1''"
definition kSigGpioInput2 :: string where "kSigGpioInput2 = ''gpio_input_2''"
definition kSigGpioInput3 :: string where "kSigGpioInput3 = ''gpio_input_3''"
definition kSigGpioInput4 :: string where "kSigGpioInput4 = ''gpio_input_4''"

lemmas relayio_fn_defs = kFnSetRelayCh1_def kFnSetRelayCh2_def kFnSetRelayCh3_def kFnSetRelayCh4_def
lemmas relayio_sig_defs = kSigRelayCh1State_def kSigRelayCh2State_def kSigRelayCh3State_def kSigRelayCh4State_def
  kSigGpioInput1_def kSigGpioInput2_def kSigGpioInput3_def kSigGpioInput4_def

record relayio_state =
  relay_ch1 :: bool
  relay_ch2 :: bool
  relay_ch3 :: bool
  relay_ch4 :: bool
  gpio_input_1 :: bool
  gpio_input_2 :: bool
  gpio_input_3 :: bool
  gpio_input_4 :: bool

definition relayio_default :: relayio_state where
  "relayio_default = \<lparr>relay_ch1 = False, relay_ch2 = False, relay_ch3 = False, relay_ch4 = False,
     gpio_input_1 = False, gpio_input_2 = False, gpio_input_3 = False, gpio_input_4 = False\<rparr>"

type_synonym relayio_states = "(string, relayio_state) smap"

definition relayio_get_state_unlocked :: "string \<Rightarrow> relayio_states \<Rightarrow> relayio_state \<times> relayio_states" where
  "relayio_get_state_unlocked device_id m = m_get_or_insert device_id relayio_default m"

abbreviation relayio_at :: "string \<Rightarrow> relayio_states \<Rightarrow> relayio_state" where
  "relayio_at \<equiv> m_at relayio_default"

section \<open>Initialization and physics\<close>

definition relayio_init :: "string \<Rightarrow> relayio_states \<Rightarrow> relayio_states" where
  "relayio_init device_id m = m_put device_id relayio_default m"

definition relayio_update_physics :: "string \<Rightarrow> double \<Rightarrow> relayio_states \<Rightarrow> relayio_states" where
  "relayio_update_physics device_id dt m =
    (let (s, m) = relayio_get_state_unlocked device_id m;
         s = s\<lparr>gpio_input_1 := relay_ch1 s\<rparr>;
         s = s\<lparr>gpio_input_2 := \<not> relay_ch2 s\<rparr>;
         s = s\<lparr>gpio_input_3 := relay_ch3 s\<rparr>;
         s = s\<lparr>gpio_input_4 := \<not> relay_ch4 s\<rparr>
     in m_put device_id s m)"

section \<open>Identity and capabilities\<close>

definition relayio_get_device_info :: "string \<Rightarrow> bool \<Rightarrow> device" where
  "relayio_get_device_info device_id include_health =
     \<lparr>d_device_id = device_id, d_provider_name = kProviderName, d_type_id = ''sim.relay_io_module'',
      d_type_version = ''1.0'', d_label = ''Sim Relay/IO Module (4 Relay + 4 GPIO)'',
      d_address = ''sim://'' @ device_id,
      d_tags = m_put ''kind'' ''relay_io'' (m_put ''family'' ''sim'' m_empty)\<rparr>"

definition relayio_get_capabilities :: capability_set where
  "relayio_get_capabilities = \<lparr>caps_signals =
    [mk_signal kSigRelayCh1State ''Relay Ch1 State'' ''Relay channel 1 state'' VALUE_TYPE_BOOL [] (Fin 1) 2000,
     mk_signal kSigRelayCh2State ''Relay Ch2 State'' ''Relay channel 2 state'' VALUE_TYPE_BOOL [] (Fin 1) 2000,
     mk_signal kSigRelayCh3State ''Relay Ch3 State'' ''Relay channel 3 state'' VALUE_TYPE_BOOL [] (Fin 1) 2000,
     mk_signal kSigRelayCh4State ''Relay Ch4 State'' ''Relay channel 4 state'' VALUE_TYPE_BOOL [] (Fin 1) 2000,
     mk_signal kSigGpioInput1 ''GPIO Input 1'' ''GPIO input channel 1'' VALUE_TYPE_BOOL [] (Fin 1) 2000,
     mk_signal kSigGpioInput2 ''GPIO Input 2'' ''GPIO input channel 2'' VALUE_TYPE_BOOL [] (Fin 1) 2000,
     mk_signal kSigGpioInput3 ''GPIO Input 3'' ''GPIO input channel 3'' VALUE_TYPE_BOOL [] (Fin 1) 2000,
     mk_signal kSigGpioInput4 ''GPIO Input 4'' ''GPIO input channel 4'' VALUE_TYPE_BOOL [] (Fin 1) 2000],
   caps_functions =
    [mk_function kFnSetRelayCh1 ''set_relay_ch1'' ''Set relay channel 1 state'' CATEGORY_ACTUATE
       [make_arg_spec ''enabled'' VALUE_TYPE_BOOL True ''Enable/disable relay channel 1'' []],
     mk_function kFnSetRelayCh2 ''set_relay_ch2'' ''Set relay channel 2 state'' CATEGORY_ACTUATE
       [make_arg_spec ''enabled'' VALUE_TYPE_BOOL True ''Enable/disable relay channel 2'' []],
     mk_function kFnSetRelayCh3 ''set_relay_ch3'' ''Set relay channel 3 state'' CATEGORY_ACTUATE
       [make_arg_spec ''enabled'' VALUE_TYPE_BOOL True ''Enable/disable relay channel 3'' []],
     mk_function kFnSetRelayCh4 ''set_relay_ch4'' ''Set relay channel 4 state'' CATEGORY_ACTUATE
       [make_arg_spec ''enabled'' VALUE_TYPE_BOOL True ''Enable/disable relay channel 4'' []]]\<rparr>"

section \<open>Reads\<close>

definition relayio_all_signals :: "string list" where
  "relayio_all_signals = [kSigRelayCh1State, kSigRelayCh2State, kSigRelayCh3State, kSigRelayCh4State,
     kSigGpioInput1, kSigGpioInput2, kSigGpioInput3, kSigGpioInput4]"

definition maybe_physics_bool :: "signal_registry option \<Rightarrow> string \<Rightarrow> string \<Rightarrow> bool option" where
  "maybe_physics_bool registry device_id sid =
     (case maybe_physics_value registry device_id sid of
        None \<Rightarrow> None
      | Some v \<Rightarrow> Some (dleq (Fin (1 / 2)) v))"

definition relayio_read_one ::
  "signal_registry option \<Rightarrow> int \<Rightarrow> string \<Rightarrow> relayio_state \<Rightarrow> string \<Rightarrow> signal_value list" where
  "relayio_read_one registry ts device_id snapshot sid =
    (if sid = kSigRelayCh1State then
       [make_signal_value ts sid (make_bool (value_or (maybe_physics_bool registry device_id sid) (relay_ch1 snapshot)))]
     else if sid = kSigRelayCh2State then
       [make_signal_value ts sid (make_bool (value_or (maybe_physics_bool registry device_id sid) (relay_ch2 snapshot)))]
     else if sid = kSigRelayCh3State then
       [make_signal_value ts sid (make_bool (value_or (maybe_physics_bool registry device_id sid) (relay_ch3 snapshot)))]
     else if sid = kSigRelayCh4State then
       [make_signal_value ts sid (make_bool (value_or (maybe_physics_bool registry device_id sid) (relay_ch4 snapshot)))]
     else if sid = kSigGpioInput1 then
       [make_signal_value ts sid (make_bool (value_or (maybe_physics_bool registry device_id sid) (gpio_input_1 snapshot)))]
     else if sid = kSigGpioInput2 then
       [make_signal_value ts sid (make_bool (value_or (maybe_physics_bool registry device_id sid) (gpio_input_2 snapshot)))]
     else if sid = kSigGpioInput3 then
       [make_signal_value ts sid (make_bool (value_or (maybe_physics_bool registry device_id sid) (gpio_input_3 snapshot)))]
     else if sid = kSigGpioInput4 then
       [make_signal_value ts sid (make_bool (value_or (maybe_physics_bool registry device_id sid) (gpio_input_4 snapshot)))]
     else [])"

definition relayio_read_signals ::
  "signal_registry option \<Rightarrow> int \<Rightarrow> string \<Rightarrow> string list \<Rightarrow> relayio_states \<Rightarrow> signal_value list \<times> relayio_states" where
  "relayio_read_signals registry ts device_id requested m =
    (let (snapshot, m) = relayio_get_state_unlocked device_id m;
         ids = (if requested = [] then relayio_all_signals else requested)
     in (concat (map (relayio_read_one registry ts device_id snapshot) ids), m))"

section \<open>Calls\<close>

definition relayio_bad_enabled :: call_result where
  "relayio_bad_enabled = bad (''missing or invalid '' @ [CHR 0x27] @ ''enabled'' @ [CHR 0x27] @ '' bool argument'')"

definition relayio_call_body :: "uint32 \<Rightarrow> args \<Rightarrow> relayio_state \<Rightarrow> call_result \<times> relayio_state" where
  "relayio_call_body function_id args s =
    (if function_id = kFnSetRelayCh1 then
       (case get_arg_bool args ''enabled'' of
          None \<Rightarrow> (relayio_bad_enabled, s)
        | Some enabled \<Rightarrow> (ok, s\<lparr>relay_ch1 := enabled\<rparr>))
     else if function_id = kFnSetRelayCh2 then
       (case get_arg_bool args ''enabled'' of
          None \<Rightarrow> (relayio_bad_enabled, s)
        | Some enabled \<Rightarrow> (ok, s\<lparr>relay_ch2 := enabled\<rparr>))
     else if function_id = kFnSetRelayCh3 then
       (case get_arg_bool args ''enabled'' of
          None \<Rightarrow> (relayio_bad_enabled, s)
        | Some enabled \<Rightarrow> (ok, s\<lparr>relay_ch3 := enabled\<rparr>))
     else if function_id = kFnSetRelayCh4 then
       (case get_arg_bool args ''enabled'' of
          None \<Rightarrow> (relayio_bad_enabled, s)
        | Some enabled \<Rightarrow> (ok, s\<lparr>relay_ch4 := enabled\<rparr>))
     else (nf ''unknown function_id'', s))"

definition relayio_call_function ::
  "string \<Rightarrow> uint32 \<Rightarrow> args \<Rightarrow> relayio_states \<Rightarrow> call_result \<times> relayio_states" where
  "relayio_call_function device_id function_id args m =
    (let (s, m) = relayio_get_state_unlocked device_id m;
         (result, s) = relayio_call_body function_id args s
     in (result, m_put device_id s m))"

section \<open>The module's contract\<close>

lemma relayio_get_state: "relayio_get_state_unlocked d m = (relayio_at d m, snd (m_get_or_insert d relayio_default m))"
  unfolding relayio_get_state_unlocked_def by (rule m_get_or_insert_at)

lemma relayio_call_fst: "fst (relayio_call_function d f as m) = fst (relayio_call_body f as (relayio_at d m))"
  by (simp add: relayio_call_function_def relayio_get_state split: prod.split)

lemma relayio_call_at: "relayio_at d' (snd (relayio_call_function d f as m)) =
    (if d' = d then snd (relayio_call_body f as (relayio_at d m)) else relayio_at d' m)"
  by (simp add: relayio_call_function_def relayio_get_state split: prod.split)

lemmas relayio_call_simps = relayio_call_fst relayio_call_at

lemma relayio_body_cases:
  assumes "relayio_call_body f as s = (r, s')"
  shows "cr_code r \<noteq> CODE_OK \<Longrightarrow> s' = s"
    and "cr_code r = CODE_NOT_FOUND \<longleftrightarrow> f \<notin> {kFnSetRelayCh1, kFnSetRelayCh2, kFnSetRelayCh3, kFnSetRelayCh4}"
proof -
  show "cr_code r \<noteq> CODE_OK \<Longrightarrow> s' = s"
    using assms unfolding relayio_call_body_def relayio_bad_enabled_def by (auto split: if_splits option.splits)
  show "cr_code r = CODE_NOT_FOUND \<longleftrightarrow> f \<notin> {kFnSetRelayCh1, kFnSetRelayCh2, kFnSetRelayCh3, kFnSetRelayCh4}"
    using assms unfolding relayio_call_body_def relayio_bad_enabled_def by (auto split: if_splits option.splits)
qed

lemmas relayio_body = relayio_body_cases[OF prod.collapse[symmetric]]

lemma relayio_function_ids:
  "function_ids relayio_get_capabilities = [kFnSetRelayCh1, kFnSetRelayCh2, kFnSetRelayCh3, kFnSetRelayCh4]"
  by (simp add: function_ids_def relayio_get_capabilities_def mk_function_def)

lemma relayio_conforms_iff:
  "call_conforms relayio_get_capabilities f args \<longleftrightarrow>
     f \<in> {kFnSetRelayCh1, kFnSetRelayCh2, kFnSetRelayCh3, kFnSetRelayCh4} \<and> get_arg_bool args ''enabled'' \<noteq> None"
  unfolding call_conforms_def relayio_get_capabilities_def
  by (auto simp: mk_function_def conforms_simps)

lemma relayio_call_ok_iff:
  "cr_code (fst (relayio_call_function d f as m)) = CODE_OK \<longleftrightarrow> call_conforms relayio_get_capabilities f as"
  unfolding relayio_call_simps relayio_call_body_def relayio_conforms_iff relayio_bad_enabled_def
  by (simp split: option.split)

lemma relayio_signal_ids: "signal_ids relayio_get_capabilities = relayio_all_signals"
  by (simp add: signal_ids_def relayio_get_capabilities_def mk_signal_def relayio_all_signals_def)

lemma relayio_read_one_known:
  "i \<in> set relayio_all_signals \<Longrightarrow> map sv_signal_id (relayio_read_one reg ts d s i) = [i]"
  unfolding relayio_all_signals_def relayio_read_one_def by (simp split del: if_split) (elim disjE; simp)

lemma relayio_read_one_unknown: "i \<notin> set relayio_all_signals \<Longrightarrow> relayio_read_one reg ts d s i = []"
  by (simp add: relayio_all_signals_def relayio_read_one_def)

lemma relayio_read_one_ids:
  "map sv_signal_id (relayio_read_one reg ts d s i) = (if i \<in> set (signal_ids relayio_get_capabilities) then [i] else [])"
  by (simp add: relayio_signal_ids relayio_read_one_known relayio_read_one_unknown)

lemma relayio_read_one_bool: "v \<in> set (relayio_read_one reg ts d s i) \<Longrightarrow>
    i \<in> set relayio_all_signals \<and> (\<exists>b. v = make_signal_value ts i (make_bool b))"
  unfolding relayio_read_one_def relayio_all_signals_def by (auto split: if_splits)

lemma relayio_bool_advertised:
  "i \<in> set relayio_all_signals \<Longrightarrow> advertised_value relayio_get_capabilities (make_signal_value ts i (make_bool b))"
  unfolding advertised_value_def relayio_all_signals_def relayio_get_capabilities_def
  by (auto simp: mk_signal_def)

interpretation relayio: device_module relayio_get_capabilities relayio_default relayio_all_signals "\<lambda>s. True"
  relayio_read_signals relayio_call_function
proof (unfold_locales, goal_cases)
  case (5 d f as m)
  then show ?case by (simp add: relayio_call_ok_iff)
next
  case (9 reg ts d ids m)
  show ?case
    by (simp add: relayio_read_signals_def relayio_get_state Let_def concat_map_singletons[OF relayio_read_one_ids])
next
  case (10 v reg ts d ids m)
  then show ?case
    by (auto simp: relayio_read_signals_def relayio_get_state Let_def dest!: relayio_read_one_bool intro: relayio_bool_advertised)
qed (auto simp: relayio_call_simps relayio_body relayio_function_ids relayio_read_signals_def relayio_get_state
    Let_def relayio_signal_ids)

section \<open>Property\<close>

definition relayio_fn :: "nat \<Rightarrow> uint32" where
  "relayio_fn n = [kFnSetRelayCh1, kFnSetRelayCh2, kFnSetRelayCh3, kFnSetRelayCh4] ! n"

lemma relayio_fn_sets:
  assumes "get_arg_bool as ''enabled'' = Some b"
  shows "relayio_call_body (relayio_fn 0) as s = (ok, s\<lparr>relay_ch1 := b\<rparr>)"
    and "relayio_call_body (relayio_fn (Suc 0)) as s = (ok, s\<lparr>relay_ch2 := b\<rparr>)"
    and "relayio_call_body (relayio_fn 2) as s = (ok, s\<lparr>relay_ch3 := b\<rparr>)"
    and "relayio_call_body (relayio_fn 3) as s = (ok, s\<lparr>relay_ch4 := b\<rparr>)"
  using assms by (simp_all add: relayio_call_body_def relayio_fn_def relayio_fn_defs)

text \<open>What a read of all signals reports when no physics drives them.\<close>

definition relayio_values :: "relayio_state \<Rightarrow> bool list" where
  "relayio_values s = [relay_ch1 s, relay_ch2 s, relay_ch3 s, relay_ch4 s,
     gpio_input_1 s, gpio_input_2 s, gpio_input_3 s, gpio_input_4 s]"

lemma relayio_read_values:
  "map (bool_value \<circ> sv_value) (fst (relayio_read_signals None ts d [] m)) = relayio_values (relayio_at d m)"
  by (simp add: relayio_read_signals_def relayio_get_state Let_def relayio_all_signals_def relayio_read_one_def
      maybe_physics_bool_def relayio_values_def relayio_sig_defs)

lemma relayio_physics_at: "relayio_at d (relayio_update_physics d dt m) =
    (let s = relayio_at d m in s\<lparr>gpio_input_1 := relay_ch1 s, gpio_input_2 := \<not> relay_ch2 s,
       gpio_input_3 := relay_ch3 s, gpio_input_4 := \<not> relay_ch4 s\<rparr>)"
  by (simp add: relayio_update_physics_def relayio_get_state Let_def)

text \<open>C35. After any history of calls to the relay module and a call that sets channel \<open>n\<close>, a tick makes the inputs
  follow the relays: a read of all signals reports the new relay state for the channel, and its
  input equal to it on channels 1 and 3 and inverted on channels 2 and 4; the other relays are as the history left them.\<close>

theorem relayio_inputs_follow_relays:
  assumes "n < 4" and "get_arg_bool as ''enabled'' = Some b"
    and "m' = relayio_update_physics d dt (snd (relayio_call_function d (relayio_fn n) as (relayio.run history m)))"
    and "relays = map (bool_value \<circ> sv_value) (fst (relayio_read_signals None ts d [] (relayio.run history m)))"
  shows "map (bool_value \<circ> sv_value) (fst (relayio_read_signals None ts d [] m')) =
    (let chs = (take 4 relays)[n := b] in chs @ [chs ! 0, \<not> chs ! 1, chs ! 2, \<not> chs ! 3])"
proof -
  from assms(1) consider "n = 0" | "n = 1" | "n = 2" | "n = 3" by linarith
  then show ?thesis
    by cases (simp_all add: relayio_read_values assms(3,4) relayio_physics_at relayio_call_at relayio_fn_sets[OF assms(2)]
        Let_def relayio_values_def)
qed

definition example_enabled_args :: "bool \<Rightarrow> args" where
  "example_enabled_args b = m_put ''enabled'' (make_bool b) m_empty"

theorem relayio_inputs_follow_relays_witness:
  "map (bool_value \<circ> sv_value) (fst (relayio_read_signals None 0 ''r'' []
     (relayio_update_physics ''r'' (Fin 1) (snd (relayio_call_function ''r'' (relayio_fn 1) (example_enabled_args True)
        (relayio.run [] m_empty)))))) = [False, True, False, False, False, False, False, True]"
proof -
  have "get_arg_bool (example_enabled_args True) ''enabled'' = Some True" by (simp add: example_enabled_args_def)
  from relayio_inputs_follow_relays[OF _ this refl refl, of 1 0 "''r''" "Fin 1" "[]" m_empty] show ?thesis
    by (simp add: relayio_read_values relayio_values_def relayio_default_def Let_def)
qed

end
