(* ===== verification/Analogsensor.thy ===== *)
theory Analogsensor
  imports Device_Module
begin

text \<open>
  \<open>src/devices/analogsensor/analogsensor_device.hpp\<close> and \<open>.cpp\<close>: four noisy voltage channels
  and a quality that degrades from GOOD over NOISY to FAULT. Every function is one critical section
  of the module's mutex. The random engine is part of the state; the normal distribution drawn from
  it is the parameter \<open>lib_normal\<close>.
\<close>

section \<open>State\<close>

definition kFnCalibrateChannel :: uint32 where "kFnCalibrateChannel = 1"
definition kFnInjectNoise :: uint32 where "kFnInjectNoise = 2"

definition kSigVoltageCh1 :: string where "kSigVoltageCh1 = ''voltage_ch1''"
definition kSigVoltageCh2 :: string where "kSigVoltageCh2 = ''voltage_ch2''"
definition kSigVoltageCh3 :: string where "kSigVoltageCh3 = ''voltage_ch3''"
definition kSigVoltageCh4 :: string where "kSigVoltageCh4 = ''voltage_ch4''"
definition kSigSensorQuality :: string where "kSigSensorQuality = ''sensor_quality''"

lemmas analogsensor_fn_defs = kFnCalibrateChannel_def kFnInjectNoise_def
lemmas analogsensor_sig_defs = kSigVoltageCh1_def kSigVoltageCh2_def kSigVoltageCh3_def kSigVoltageCh4_def
  kSigSensorQuality_def

record 'g analogsensor_state =
  voltage_ch1_base :: double
  voltage_ch2_base :: double
  voltage_ch3_base :: double
  voltage_ch4_base :: double
  drift_accumulator :: double
  noise_level :: double
  noise_enabled :: bool
  sensor_quality :: string
  quality_timer :: double
  sensor_rng :: 'g

definition analogsensor_default :: "'g lib \<Rightarrow> 'g analogsensor_state" where
  "analogsensor_default lib = \<lparr>voltage_ch1_base = Fin (5 / 2), voltage_ch2_base = Fin 5,
     voltage_ch3_base = Fin (15 / 2), voltage_ch4_base = fl (33 / 10), drift_accumulator = Fin 0,
     noise_level = fl (1 / 100), noise_enabled = False, sensor_quality = ''GOOD'', quality_timer = Fin 0,
     sensor_rng = lib_mt19937 lib 42\<rparr>"

type_synonym 'g analogsensor_states = "(string, 'g analogsensor_state) smap"

definition analogsensor_get_state_unlocked ::
  "'g lib \<Rightarrow> string \<Rightarrow> 'g analogsensor_states \<Rightarrow> 'g analogsensor_state \<times> 'g analogsensor_states" where
  "analogsensor_get_state_unlocked lib device_id m = m_get_or_insert device_id (analogsensor_default lib) m"

abbreviation analogsensor_at :: "'g lib \<Rightarrow> string \<Rightarrow> 'g analogsensor_states \<Rightarrow> 'g analogsensor_state" where
  "analogsensor_at lib \<equiv> m_at (analogsensor_default lib)"

section \<open>Initialization and physics\<close>

definition analogsensor_init :: "'g lib \<Rightarrow> string \<Rightarrow> 'g analogsensor_states \<Rightarrow> 'g analogsensor_states" where
  "analogsensor_init lib device_id m = m_put device_id (analogsensor_default lib) m"

definition analogsensor_tick :: "double \<Rightarrow> 'g analogsensor_state \<Rightarrow> 'g analogsensor_state" where
  "analogsensor_tick dt s =
    (let s = (if noise_enabled s
              then s\<lparr>drift_accumulator := dadd (drift_accumulator s) (dmul dt (fl (2 / 1000)))\<rparr> else s);
         s = s\<lparr>quality_timer := dadd (quality_timer s) dt\<rparr>;
         s = (if noise_enabled s
              then (if sensor_quality s = ''GOOD'' \<and> dless (Fin 30) (quality_timer s)
                    then s\<lparr>sensor_quality := ''NOISY''\<rparr>
                    else if sensor_quality s = ''NOISY'' \<and> dless (Fin 60) (quality_timer s)
                    then s\<lparr>sensor_quality := ''FAULT''\<rparr> else s)
              else s)
     in if sensor_quality s = ''GOOD'' then s\<lparr>noise_level := fl (1 / 100)\<rparr>
        else if sensor_quality s = ''NOISY'' then s\<lparr>noise_level := fl (5 / 100)\<rparr>
        else if sensor_quality s = ''FAULT'' then s\<lparr>noise_level := fl (2 / 10)\<rparr>
        else s)"

definition analogsensor_update_physics :: "'g lib \<Rightarrow> string \<Rightarrow> double \<Rightarrow> 'g analogsensor_states \<Rightarrow> 'g analogsensor_states" where
  "analogsensor_update_physics lib device_id dt m =
    (let (s, m) = analogsensor_get_state_unlocked lib device_id m
     in m_put device_id (analogsensor_tick dt s) m)"

definition get_noisy_reading :: "'g lib \<Rightarrow> 'g analogsensor_state \<Rightarrow> double \<Rightarrow> double \<times> 'g analogsensor_state" where
  "get_noisy_reading lib s base =
    (let (noise, g) = lib_normal lib (Fin 0) (noise_level s) (sensor_rng s);
         v = dadd (dadd base (drift_accumulator s)) noise
     in (clamp v (Fin 0) (Fin 10), s\<lparr>sensor_rng := g\<rparr>))"

section \<open>Identity and capabilities\<close>

definition analogsensor_get_device_info :: "string \<Rightarrow> bool \<Rightarrow> device" where
  "analogsensor_get_device_info device_id include_health =
     \<lparr>d_device_id = device_id, d_provider_name = kProviderName, d_type_id = ''sim.analog_sensor_module'',
      d_type_version = ''1.0'', d_label = ''Sim Analog Sensor Module (4 channels)'',
      d_address = ''sim://'' @ device_id,
      d_tags = m_put ''kind'' ''analog_input'' (m_put ''family'' ''sim'' m_empty)\<rparr>"

definition analogsensor_get_capabilities :: capability_set where
  "analogsensor_get_capabilities = \<lparr>caps_signals =
    [mk_signal kSigVoltageCh1 ''Voltage Ch1'' ''Analog input channel 1 voltage (0-10V)'' VALUE_TYPE_DOUBLE ''V'' (Fin 10) 500,
     mk_signal kSigVoltageCh2 ''Voltage Ch2'' ''Analog input channel 2 voltage (0-10V)'' VALUE_TYPE_DOUBLE ''V'' (Fin 10) 500,
     mk_signal kSigVoltageCh3 ''Voltage Ch3'' ''Analog input channel 3 voltage (0-10V)'' VALUE_TYPE_DOUBLE ''V'' (Fin 10) 500,
     mk_signal kSigVoltageCh4 ''Voltage Ch4'' ''Analog input channel 4 voltage (0-10V)'' VALUE_TYPE_DOUBLE ''V'' (Fin 10) 500,
     mk_signal kSigSensorQuality ''Sensor Quality'' ''Overall sensor quality: GOOD, NOISY, or FAULT''
       VALUE_TYPE_STRING [] (Fin (1 / 2)) 3000],
   caps_functions =
    [mk_function kFnCalibrateChannel ''calibrate_channel''
       ''Calibrate a specific analog input channel (requires GOOD quality)'' CATEGORY_CONFIG
       [(make_arg_spec ''channel'' VALUE_TYPE_INT64 True ''Channel index (1-4)'' [])
          \<lparr>arg_min_int64 := Some 1, arg_max_int64 := Some 4\<rparr>],
     mk_function kFnInjectNoise ''inject_noise'' ''Enable or disable simulated noise injection'' CATEGORY_CONFIG
       [make_arg_spec ''enabled'' VALUE_TYPE_BOOL True ''Enable/disable noise'' []]]\<rparr>"

section \<open>Reads\<close>

definition analogsensor_all_signals :: "string list" where
  "analogsensor_all_signals = [kSigVoltageCh1, kSigVoltageCh2, kSigVoltageCh3, kSigVoltageCh4, kSigSensorQuality]"

text \<open>
  The argument of \<open>value_or\<close> is evaluated whether or not the physics drives the channel, so the
  random engine moves in either case.
\<close>

definition analogsensor_read_channel ::
  "'g lib \<Rightarrow> signal_registry option \<Rightarrow> int \<Rightarrow> string \<Rightarrow> string \<Rightarrow> double \<Rightarrow> 'g analogsensor_state \<Rightarrow>
   signal_value list \<times> 'g analogsensor_state" where
  "analogsensor_read_channel lib registry ts device_id sid base s =
    (let (noisy, s) = get_noisy_reading lib s base;
         v = value_or (maybe_physics_value registry device_id sid) noisy
     in ([make_signal_value ts sid (make_double v)], s))"

definition analogsensor_read_one ::
  "'g lib \<Rightarrow> signal_registry option \<Rightarrow> int \<Rightarrow> string \<Rightarrow> string \<Rightarrow> 'g analogsensor_state \<Rightarrow>
   signal_value list \<times> 'g analogsensor_state" where
  "analogsensor_read_one lib registry ts device_id sid s =
    (if sid = kSigVoltageCh1 then analogsensor_read_channel lib registry ts device_id sid (voltage_ch1_base s) s
     else if sid = kSigVoltageCh2 then analogsensor_read_channel lib registry ts device_id sid (voltage_ch2_base s) s
     else if sid = kSigVoltageCh3 then analogsensor_read_channel lib registry ts device_id sid (voltage_ch3_base s) s
     else if sid = kSigVoltageCh4 then analogsensor_read_channel lib registry ts device_id sid (voltage_ch4_base s) s
     else if sid = kSigSensorQuality then ([make_signal_value ts sid (make_string (sensor_quality s))], s)
     else ([], s))"

primrec analogsensor_read_loop ::
  "'g lib \<Rightarrow> signal_registry option \<Rightarrow> int \<Rightarrow> string \<Rightarrow> string list \<Rightarrow> 'g analogsensor_state \<Rightarrow>
   signal_value list \<times> 'g analogsensor_state" where
  "analogsensor_read_loop lib registry ts device_id [] s = ([], s)"
| "analogsensor_read_loop lib registry ts device_id (sid # ids) s =
    (let (vs, s) = analogsensor_read_one lib registry ts device_id sid s;
         (rest, s) = analogsensor_read_loop lib registry ts device_id ids s
     in (vs @ rest, s))"

definition analogsensor_read_signals ::
  "'g lib \<Rightarrow> signal_registry option \<Rightarrow> int \<Rightarrow> string \<Rightarrow> string list \<Rightarrow> 'g analogsensor_states \<Rightarrow>
   signal_value list \<times> 'g analogsensor_states" where
  "analogsensor_read_signals lib registry ts device_id requested m =
    (let (s, m) = analogsensor_get_state_unlocked lib device_id m;
         ids = (if requested = [] then analogsensor_all_signals else requested);
         (out, s) = analogsensor_read_loop lib registry ts device_id ids s
     in (out, m_put device_id s m))"

section \<open>Calls\<close>

definition analogsensor_call_body ::
  "uint32 \<Rightarrow> args \<Rightarrow> 'g analogsensor_state \<Rightarrow> call_result \<times> 'g analogsensor_state" where
  "analogsensor_call_body function_id args s =
    (if function_id = kFnCalibrateChannel then
       (if sensor_quality s \<noteq> ''GOOD'' then (precond ''calibrate_channel requires sensor_quality == GOOD'', s)
        else
       (case get_arg_int64 args ''channel'' of
          None \<Rightarrow> (bad (''missing or invalid '' @ [CHR 0x27] @ ''channel'' @ [CHR 0x27] @ '' int64 argument''), s)
        | Some channel \<Rightarrow>
            if sint channel < 1 \<or> 4 < sint channel then (out_of_range ''channel must be 1-4'', s)
            else (ok, s\<lparr>drift_accumulator := Fin 0, quality_timer := Fin 0\<rparr>)))
     else if function_id = kFnInjectNoise then
       (case get_arg_bool args ''enabled'' of
          None \<Rightarrow> (bad (''missing or invalid '' @ [CHR 0x27] @ ''enabled'' @ [CHR 0x27] @ '' bool argument''), s)
        | Some enabled \<Rightarrow>
            let s = s\<lparr>noise_enabled := enabled\<rparr> in
            if \<not> enabled
            then (ok, s\<lparr>sensor_quality := ''GOOD'', quality_timer := Fin 0, drift_accumulator := Fin 0\<rparr>)
            else (ok, s))
     else (nf ''unknown function_id'', s))"

definition analogsensor_call_function ::
  "'g lib \<Rightarrow> string \<Rightarrow> uint32 \<Rightarrow> args \<Rightarrow> 'g analogsensor_states \<Rightarrow> call_result \<times> 'g analogsensor_states" where
  "analogsensor_call_function lib device_id function_id args m =
    (let (s, m) = analogsensor_get_state_unlocked lib device_id m;
         (result, s) = analogsensor_call_body function_id args s
     in (result, m_put device_id s m))"

section \<open>The module's contract\<close>

lemma analogsensor_get_state: "analogsensor_get_state_unlocked lib d m =
    (analogsensor_at lib d m, snd (m_get_or_insert d (analogsensor_default lib) m))"
  unfolding analogsensor_get_state_unlocked_def by (rule m_get_or_insert_at)

lemma analogsensor_call_fst: "fst (analogsensor_call_function lib d f as m) = fst (analogsensor_call_body f as (analogsensor_at lib d m))"
  by (simp add: analogsensor_call_function_def analogsensor_get_state split: prod.split)

lemma analogsensor_call_at: "analogsensor_at lib d' (snd (analogsensor_call_function lib d f as m)) =
    (if d' = d then snd (analogsensor_call_body f as (analogsensor_at lib d m)) else analogsensor_at lib d' m)"
  by (simp add: analogsensor_call_function_def analogsensor_get_state split: prod.split)

lemmas analogsensor_call_simps = analogsensor_call_fst analogsensor_call_at

lemma analogsensor_physics_at: "analogsensor_at lib d' (analogsensor_update_physics lib d dt m) =
    (if d' = d then analogsensor_tick dt (analogsensor_at lib d m) else analogsensor_at lib d' m)"
  by (simp add: analogsensor_update_physics_def analogsensor_get_state)

text \<open>The quality is one of three strings; its rank orders them by how bad they are.\<close>

definition quality_rank :: "'g analogsensor_state \<Rightarrow> nat" where
  "quality_rank s = (if sensor_quality s = ''GOOD'' then 0 else if sensor_quality s = ''NOISY'' then 1
     else if sensor_quality s = ''FAULT'' then 2 else 3)"

lemma quality_rank_rng [simp]: "quality_rank (s\<lparr>sensor_rng := g\<rparr>) = quality_rank s"
  by (simp add: quality_rank_def)

definition analogsensor_wf :: "'g analogsensor_state \<Rightarrow> bool" where
  "analogsensor_wf s \<longleftrightarrow> quality_rank s < 3"

lemma analogsensor_default_wf [simp]: "analogsensor_wf (analogsensor_default lib)"
  by (simp add: analogsensor_wf_def quality_rank_def analogsensor_default_def)

lemma analogsensor_body_cases:
  assumes "analogsensor_call_body f as s = (r, s')"
  shows "cr_code r \<noteq> CODE_OK \<Longrightarrow> s' = s"
    and "cr_code r = CODE_NOT_FOUND \<longleftrightarrow> f \<notin> {kFnCalibrateChannel, kFnInjectNoise}"
    and "analogsensor_wf s \<Longrightarrow> analogsensor_wf s'"
    and "quality_rank s' = quality_rank s \<or>
      (quality_rank s' = 0 \<and> f = kFnInjectNoise \<and> get_arg_bool as ''enabled'' = Some False)"
proof -
  show "cr_code r \<noteq> CODE_OK \<Longrightarrow> s' = s"
    using assms unfolding analogsensor_call_body_def by (auto simp: Let_def split: if_splits option.splits)
  show "cr_code r = CODE_NOT_FOUND \<longleftrightarrow> f \<notin> {kFnCalibrateChannel, kFnInjectNoise}"
    using assms unfolding analogsensor_call_body_def by (auto simp: Let_def split: if_splits option.splits)
  show "quality_rank s' = quality_rank s \<or>
      (quality_rank s' = 0 \<and> f = kFnInjectNoise \<and> get_arg_bool as ''enabled'' = Some False)"
    using assms unfolding analogsensor_call_body_def
    by (auto simp: Let_def quality_rank_def split: if_splits option.splits)
  then show "analogsensor_wf s \<Longrightarrow> analogsensor_wf s'" by (auto simp: analogsensor_wf_def)
qed

lemmas analogsensor_body = analogsensor_body_cases[OF prod.collapse[symmetric]]

lemma analogsensor_function_ids: "function_ids analogsensor_get_capabilities = [kFnCalibrateChannel, kFnInjectNoise]"
  by (simp add: function_ids_def analogsensor_get_capabilities_def mk_function_def)

lemma analogsensor_conforms_iff:
  "call_conforms analogsensor_get_capabilities f args \<longleftrightarrow>
     (f = kFnCalibrateChannel \<and> (\<exists>i. get_arg_int64 args ''channel'' = Some i \<and> 1 \<le> sint i \<and> sint i \<le> 4)) \<or>
     (f = kFnInjectNoise \<and> get_arg_bool args ''enabled'' \<noteq> None)"
  unfolding call_conforms_def analogsensor_get_capabilities_def
  by (auto simp: mk_function_def conforms_simps)

lemma analogsensor_call_ok_iff:
  "cr_code (fst (analogsensor_call_function lib d f as m)) = CODE_OK \<longleftrightarrow>
     call_conforms analogsensor_get_capabilities f as \<and>
     (f = kFnCalibrateChannel \<longrightarrow> sensor_quality (analogsensor_at lib d m) = ''GOOD'')"
  unfolding analogsensor_call_simps analogsensor_call_body_def analogsensor_conforms_iff analogsensor_fn_defs
  by (simp add: Let_def not_less split: option.split)

lemma analogsensor_signal_ids: "signal_ids analogsensor_get_capabilities = analogsensor_all_signals"
  by (simp add: signal_ids_def analogsensor_get_capabilities_def mk_signal_def analogsensor_all_signals_def)

text \<open>A reading of a channel is in the range of the converter, whatever the noise.\<close>

lemma noisy_reading_range: "\<exists>q. fst (get_noisy_reading lib s base) = Fin q \<and> 0 \<le> q \<and> q \<le> 10"
  using clamp_range[of 0 10] by (auto simp: get_noisy_reading_def split: prod.split)

lemma noisy_reading_state: "snd (get_noisy_reading lib s base) = s\<lparr>sensor_rng := sensor_rng (snd (get_noisy_reading lib s base))\<rparr>"
  by (simp add: get_noisy_reading_def split: prod.split)

definition reading_ok :: "signal_registry option \<Rightarrow> string \<Rightarrow> signal_value \<Rightarrow> bool" where
  "reading_ok reg d v \<longleftrightarrow> v_type (sv_value v) = VALUE_TYPE_DOUBLE \<longrightarrow>
     maybe_physics_value reg d (sv_signal_id v) = None \<longrightarrow>
     (\<exists>q. double_value (sv_value v) = Fin q \<and> 0 \<le> q \<and> q \<le> 10)"

definition one_read :: "signal_registry option \<Rightarrow> string \<Rightarrow> string \<Rightarrow> signal_value list \<times> 'g analogsensor_state \<Rightarrow>
    'g analogsensor_state \<Rightarrow> bool" where
  "one_read reg d sid r s \<longleftrightarrow>
     map sv_signal_id (fst r) = (if sid \<in> set analogsensor_all_signals then [sid] else []) \<and>
     (\<forall>v \<in> set (fst r). advertised_value analogsensor_get_capabilities v \<and> reading_ok reg d v) \<and>
     snd r = s\<lparr>sensor_rng := sensor_rng (snd r)\<rparr>"

lemma read_channel_one:
  assumes "sid \<in> {kSigVoltageCh1, kSigVoltageCh2, kSigVoltageCh3, kSigVoltageCh4}"
  shows "one_read reg d sid (analogsensor_read_channel lib reg ts d sid base s) s"
proof -
  have "sid \<in> set analogsensor_all_signals" using assms by (auto simp: analogsensor_all_signals_def)
  moreover have "advertised_value analogsensor_get_capabilities (make_signal_value ts sid (make_double v))" for v
    using assms by (auto simp: advertised_value_def analogsensor_get_capabilities_def mk_signal_def)
  moreover have "reading_ok reg d (make_signal_value ts sid (make_double
      (value_or (maybe_physics_value reg d sid) (fst (get_noisy_reading lib s base)))))"
    using noisy_reading_range[of lib s base] by (auto simp: reading_ok_def)
  ultimately show ?thesis
    using noisy_reading_state[of lib s base]
    by (cases "get_noisy_reading lib s base") (simp add: one_read_def analogsensor_read_channel_def)
qed

lemma read_one_one: "one_read reg d sid (analogsensor_read_one lib reg ts d sid s) s"
proof (cases "sid \<in> {kSigVoltageCh1, kSigVoltageCh2, kSigVoltageCh3, kSigVoltageCh4}")
  case True
  have "\<exists>base. analogsensor_read_one lib reg ts d sid s = analogsensor_read_channel lib reg ts d sid base s"
    using True by (auto simp: analogsensor_read_one_def)
  with read_channel_one[OF True, of reg d lib ts _ s] show ?thesis by auto
next
  case False
  have "advertised_value analogsensor_get_capabilities (make_signal_value ts kSigSensorQuality (make_string v))" for v
    by (simp add: advertised_value_def analogsensor_get_capabilities_def mk_signal_def)
  with False show ?thesis
    by (simp add: one_read_def analogsensor_read_one_def reading_ok_def analogsensor_all_signals_def)
qed

lemma read_loop_all:
  "map sv_signal_id (fst (analogsensor_read_loop lib reg ts d ids s)) = filter (\<lambda>i. i \<in> set analogsensor_all_signals) ids \<and>
   (\<forall>v \<in> set (fst (analogsensor_read_loop lib reg ts d ids s)).
      advertised_value analogsensor_get_capabilities v \<and> reading_ok reg d v) \<and>
   (\<exists>g. snd (analogsensor_read_loop lib reg ts d ids s) = s\<lparr>sensor_rng := g\<rparr>)"
proof (induction ids arbitrary: s)
  case Nil
  have "\<exists>g. s = s\<lparr>sensor_rng := g\<rparr>" by (rule exI[of _ "sensor_rng s"]) simp
  then show ?case by simp
next
  case (Cons i ids)
  obtain vs s1 where r: "analogsensor_read_one lib reg ts d i s = (vs, s1)" by fastforce
  have "s1 = s\<lparr>sensor_rng := sensor_rng s1\<rparr>" and "map sv_signal_id vs = (if i \<in> set analogsensor_all_signals then [i] else [])"
    and "\<forall>v \<in> set vs. advertised_value analogsensor_get_capabilities v \<and> reading_ok reg d v"
    using read_one_one[of reg d i lib ts s] by (simp_all add: r one_read_def)
  moreover from this(1) have "\<exists>g'. s1\<lparr>sensor_rng := g\<rparr> = s\<lparr>sensor_rng := g'\<rparr>" for g
    by (intro exI[of _ g]) (metis analogsensor_state.surjective analogsensor_state.update_convs(10))
  ultimately show ?case
    using Cons.IH[of s1] by (auto simp: r split: prod.split)
qed

lemma analogsensor_read_at: "analogsensor_at lib d' (snd (analogsensor_read_signals lib reg ts d ids m)) =
    (if d' = d then snd (analogsensor_read_loop lib reg ts d (if ids = [] then analogsensor_all_signals else ids) (analogsensor_at lib d m))
     else analogsensor_at lib d' m)"
  by (simp add: analogsensor_read_signals_def analogsensor_get_state Let_def split: prod.split)

lemma analogsensor_read_fst: "fst (analogsensor_read_signals lib reg ts d ids m) =
    fst (analogsensor_read_loop lib reg ts d (if ids = [] then analogsensor_all_signals else ids) (analogsensor_at lib d m))"
  by (simp add: analogsensor_read_signals_def analogsensor_get_state Let_def split: prod.split)

interpretation analogsensor: device_module analogsensor_get_capabilities "analogsensor_default lib" analogsensor_all_signals
  analogsensor_wf "analogsensor_read_signals lib" "analogsensor_call_function lib" for lib
proof (unfold_locales, goal_cases)
  case (5 d f as m)
  then show ?case by (simp add: analogsensor_call_ok_iff)
next
  case (8 d m reg ts ids)
  then show ?case
    using read_loop_all[of lib reg ts d "if ids = [] then analogsensor_all_signals else ids" "analogsensor_at lib d m"]
    by (auto simp: analogsensor_read_at analogsensor_wf_def quality_rank_rng)
next
  case (9 reg ts d ids m)
  show ?case unfolding analogsensor_read_fst analogsensor_signal_ids
    using read_loop_all[of lib reg ts d "if ids = [] then analogsensor_all_signals else ids"] by blast
next
  case (10 v reg ts d ids m)
  then show ?case unfolding analogsensor_read_fst
    using read_loop_all[of lib reg ts d "if ids = [] then analogsensor_all_signals else ids"] by blast
qed (auto simp: analogsensor_call_simps analogsensor_body analogsensor_function_ids analogsensor_read_at
    analogsensor_signal_ids)

section \<open>Quality over time\<close>

lemma tick_rank: "quality_rank (analogsensor_tick dt s) =
    (if noise_enabled s \<and> sensor_quality s = ''GOOD'' \<and> dless (Fin 30) (dadd (quality_timer s) dt) then 1
     else if noise_enabled s \<and> sensor_quality s = ''NOISY'' \<and> dless (Fin 60) (dadd (quality_timer s) dt) then 2
     else quality_rank s)"
  by (auto simp: analogsensor_tick_def Let_def quality_rank_def)

lemma tick_degrades:
  "quality_rank (analogsensor_tick dt s) = quality_rank s \<or>
   (quality_rank (analogsensor_tick dt s) = Suc (quality_rank s) \<and> noise_enabled s \<and>
      dless (if quality_rank s = 0 then Fin 30 else Fin 60) (dadd (quality_timer s) dt))"
  unfolding tick_rank by (auto simp: quality_rank_def)

lemma tick_fields [simp]:
  "noise_enabled (analogsensor_tick dt s) = noise_enabled s"
  "quality_timer (analogsensor_tick dt s) = dadd (quality_timer s) dt"
  by (simp_all add: analogsensor_tick_def Let_def)

text \<open>What can happen to a sensor, one operation at a time.\<close>

inductive sensor_step :: "'g lib \<Rightarrow> string \<Rightarrow> 'g analogsensor_states \<Rightarrow> 'g analogsensor_states \<Rightarrow> bool" for lib d where
  init: "sensor_step lib d m (analogsensor_init lib d m)"
| call: "sensor_step lib d m (snd (analogsensor_call_function lib d f as m))"
| physics: "sensor_step lib d m (analogsensor_update_physics lib d dt m)"
| reading: "sensor_step lib d m (snd (analogsensor_read_signals lib reg ts d ids m))"

inductive_cases sensor_stepE: "sensor_step lib d m m'"

inductive sensor_reachable :: "'g lib \<Rightarrow> string \<Rightarrow> 'g analogsensor_states \<Rightarrow> bool" for lib d where
  start: "sensor_reachable lib d m_empty"
| step: "sensor_reachable lib d m \<Longrightarrow> sensor_step lib d m m' \<Longrightarrow> sensor_reachable lib d m'"

lemma sensor_step_wf: "sensor_step lib d m m' \<Longrightarrow> analogsensor_wf (analogsensor_at lib d m) \<Longrightarrow> analogsensor_wf (analogsensor_at lib d m')"
proof (erule sensor_stepE, goal_cases)
  case (3 dt)
  then show ?case by (simp add: analogsensor_wf_def analogsensor_physics_at tick_rank)
qed (auto simp: analogsensor_init_def analogsensor.call_wf analogsensor_call_simps analogsensor_body analogsensor.read_wf)

lemma sensor_reachable_wf: "sensor_reachable lib d m \<Longrightarrow> analogsensor_wf (analogsensor_at lib d m)"
  by (induction rule: sensor_reachable.induct) (auto intro: sensor_step_wf)

section \<open>Properties\<close>

text \<open>C24. The quality of a sensor is a state machine over GOOD, NOISY and FAULT: in every reachable
  state it is one of the three, and a step worsens it by at most one level, does so only in a
  physics tick, with the noise enabled and the timer past 30 (to NOISY) or 60 seconds (to FAULT),
  and improves it only by going back to GOOD, in an initialization or an \<open>inject_noise\<close> call
  with \<open>enabled\<close> false.\<close>

theorem analogsensor_quality_machine:
  assumes "sensor_reachable lib d m" and "sensor_step lib d m m'"
    and "s = analogsensor_at lib d m" and "s' = analogsensor_at lib d m'"
  shows "sensor_quality s \<in> {''GOOD'', ''NOISY'', ''FAULT''} \<and>
    (quality_rank s' = quality_rank s \<or>
     (quality_rank s' = Suc (quality_rank s) \<and> noise_enabled s \<and>
        (\<exists>dt. m' = analogsensor_update_physics lib d dt m \<and>
          dless (if quality_rank s = 0 then Fin 30 else Fin 60) (dadd (quality_timer s) dt))) \<or>
     (quality_rank s' = 0 \<and>
        (m' = analogsensor_init lib d m \<or>
         (\<exists>as. get_arg_bool as ''enabled'' = Some False \<and>
            m' = snd (analogsensor_call_function lib d kFnInjectNoise as m)))))"
proof (rule conjI)
  show "sensor_quality s \<in> {''GOOD'', ''NOISY'', ''FAULT''}"
    using sensor_reachable_wf[OF assms(1)] assms(3) by (auto simp: analogsensor_wf_def quality_rank_def split: if_splits)
  from assms(2) show "quality_rank s' = quality_rank s \<or>
     (quality_rank s' = Suc (quality_rank s) \<and> noise_enabled s \<and>
        (\<exists>dt. m' = analogsensor_update_physics lib d dt m \<and>
          dless (if quality_rank s = 0 then Fin 30 else Fin 60) (dadd (quality_timer s) dt))) \<or>
     (quality_rank s' = 0 \<and>
        (m' = analogsensor_init lib d m \<or>
         (\<exists>as. get_arg_bool as ''enabled'' = Some False \<and>
            m' = snd (analogsensor_call_function lib d kFnInjectNoise as m))))"
  proof cases
    case init
    then show ?thesis by (simp add: assms(4) analogsensor_init_def analogsensor_default_def quality_rank_def)
  next
    case (call f as)
    then show ?thesis using analogsensor_body(4)[of f as s] assms(3,4) by (auto simp: analogsensor_call_simps)
  next
    case (physics dt)
    then show ?thesis using assms(3,4) tick_degrades[of dt s] by (auto simp: analogsensor_physics_at)
  next
    case (reading reg ts ids)
    then show ?thesis
      using read_loop_all[of lib reg ts d "if ids = [] then analogsensor_all_signals else ids" s] assms(3,4)
      by (auto simp: analogsensor_read_at)
  qed
qed

theorem analogsensor_quality_machine_witness:
  "sensor_quality (analogsensor_at ref_lib ''a'' m_empty) \<in> {''GOOD'', ''NOISY'', ''FAULT''}"
  using analogsensor_quality_machine[OF sensor_reachable.start sensor_step.physics refl refl, of ref_lib "''a''" "Fin 1"] by blast

text \<open>C25. A voltage the sensor reports for a channel that no physics drives is a number between 0 and
  10, whatever the noise, the drift and the random engine are, infinities and NaN included; a read
  returns the known ids it was asked for, in order, and changes nothing but the random engine.\<close>

theorem analogsensor_readings_in_range:
  "map sv_signal_id (fst (analogsensor_read_signals lib reg ts d ids m)) =
      filter (\<lambda>i. i \<in> set analogsensor_all_signals) (if ids = [] then analogsensor_all_signals else ids) \<and>
   (\<forall>v \<in> set (fst (analogsensor_read_signals lib reg ts d ids m)).
      v_type (sv_value v) = VALUE_TYPE_DOUBLE \<longrightarrow> maybe_physics_value reg d (sv_signal_id v) = None \<longrightarrow>
      (\<exists>q. double_value (sv_value v) = Fin q \<and> 0 \<le> q \<and> q \<le> 10)) \<and>
   (\<exists>g. analogsensor_at lib d' (snd (analogsensor_read_signals lib reg ts d ids m)) =
      (analogsensor_at lib d' m)\<lparr>sensor_rng := g\<rparr>)"
proof -
  note all = read_loop_all[of lib reg ts d "if ids = [] then analogsensor_all_signals else ids" "analogsensor_at lib d m"]
  have "\<exists>g. analogsensor_at lib d' m = (analogsensor_at lib d' m)\<lparr>sensor_rng := g\<rparr>"
    by (rule exI[of _ "sensor_rng (analogsensor_at lib d' m)"]) simp
  with all show ?thesis
    unfolding analogsensor_read_fst analogsensor_read_at by (auto simp: reading_ok_def)
qed

theorem analogsensor_readings_in_range_witness:
  "\<exists>v q. fst (analogsensor_read_signals (ref_lib\<lparr>lib_normal := (\<lambda>m s g. (NaN, g))\<rparr>) None 0 ''a'' [kSigVoltageCh1] m_empty) = [v] \<and>
     double_value (sv_value v) = Fin q \<and> 0 \<le> q \<and> q \<le> 10"
proof -
  let ?vs = "fst (analogsensor_read_signals (ref_lib\<lparr>lib_normal := (\<lambda>m s g. (NaN, g))\<rparr>) None 0 ''a'' [kSigVoltageCh1] m_empty)"
  note C = analogsensor_readings_in_range[where lib = "ref_lib\<lparr>lib_normal := (\<lambda>m s g. (NaN, g))\<rparr>" and reg = None and ts = 0
      and d = "''a''" and ids = "[kSigVoltageCh1]" and m = m_empty]
  have "map sv_signal_id ?vs = [kSigVoltageCh1]"
    using C by (simp add: analogsensor_all_signals_def)
  then obtain v where v: "?vs = [v]" by (auto simp: map_eq_Cons_conv)
  then have "v_type (sv_value v) = VALUE_TYPE_DOUBLE"
    by (auto simp: analogsensor_read_fst analogsensor_read_one_def analogsensor_read_channel_def split: prod.splits)
  with v C show ?thesis by auto
qed

text \<open>C34. \<open>call_function\<close> of the sensor succeeds exactly on calls that conform to the advertised
  capabilities, with, for \<open>calibrate_channel\<close>, the quality GOOD; it answers \<open>NOT_FOUND\<close>
  exactly on ids it does not advertise, and a call that is not accepted changes no device's
  state. An accepted calibration sets drift and timer to zero and nothing else; switching the
  noise off also makes the quality GOOD, but leaves the noise level as it was until the next
  tick.\<close>

theorem analogsensor_calls_accepted:
  "(cr_code (fst (analogsensor_call_function lib d f as m)) = CODE_OK \<longleftrightarrow>
      call_conforms analogsensor_get_capabilities f as \<and>
      (f = kFnCalibrateChannel \<longrightarrow> sensor_quality (analogsensor_at lib d m) = ''GOOD'')) \<and>
   (cr_code (fst (analogsensor_call_function lib d f as m)) = CODE_NOT_FOUND \<longleftrightarrow> f \<notin> set (function_ids analogsensor_get_capabilities)) \<and>
   analogsensor_at lib d (snd (analogsensor_call_function lib d f as m)) =
     (let s = analogsensor_at lib d m in
      if cr_code (fst (analogsensor_call_function lib d f as m)) \<noteq> CODE_OK then s
      else if f = kFnCalibrateChannel then s\<lparr>drift_accumulator := Fin 0, quality_timer := Fin 0\<rparr>
      else if get_arg_bool as ''enabled'' = Some True then s\<lparr>noise_enabled := True\<rparr>
      else s\<lparr>noise_enabled := False, sensor_quality := ''GOOD'', quality_timer := Fin 0, drift_accumulator := Fin 0\<rparr>)"
proof (intro conjI)
  show "analogsensor_at lib d (snd (analogsensor_call_function lib d f as m)) =
     (let s = analogsensor_at lib d m in
      if cr_code (fst (analogsensor_call_function lib d f as m)) \<noteq> CODE_OK then s
      else if f = kFnCalibrateChannel then s\<lparr>drift_accumulator := Fin 0, quality_timer := Fin 0\<rparr>
      else if get_arg_bool as ''enabled'' = Some True then s\<lparr>noise_enabled := True\<rparr>
      else s\<lparr>noise_enabled := False, sensor_quality := ''GOOD'', quality_timer := Fin 0, drift_accumulator := Fin 0\<rparr>)"
    unfolding analogsensor_call_simps analogsensor_call_body_def Let_def by (simp split: option.split)
qed (simp_all add: analogsensor_call_ok_iff analogsensor.call_not_found)

definition example_channel_args :: "int64 \<Rightarrow> args" where
  "example_channel_args n = m_put ''channel'' (make_int64 n) m_empty"

theorem analogsensor_calls_accepted_witness:
  "cr_code (fst (analogsensor_call_function ref_lib ''a'' kFnCalibrateChannel (example_channel_args 4) m_empty)) = CODE_OK"
  using analogsensor_calls_accepted[of ref_lib "''a''" kFnCalibrateChannel "example_channel_args 4" m_empty]
  by (simp add: analogsensor_conforms_iff example_channel_args_def analogsensor_default_def)

text \<open>The timer that drives the degradation also counts while the noise is off. A sensor that has
  been quiet for more than a minute since it was last reset, with quality GOOD all along, is in FAULT two ticks of any
  length after the noise is enabled, instead of the 30 and 60 seconds of noise the thresholds
  suggest.\<close>

lemma analogsensor_timer_counts_quiet_time:
  assumes "sensor_quality (analogsensor_at lib d m) = ''GOOD''" and "get_arg_bool as ''enabled'' = Some True"
    and "quality_timer (analogsensor_at lib d m) = Fin q" and "is_dbl (Fin q)" and "60 < q" and "0 \<le> dt"
  shows "sensor_quality (analogsensor_at lib d (analogsensor_update_physics lib d (Fin dt)
      (analogsensor_update_physics lib d (Fin dt) (snd (analogsensor_call_function lib d kFnInjectNoise as m))))) = ''FAULT''"
proof -
  let ?s = "(analogsensor_at lib d m)\<lparr>noise_enabled := True\<rparr>"
  have call: "analogsensor_at lib d (snd (analogsensor_call_function lib d kFnInjectNoise as m)) = ?s"
    using assms(2) by (simp add: analogsensor_call_at analogsensor_call_body_def analogsensor_fn_defs Let_def)
  have grow: "dless (Fin 60) (dadd t (Fin dt)) \<and> (dadd t (Fin dt) = PosInf \<or> (\<exists>p. dadd t (Fin dt) = Fin p \<and> is_dbl (Fin p) \<and> 60 < p))"
    if "t = PosInf \<or> (\<exists>p. t = Fin p \<and> is_dbl (Fin p) \<and> 60 < p)" for t
    using that
  proof
    assume "\<exists>p. t = Fin p \<and> is_dbl (Fin p) \<and> 60 < p"
    then obtain p where p: "t = Fin p" "is_dbl (Fin p)" "60 < p" by auto
    then have "p \<le> round53 (p + dt)" using round53_mono[of p "p + dt"] assms(6) by (simp add: is_dbl_Fin)
    with p is_dbl_fl[of "p + dt"] show ?thesis by (auto simp: fl_def Let_def max_finite_def)
  qed simp
  have t1: "dless (Fin 60) (dadd (Fin q) (Fin dt))" and t2: "dless (Fin 60) (dadd (dadd (Fin q) (Fin dt)) (Fin dt))"
    using grow[of "Fin q"] grow[of "dadd (Fin q) (Fin dt)"] assms(4,5) by auto
  have "dless (Fin 30) x" if "dless (Fin 60) x" for x using that by (cases x) auto
  with t1 have "dless (Fin 30) (dadd (Fin q) (Fin dt))" by blast
  with t2 assms(1,3) show ?thesis
    by (simp add: analogsensor_physics_at call analogsensor_tick_def Let_def)
qed

lemma analogsensor_timer_counts_quiet_time_example:
  "sensor_quality (analogsensor_at ref_lib ''a'' (analogsensor_update_physics ref_lib ''a'' (Fin 1)
      (analogsensor_update_physics ref_lib ''a'' (Fin 1) (snd (analogsensor_call_function ref_lib ''a'' kFnInjectNoise
         (m_put ''enabled'' (make_bool True) m_empty) (analogsensor_update_physics ref_lib ''a'' (Fin 61) m_empty)))))) = ''FAULT''"
proof (rule analogsensor_timer_counts_quiet_time)
  show "is_dbl (Fin 61)" using is_dbl_int[of 61] by simp
qed (simp_all add: analogsensor_physics_at analogsensor_tick_def Let_def, simp_all add: analogsensor_default_def)

end
