(* ===== verification/World.thy ===== *)
theory World
  imports Chaos_Control Tempctl Motorctl Relayio Analogsensor
begin

text \<open>
  The state of the process: the file-scope variables of every translation unit under \<open>src\<close>,
  gathered in one record, with the configuration types of \<open>src/config.hpp\<close>, the registry entry
  of \<open>device_factory.hpp\<close>, the engine interface types of \<open>simulation_engine.hpp\<close> and the
  clocks. \<open>'g\<close> is the state of a random engine, \<open>'e\<close> that of the simulation engine.

  A handler runs at one instant: \<open>w_now\<close> is the reading of the steady clock (nanoseconds) and
  \<open>w_system_now\<close> that of the system clock while it runs. Time moves between handlers, and in the one
  place the code sleeps on purpose, the injected latency of \<open>call_function\<close>.
\<close>

section \<open>Configuration\<close>

datatype simulation_mode = NonInteracting | Inert | Sim

datatype startup_policy = Strict | Degraded

type_synonym device_config_map = "(string, yaml) smap"

record device_spec =
  ds_id :: string
  ds_type :: string
  ds_config :: device_config_map

record provider_config =
  config_file_path :: string
  provider_name :: "string option"
  startup_policy :: startup_policy
  config_devices :: "device_spec list"
  simulation_mode :: simulation_mode
  tick_rate_hz :: "double option"
  physics_config_path :: "string option"
  ambient_temp_c :: "double option"
  ambient_signal_path :: "string option"

record device_registry_entry =
  re_id :: string
  re_type :: string
  re_config :: device_config_map

section \<open>The engine interface\<close>

datatype command_value =
    CvDouble double
  | CvInt int64
  | CvBool bool
  | CvString string

record command =
  cmd_device_id :: string
  cmd_function_name :: string
  cmd_args :: "(string, command_value) smap"

record tick_result =
  tr_success :: bool
  tr_sensors :: "(string, double) smap"
  tr_commands :: "command list"

section \<open>The process\<close>

record ('g, 'e) world =
  w_tempctl :: tempctl_states                       \<comment> \<open>\<open>tempctl::g_device_states\<close>\<close>
  w_motorctl :: motorctl_states
  w_relayio :: relayio_states
  w_analog :: "'g analogsensor_states"
  w_faults :: "'g fault_state"                      \<comment> \<open>\<open>fault_injection\<close>'s state\<close>
  w_device_registry :: "(string, device_registry_entry) smap"
  w_config_loaded :: bool
  w_signal_registry :: "signal_registry option"     \<comment> \<open>\<open>g_signal_registry\<close>, \<open>None\<close> is null\<close>
  w_engine :: "'e option"                           \<comment> \<open>\<open>g_simulation_engine\<close>\<close>
  w_function_ids :: "(string, (string, uint32) smap) smap"
  w_output_paths :: "string list"                   \<comment> \<open>\<open>g_physics_output_paths\<close>\<close>
  w_ambient :: "(string \<times> double) option"           \<comment> \<open>\<open>g_ambient_input\<close>\<close>
  w_mode :: simulation_mode
  w_tick_rate :: double
  w_ticker_running :: bool
  w_now :: int
  w_system_now :: int

text \<open>The process before \<open>main\<close> runs.\<close>

definition initial_world :: "'g \<Rightarrow> ('g, 'e) world" where
  "initial_world g = \<lparr>w_tempctl = m_empty, w_motorctl = m_empty, w_relayio = m_empty, w_analog = m_empty,
     w_faults = init_fault_state g, w_device_registry = m_empty, w_config_loaded = False,
     w_signal_registry = None, w_engine = None, w_function_ids = m_empty, w_output_paths = [],
     w_ambient = None, w_mode = Inert, w_tick_rate = Fin 10, w_ticker_running = False,
     w_now = 0, w_system_now = 0\<rparr>"

section \<open>Queries of the fault table on the process\<close>

definition w_is_device_unavailable :: "string \<Rightarrow> ('g, 'e) world \<Rightarrow> bool \<times> ('g, 'e) world" where
  "w_is_device_unavailable d w =
     (let (b, f) = is_device_unavailable d (w_now w) (w_faults w) in (b, w\<lparr>w_faults := f\<rparr>))"

definition w_is_device_unreachable :: "string \<Rightarrow> ('g, 'e) world \<Rightarrow> bool \<times> ('g, 'e) world" where
  "w_is_device_unreachable d w =
     (let (b, f) = is_device_unreachable d (w_now w) (w_faults w) in (b, w\<lparr>w_faults := f\<rparr>))"

definition w_is_signal_faulted :: "string \<Rightarrow> string \<Rightarrow> ('g, 'e) world \<Rightarrow> bool \<times> ('g, 'e) world" where
  "w_is_signal_faulted d sg w =
     (let (b, f) = is_signal_faulted d sg (w_now w) (w_faults w) in (b, w\<lparr>w_faults := f\<rparr>))"

definition w_should_call_fail :: "'g lib \<Rightarrow> string \<Rightarrow> string \<Rightarrow> ('g, 'e) world \<Rightarrow> bool \<times> ('g, 'e) world" where
  "w_should_call_fail lib d fid w =
     (let (b, f) = should_call_fail lib d fid (w_faults w) in (b, w\<lparr>w_faults := f\<rparr>))"

text \<open>\<open>this_thread::sleep_for\<close>: both clocks advance.\<close>

definition w_sleep_ms :: "int \<Rightarrow> ('g, 'e) world \<Rightarrow> ('g, 'e) world" where
  "w_sleep_ms ms w = w\<lparr>w_now := w_now w + ms * 1000000, w_system_now := w_system_now w + ms * 1000000\<rparr>"

text \<open>
  Whether a device counts as unavailable now. A query answers this and leaves the answer, and
  everything but the fault table, as it was.
\<close>

definition unavailable_now :: "string \<Rightarrow> ('g, 'e) world \<Rightarrow> bool" where
  "unavailable_now d w = fst (is_device_unavailable d (w_now w) (w_faults w))"

definition unreachable_now :: "string \<Rightarrow> ('g, 'e) world \<Rightarrow> bool" where
  "unreachable_now d w = fst (is_device_unreachable d (w_now w) (w_faults w))"

definition faulted_now :: "string \<Rightarrow> string \<Rightarrow> ('g, 'e) world \<Rightarrow> bool" where
  "faulted_now d sg w = signal_fault_active d sg (w_now w) (w_faults w)"

lemma w_is_device_unavailable_fst [simp]: "fst (w_is_device_unavailable d w) = unavailable_now d w"
  by (simp add: w_is_device_unavailable_def unavailable_now_def split: prod.split)

lemma w_is_device_unreachable_fst [simp]: "fst (w_is_device_unreachable d w) = unreachable_now d w"
  by (simp add: w_is_device_unreachable_def unreachable_now_def split: prod.split)

lemma w_is_signal_faulted_fst [simp]: "fst (w_is_signal_faulted d sg w) = faulted_now d sg w"
  by (simp add: w_is_signal_faulted_def faulted_now_def flip: is_signal_faulted_iff split: prod.split)

end
