(* ===== verification/Device_Adapter.thy ===== *)
theory Device_Adapter
  imports World
begin

text \<open>
  \<open>src/devices/common/device_adapter.hpp\<close> and \<open>.cpp\<close>: the table of function pointers through
  which the manager, the factory and the local engine reach the device modules.

  The slot \<open>update_control\<close> is a name instead of a function: the control loop of the
  temperature controller reads through the signal registry, whose reader calls back into the
  manager, so the function it names is defined there, on top of the other slots.
\<close>

section \<open>Parsing of a device's configuration\<close>

definition cfg_double :: "'g lib \<Rightarrow> device_config_map \<Rightarrow> string \<Rightarrow> string + double option" where
  "cfg_double lib config key =
    (case m_find key config of
       None \<Rightarrow> Inr None
     | Some node \<Rightarrow>
         (case lib_yaml_double lib node of
            Some v \<Rightarrow> Inr (Some v)
          | None \<Rightarrow> Inl (''[DeviceFactory] Failed to parse '' @ [CHR 0x27] @ key @ [CHR 0x27] @ '' as double'')))"

definition cfg_range :: "'g lib \<Rightarrow> device_config_map \<Rightarrow> string \<Rightarrow> string + (double \<times> double) option" where
  "cfg_range lib config key =
    (case m_find key config of
       None \<Rightarrow> Inr None
     | Some (YSequence [first, second]) \<Rightarrow>
         (case lib_yaml_double lib first of
            None \<Rightarrow> Inl (lib_bad_conversion lib first)
          | Some min_val \<Rightarrow>
         (case lib_yaml_double lib second of
            None \<Rightarrow> Inl (lib_bad_conversion lib second)
          | Some max_val \<Rightarrow>
              if dleq max_val min_val
              then Inl (''[DeviceFactory] Invalid range (min >= max) for '' @ [CHR 0x27] @ key @ [CHR 0x27])
              else Inr (Some (min_val, max_val))))
     | Some node \<Rightarrow>
         Inl (''[DeviceFactory] Invalid range format for '' @ [CHR 0x27] @ key @ [CHR 0x27] @ '' (expected 2-element sequence)''))"

section \<open>Initialization through the adapters\<close>

definition adapter_tempctl_init :: "'g lib \<Rightarrow> string \<Rightarrow> device_config_map \<Rightarrow> ('g, 'e) world \<Rightarrow> string + ('g, 'e) world" where
  "adapter_tempctl_init lib device_id config w =
    (case cfg_double lib config ''initial_temp'' of
       Inl e \<Rightarrow> Inl e
     | Inr t \<Rightarrow>
    (case cfg_range lib config ''temp_range'' of
       Inl e \<Rightarrow> Inl e
     | Inr r \<Rightarrow>
    (case tempctl_init device_id \<lparr>initial_temp = t, temp_range = r\<rparr> (w_tempctl w) of
       Inl e \<Rightarrow> Inl e
     | Inr m \<Rightarrow> Inr (w\<lparr>w_tempctl := m\<rparr>))))"

definition adapter_motorctl_init :: "'g lib \<Rightarrow> string \<Rightarrow> device_config_map \<Rightarrow> ('g, 'e) world \<Rightarrow> string + ('g, 'e) world" where
  "adapter_motorctl_init lib device_id config w =
    (case cfg_double lib config ''max_speed'' of
       Inl e \<Rightarrow> Inl e
     | Inr v \<Rightarrow>
    (case motorctl_init device_id \<lparr>max_speed = v\<rparr> (w_motorctl w) of
       Inl e \<Rightarrow> Inl e
     | Inr m \<Rightarrow> Inr (w\<lparr>w_motorctl := m\<rparr>)))"

definition adapter_relayio_init :: "string \<Rightarrow> device_config_map \<Rightarrow> ('g, 'e) world \<Rightarrow> string + ('g, 'e) world" where
  "adapter_relayio_init device_id config w = Inr (w\<lparr>w_relayio := relayio_init device_id (w_relayio w)\<rparr>)"

definition adapter_analogsensor_init :: "'g lib \<Rightarrow> string \<Rightarrow> device_config_map \<Rightarrow> ('g, 'e) world \<Rightarrow> string + ('g, 'e) world" where
  "adapter_analogsensor_init lib device_id config w =
     Inr (w\<lparr>w_analog := analogsensor_init lib device_id (w_analog w)\<rparr>)"

section \<open>The adapter table\<close>

datatype control_slot = TempctlUpdateControl | NoUpdateControl

record ('g, 'e) device_adapter =
  da_get_capabilities :: capability_set
  da_init :: "string \<Rightarrow> device_config_map \<Rightarrow> ('g, 'e) world \<Rightarrow> string + ('g, 'e) world"
  da_update_physics :: "string \<Rightarrow> double \<Rightarrow> ('g, 'e) world \<Rightarrow> ('g, 'e) world"
  da_update_control :: control_slot
  da_get_device_info :: "string \<Rightarrow> bool \<Rightarrow> device"
  da_read_signals :: "string \<Rightarrow> string list \<Rightarrow> ('g, 'e) world \<Rightarrow> signal_value list \<times> ('g, 'e) world"
  da_call_function :: "string \<Rightarrow> uint32 \<Rightarrow> args \<Rightarrow> ('g, 'e) world \<Rightarrow> call_result \<times> ('g, 'e) world"
  da_actuator_signal_ids :: "string list"

definition kTempctl :: "'g lib \<Rightarrow> ('g, 'e) device_adapter" where
  "kTempctl lib = \<lparr>da_get_capabilities = tempctl_get_capabilities,
     da_init = adapter_tempctl_init lib,
     da_update_physics = (\<lambda>d dt w. w\<lparr>w_tempctl := tempctl_update_physics lib d dt (w_tempctl w)\<rparr>),
     da_update_control = TempctlUpdateControl,
     da_get_device_info = tempctl_get_device_info,
     da_read_signals = (\<lambda>d ids w.
       let (vs, m) = tempctl_read_signals (w_signal_registry w) (w_system_now w) d ids (w_tempctl w)
       in (vs, w\<lparr>w_tempctl := m\<rparr>)),
     da_call_function = (\<lambda>d f as w. let (r, m) = tempctl_call_function d f as (w_tempctl w) in (r, w\<lparr>w_tempctl := m\<rparr>)),
     da_actuator_signal_ids = [''relay1_state'', ''relay2_state'']\<rparr>"

definition kMotorctl :: "'g lib \<Rightarrow> ('g, 'e) device_adapter" where
  "kMotorctl lib = \<lparr>da_get_capabilities = motorctl_get_capabilities,
     da_init = adapter_motorctl_init lib,
     da_update_physics = (\<lambda>d dt w. w\<lparr>w_motorctl := motorctl_update_physics lib d dt (w_motorctl w)\<rparr>),
     da_update_control = NoUpdateControl,
     da_get_device_info = motorctl_get_device_info,
     da_read_signals = (\<lambda>d ids w.
       let (vs, m) = motorctl_read_signals (w_signal_registry w) (w_system_now w) d ids (w_motorctl w)
       in (vs, w\<lparr>w_motorctl := m\<rparr>)),
     da_call_function = (\<lambda>d f as w. let (r, m) = motorctl_call_function d f as (w_motorctl w) in (r, w\<lparr>w_motorctl := m\<rparr>)),
     da_actuator_signal_ids = [''motor1_duty'', ''motor2_duty'']\<rparr>"

definition kRelayio :: "'g lib \<Rightarrow> ('g, 'e) device_adapter" where
  "kRelayio lib = \<lparr>da_get_capabilities = relayio_get_capabilities,
     da_init = adapter_relayio_init,
     da_update_physics = (\<lambda>d dt w. w\<lparr>w_relayio := relayio_update_physics d dt (w_relayio w)\<rparr>),
     da_update_control = NoUpdateControl,
     da_get_device_info = relayio_get_device_info,
     da_read_signals = (\<lambda>d ids w.
       let (vs, m) = relayio_read_signals (w_signal_registry w) (w_system_now w) d ids (w_relayio w)
       in (vs, w\<lparr>w_relayio := m\<rparr>)),
     da_call_function = (\<lambda>d f as w. let (r, m) = relayio_call_function d f as (w_relayio w) in (r, w\<lparr>w_relayio := m\<rparr>)),
     da_actuator_signal_ids = [''relay_ch1_state'', ''relay_ch2_state'', ''relay_ch3_state'', ''relay_ch4_state'']\<rparr>"

definition kAnalogsensor :: "'g lib \<Rightarrow> ('g, 'e) device_adapter" where
  "kAnalogsensor lib = \<lparr>da_get_capabilities = analogsensor_get_capabilities,
     da_init = adapter_analogsensor_init lib,
     da_update_physics = (\<lambda>d dt w. w\<lparr>w_analog := analogsensor_update_physics lib d dt (w_analog w)\<rparr>),
     da_update_control = NoUpdateControl,
     da_get_device_info = analogsensor_get_device_info,
     da_read_signals = (\<lambda>d ids w.
       let (vs, m) = analogsensor_read_signals lib (w_signal_registry w) (w_system_now w) d ids (w_analog w)
       in (vs, w\<lparr>w_analog := m\<rparr>)),
     da_call_function = (\<lambda>d f as w. let (r, m) = analogsensor_call_function lib d f as (w_analog w) in (r, w\<lparr>w_analog := m\<rparr>)),
     da_actuator_signal_ids = []\<rparr>"

definition kChaos :: "'g lib \<Rightarrow> ('g, 'e) device_adapter" where
  "kChaos lib = \<lparr>da_get_capabilities = chaos_get_capabilities,
     da_init = (\<lambda>d config w. Inr w),
     da_update_physics = (\<lambda>d dt w. w),
     da_update_control = NoUpdateControl,
     da_get_device_info = (\<lambda>d include_health. chaos_get_device_info include_health),
     da_read_signals = (\<lambda>d ids w. (chaos_read_signals ids, w)),
     da_call_function = (\<lambda>d f as w.
       let (r, s) = chaos_call_function f as (w_now w) (w_faults w) in (r, w\<lparr>w_faults := s\<rparr>)),
     da_actuator_signal_ids = []\<rparr>"

lemmas adapter_defs = kTempctl_def kMotorctl_def kRelayio_def kAnalogsensor_def kChaos_def

section \<open>Selection\<close>

datatype sim_device_type = Tempctl | Motorctl | Relayio | Analogsensor

definition sim_device_type_from_string :: "string \<Rightarrow> sim_device_type option" where
  "sim_device_type_from_string t =
    (if t = ''tempctl'' then Some Tempctl
     else if t = ''motorctl'' then Some Motorctl
     else if t = ''relayio'' then Some Relayio
     else if t = ''analogsensor'' then Some Analogsensor
     else None)"

text \<open>The switch is exhaustive, so the sentinel after it is not reached.\<close>

definition adapter_for :: "'g lib \<Rightarrow> sim_device_type \<Rightarrow> ('g, 'e) device_adapter" where
  "adapter_for lib t = (case t of
      Tempctl \<Rightarrow> kTempctl lib
    | Motorctl \<Rightarrow> kMotorctl lib
    | Relayio \<Rightarrow> kRelayio lib
    | Analogsensor \<Rightarrow> kAnalogsensor lib)"

text \<open>The registry of the device factory, which the selection by id consults.\<close>

definition is_device_registered :: "string \<Rightarrow> ('g, 'e) world \<Rightarrow> bool" where
  "is_device_registered device_id w \<longleftrightarrow> m_find device_id (w_device_registry w) \<noteq> None"

definition get_device_type :: "string \<Rightarrow> ('g, 'e) world \<Rightarrow> string" where
  "get_device_type device_id w =
     (case m_find device_id (w_device_registry w) of Some entry \<Rightarrow> re_type entry | None \<Rightarrow> [])"

definition get_registered_devices :: "('g, 'e) world \<Rightarrow> device_registry_entry list" where
  "get_registered_devices w = map snd (w_device_registry w)"

definition adapter_by_id :: "'g lib \<Rightarrow> string \<Rightarrow> ('g, 'e) world \<Rightarrow> ('g, 'e) device_adapter option" where
  "adapter_by_id lib device_id w =
    (if device_id = chaos_kDeviceId then Some (kChaos lib)
     else if \<not> w_config_loaded w \<or> \<not> is_device_registered device_id w then None
     else case sim_device_type_from_string (get_device_type device_id w) of
            None \<Rightarrow> None
          | Some t \<Rightarrow> Some (adapter_for lib t))"

section \<open>What every adapter keeps\<close>

text \<open>The parts of the process a device operation never writes.\<close>

definition same_frame :: "('g, 'e) world \<Rightarrow> ('g, 'e) world \<Rightarrow> bool" where
  "same_frame w w' \<longleftrightarrow>
     w' = w\<lparr>w_tempctl := w_tempctl w', w_motorctl := w_motorctl w', w_relayio := w_relayio w',
            w_analog := w_analog w', w_faults := w_faults w'\<rparr>"

lemma same_frame_refl [simp]: "same_frame w w"
  by (simp add: same_frame_def)

lemma same_frame_eq: "same_frame w w' \<longleftrightarrow>
    w_device_registry w' = w_device_registry w \<and> w_config_loaded w' = w_config_loaded w \<and>
    w_signal_registry w' = w_signal_registry w \<and> w_engine w' = w_engine w \<and> w_function_ids w' = w_function_ids w \<and>
    w_output_paths w' = w_output_paths w \<and> w_ambient w' = w_ambient w \<and> w_mode w' = w_mode w \<and>
    w_tick_rate w' = w_tick_rate w \<and> w_ticker_running w' = w_ticker_running w \<and>
    w_now w' = w_now w \<and> w_system_now w' = w_system_now w"
  unfolding same_frame_def by (cases w; cases w') auto

lemma same_frame_fields:
  assumes "same_frame w w'"
  shows "w_device_registry w' = w_device_registry w" and "w_config_loaded w' = w_config_loaded w"
    and "w_signal_registry w' = w_signal_registry w" and "w_engine w' = w_engine w"
    and "w_function_ids w' = w_function_ids w" and "w_now w' = w_now w" and "w_system_now w' = w_system_now w"
    and "w_mode w' = w_mode w" and "w_ambient w' = w_ambient w" and "w_output_paths w' = w_output_paths w"
    and "w_tick_rate w' = w_tick_rate w" and "w_ticker_running w' = w_ticker_running w"
  using assms by (simp_all add: same_frame_eq)

lemma same_frame_trans: "same_frame w w' \<Longrightarrow> same_frame w' w'' \<Longrightarrow> same_frame w w''"
  by (simp add: same_frame_eq)

lemma adapter_by_id_cong: "same_frame w w' \<Longrightarrow> adapter_by_id lib d w' = adapter_by_id lib d w"
  by (simp add: same_frame_eq adapter_by_id_def is_device_registered_def get_device_type_def)

lemma adapter_by_id_cases:
  assumes "adapter_by_id lib d w = Some a"
  obtains "d = chaos_kDeviceId" "a = kChaos lib"
    | t where "d \<noteq> chaos_kDeviceId" "a = adapter_for lib t" "w_config_loaded w" "is_device_registered d w"
        "sim_device_type_from_string (get_device_type d w) = Some t"
  using assms by (auto simp: adapter_by_id_def split: if_splits option.splits)

lemma adapter_frame:
  assumes "adapter_by_id lib d w0 = Some a"
  shows "same_frame w (snd (da_read_signals a d' ids w))" and "same_frame w (snd (da_call_function a d' f as w))"
    and "same_frame w (da_update_physics a d' dt w)"
proof -
  have "a \<in> {kChaos lib, kTempctl lib, kMotorctl lib, kRelayio lib, kAnalogsensor lib}"
    using assms by (elim adapter_by_id_cases) (auto simp: adapter_for_def split: sim_device_type.splits)
  then show "same_frame w (snd (da_read_signals a d' ids w))" and "same_frame w (snd (da_call_function a d' f as w))"
    and "same_frame w (da_update_physics a d' dt w)"
    by (auto simp: adapter_defs same_frame_eq split: prod.splits)
qed

text \<open>The slots, as functions of the parts of the process they use.\<close>

lemma adapter_slots [simp]:
  "da_get_capabilities (kChaos lib) = chaos_get_capabilities" "da_get_capabilities (kTempctl lib) = tempctl_get_capabilities"
  "da_get_capabilities (kMotorctl lib) = motorctl_get_capabilities" "da_get_capabilities (kRelayio lib) = relayio_get_capabilities"
  "da_get_capabilities (kAnalogsensor lib) = analogsensor_get_capabilities"
  by (simp_all add: adapter_defs)

lemma adapter_reads:
  "fst (da_read_signals (kChaos lib) d ids w) = []"
  "fst (da_read_signals (kTempctl lib) d ids w) = fst (tempctl_read_signals (w_signal_registry w) (w_system_now w) d ids (w_tempctl w))"
  "fst (da_read_signals (kMotorctl lib) d ids w) = fst (motorctl_read_signals (w_signal_registry w) (w_system_now w) d ids (w_motorctl w))"
  "fst (da_read_signals (kRelayio lib) d ids w) = fst (relayio_read_signals (w_signal_registry w) (w_system_now w) d ids (w_relayio w))"
  "fst (da_read_signals (kAnalogsensor lib) d ids w) = fst (analogsensor_read_signals lib (w_signal_registry w) (w_system_now w) d ids (w_analog w))"
  by (simp_all add: adapter_defs chaos_read_signals_def case_prod_beta)

lemma adapter_calls:
  "fst (da_call_function (kChaos lib) d f as w) = fst (chaos_call_function f as (w_now w) (w_faults w))"
  "fst (da_call_function (kTempctl lib) d f as w) = fst (tempctl_call_function d f as (w_tempctl w))"
  "fst (da_call_function (kMotorctl lib) d f as w) = fst (motorctl_call_function d f as (w_motorctl w))"
  "fst (da_call_function (kRelayio lib) d f as w) = fst (relayio_call_function d f as (w_relayio w))"
  "fst (da_call_function (kAnalogsensor lib) d f as w) = fst (analogsensor_call_function lib d f as (w_analog w))"
  by (simp_all add: adapter_defs case_prod_beta)

lemma adapter_cases:
  assumes "adapter_by_id lib d w = Some a"
  obtains "a = kChaos lib" | "a = kTempctl lib" | "a = kMotorctl lib" | "a = kRelayio lib" | "a = kAnalogsensor lib"
  using assms by (elim adapter_by_id_cases) (auto simp: adapter_for_def split: sim_device_type.splits)

text \<open>Every adapter that can be selected meets the contract of the device modules.\<close>

lemma adapter_read_ids:
  assumes "adapter_by_id lib d0 w0 = Some a" and "ids \<noteq> []"
  shows "map sv_signal_id (fst (da_read_signals a d ids w)) = filter (\<lambda>i. i \<in> set (signal_ids (da_get_capabilities a))) ids"
proof -
  have "signal_ids chaos_get_capabilities = []" by (simp add: signal_ids_def chaos_get_capabilities_def)
  with assms(2) show ?thesis
    by (cases rule: adapter_cases[OF assms(1)])
      (simp_all add: adapter_reads tempctl.read_ids motorctl.read_ids relayio.read_ids analogsensor.read_ids)
qed

lemma adapter_read_advertised:
  assumes "adapter_by_id lib d0 w0 = Some a" and "v \<in> set (fst (da_read_signals a d ids w))"
  shows "advertised_value (da_get_capabilities a) v"
  using assms(2)
  by (cases rule: adapter_cases[OF assms(1)])
    (auto simp: adapter_reads intro: tempctl.read_advertised motorctl.read_advertised relayio.read_advertised
      analogsensor.read_advertised)

lemma adapter_call_not_found:
  assumes "adapter_by_id lib d0 w0 = Some a"
  shows "cr_code (fst (da_call_function a d f as w)) = CODE_NOT_FOUND \<longleftrightarrow> f \<notin> set (function_ids (da_get_capabilities a))"
  by (cases rule: adapter_cases[OF assms])
    (simp_all add: adapter_calls chaos_not_found_iff tempctl.call_not_found motorctl.call_not_found relayio.call_not_found
      analogsensor.call_not_found)

lemma adapter_call_conforming:
  assumes "adapter_by_id lib d0 w0 = Some a" and "cr_code (fst (da_call_function a d f as w)) = CODE_OK"
  shows "call_conforms (da_get_capabilities a) f as"
  using assms(2) chaos_call_accepted[OF prod.collapse[symmetric], of f as "w_now w" "w_faults w"]
  by (cases rule: adapter_cases[OF assms(1)])
    (auto simp: adapter_calls intro: tempctl.call_conforming motorctl.call_conforming relayio.call_conforming
      analogsensor.call_conforming)

end
