(* ===== verification/Device_Factory.thy ===== *)
theory Device_Factory
  imports Device_Adapter
begin

text \<open>
  \<open>src/devices/common/device_factory.hpp\<close> and \<open>.cpp\<close>, with the report of
  \<open>src/core/startup_report.hpp\<close>: initialization of the configured devices and the registry of
  those that succeeded. The log lines are left out.
\<close>

section \<open>Operations\<close>

record device_init_failure =
  dif_device_id :: string
  dif_type :: string
  dif_reason :: string

record initialization_report =
  configured_device_count :: nat
  report_startup_policy :: startup_policy
  configured_device_ids :: "string list"
  successful_device_ids :: "string list"
  failed_devices :: "device_init_failure list"

definition initialize_device :: "'g lib \<Rightarrow> device_spec \<Rightarrow> ('g, 'e) world \<Rightarrow> string + ('g, 'e) world" where
  "initialize_device lib spec w =
    (case sim_device_type_from_string (ds_type spec) of
       None \<Rightarrow> Inl (''[DeviceFactory] Unknown device type: '' @ ds_type spec)
     | Some t \<Rightarrow>
         (case da_init (adapter_for lib t) (ds_id spec) (ds_config spec) w of
            Inl e \<Rightarrow> Inl e
          | Inr w' \<Rightarrow>
              let entry = \<lparr>re_id = ds_id spec, re_type = ds_type spec, re_config = ds_config spec\<rparr>
              in Inr (w'\<lparr>w_device_registry := m_put (ds_id spec) entry (w_device_registry w')\<rparr>)))"

text \<open>The loop over the configured devices; an exception is the left value.\<close>

fun initialize_loop ::
  "'g lib \<Rightarrow> startup_policy \<Rightarrow> device_spec list \<Rightarrow> initialization_report \<Rightarrow> ('g, 'e) world \<Rightarrow>
   (string + initialization_report) \<times> ('g, 'e) world" where
  "initialize_loop lib policy [] report w = (Inr report, w)"
| "initialize_loop lib policy (spec # specs) report w =
    (case initialize_device lib spec w of
       Inr w' \<Rightarrow>
         initialize_loop lib policy specs
           (report\<lparr>successful_device_ids := successful_device_ids report @ [ds_id spec]\<rparr>) w'
     | Inl failure_reason \<Rightarrow>
         let failure = \<lparr>dif_device_id = ds_id spec, dif_type = ds_type spec, dif_reason = failure_reason\<rparr>;
             report = report\<lparr>failed_devices := failed_devices report @ [failure]\<rparr>
         in if policy = Strict
            then (Inl (''[DeviceFactory] startup_policy=strict: failed to initialize '' @ [CHR 0x27] @ ds_id spec @
                       [CHR 0x27] @ '' (type: '' @ ds_type spec @ ''): '' @ failure_reason),
                  w\<lparr>w_device_registry := m_empty\<rparr>)
            else initialize_loop lib policy specs report w)"

definition initialize_from_config ::
  "'g lib \<Rightarrow> provider_config \<Rightarrow> ('g, 'e) world \<Rightarrow> (string + initialization_report) \<times> ('g, 'e) world" where
  "initialize_from_config lib config w =
    (let w = w\<lparr>w_device_registry := m_empty, w_config_loaded := False\<rparr>;
         init_report = \<lparr>configured_device_count = length (config_devices config),
           report_startup_policy = startup_policy config,
           configured_device_ids = map ds_id (config_devices config),
           successful_device_ids = [], failed_devices = []\<rparr>
     in case initialize_loop lib (startup_policy config) (config_devices config) init_report w of
          (Inl e, w) \<Rightarrow> (Inl e, w)
        | (Inr report, w) \<Rightarrow> (Inr report, w\<lparr>w_config_loaded := True\<rparr>))"

definition factory_reset :: "('g, 'e) world \<Rightarrow> ('g, 'e) world" where
  "factory_reset w = w\<lparr>w_device_registry := m_empty, w_config_loaded := False\<rparr>"

section \<open>Success does not depend on the process\<close>

text \<open>Whether a device initializes is decided by its specification alone.\<close>

primrec error_of :: "'a + 'b \<Rightarrow> 'a option" where
  "error_of (Inl e) = Some e"
| "error_of (Inr x) = None"

lemma error_of_map [simp]: "error_of (case x of Inl e \<Rightarrow> Inl e | Inr m \<Rightarrow> Inr (g m)) = error_of x"
  by (cases x) simp_all

lemma error_of_Inl: "x = Inl e \<longleftrightarrow> error_of x = Some e"
  by (cases x) simp_all

definition init_error :: "'g lib \<Rightarrow> device_spec \<Rightarrow> string option" where
  "init_error lib spec = error_of (initialize_device lib spec (initial_world (lib_mt19937 lib 0) :: ('g, unit) world))"

lemma tempctl_init_error: "error_of (tempctl_init d c m) = error_of (tempctl_init d c m')"
  by (simp add: tempctl_init_def Let_def split: option.split prod.split)

lemma motorctl_init_error: "error_of (motorctl_init d c m) = error_of (motorctl_init d c m')"
  by (simp add: motorctl_init_def Let_def split: option.split)

lemma adapter_init_error:
  fixes w :: "('g, 'e) world" and w' :: "('g, 'f) world"
  shows "error_of (da_init (adapter_for lib t) d c w) = error_of (da_init (adapter_for lib t) d c w')"
proof (cases t)
  case Tempctl
  then show ?thesis using tempctl_init_error[of d _ "w_tempctl w" "w_tempctl w'"]
    by (simp add: adapter_for_def kTempctl_def adapter_tempctl_init_def split: sum.split)
next
  case Motorctl
  then show ?thesis using motorctl_init_error[of d _ "w_motorctl w" "w_motorctl w'"]
    by (simp add: adapter_for_def kMotorctl_def adapter_motorctl_init_def split: sum.split)
qed (simp_all add: adapter_for_def kRelayio_def kAnalogsensor_def adapter_relayio_init_def adapter_analogsensor_init_def)

lemma initialize_device_error:
  fixes w :: "('g, 'e) world"
  shows "error_of (initialize_device lib spec w) = init_error lib spec"
  unfolding init_error_def initialize_device_def Let_def
  using adapter_init_error[of lib _ "ds_id spec" "ds_config spec" w "initial_world (lib_mt19937 lib 0) :: ('g, unit) world"]
  by (simp split: option.split)

lemma initialize_device_cases:
  fixes w :: "('g, 'e) world"
  obtains e where "initialize_device lib spec w = Inl e" "init_error lib spec = Some e"
    | w' where "initialize_device lib spec w = Inr w'" "init_error lib spec = None"
  using initialize_device_error[of lib spec w] by (cases "initialize_device lib spec w") auto

lemma adapter_init_keeps:
  assumes "da_init (adapter_for lib t) d c w = Inr w'"
  shows "w_device_registry w' = w_device_registry w" and "w_config_loaded w' = w_config_loaded w"
    and "w_faults w' = w_faults w" and "w_signal_registry w' = w_signal_registry w"
  using assms
  by (cases t; force simp: adapter_for_def adapter_defs adapter_tempctl_init_def adapter_motorctl_init_def
      adapter_relayio_init_def adapter_analogsensor_init_def split: sum.splits)+

lemma initialize_device_Inr:
  assumes "initialize_device lib spec w = Inr w'"
  shows "w_device_registry w' =
      m_put (ds_id spec) \<lparr>re_id = ds_id spec, re_type = ds_type spec, re_config = ds_config spec\<rparr> (w_device_registry w)"
    and "w_config_loaded w' = w_config_loaded w" and "sim_device_type_from_string (ds_type spec) \<noteq> None"
  using assms by (auto simp: initialize_device_def Let_def adapter_init_keeps split: option.splits sum.splits)

section \<open>The loop\<close>

definition failure_of :: "'g lib \<Rightarrow> device_spec \<Rightarrow> device_init_failure" where
  "failure_of lib spec =
     \<lparr>dif_device_id = ds_id spec, dif_type = ds_type spec, dif_reason = the (init_error lib spec)\<rparr>"

text \<open>Every registered device has a type the adapters know.\<close>

definition registry_ok :: "('g, 'e) world \<Rightarrow> bool" where
  "registry_ok w \<longleftrightarrow> m_ok (w_device_registry w) \<and>
     (\<forall>d e. m_find d (w_device_registry w) = Some e \<longrightarrow> re_id e = d \<and> sim_device_type_from_string (re_type e) \<noteq> None)"

lemma registry_ok_init: "initialize_device lib spec w = Inr w' \<Longrightarrow> registry_ok w \<Longrightarrow> registry_ok w'"
  using initialize_device_Inr(3)[of lib spec w w'] by (simp add: registry_ok_def initialize_device_Inr(1))

abbreviation succeeds :: "'g lib \<Rightarrow> device_spec \<Rightarrow> bool" where
  "succeeds lib spec \<equiv> init_error lib spec = None"

lemma initialize_loop_completes:
  assumes "policy = Degraded \<or> (\<forall>s \<in> set specs. succeeds lib s)"
  shows "\<exists>w'. initialize_loop lib policy specs report w =
     (Inr (report\<lparr>successful_device_ids := successful_device_ids report @ map ds_id (filter (succeeds lib) specs),
                  failed_devices := failed_devices report @ map (failure_of lib) (filter (\<lambda>s. \<not> succeeds lib s) specs)\<rparr>), w') \<and>
     w_config_loaded w' = w_config_loaded w \<and> (registry_ok w \<longrightarrow> registry_ok w') \<and>
     (\<forall>d. is_device_registered d w' \<longleftrightarrow> is_device_registered d w \<or> d \<in> ds_id ` {s \<in> set specs. succeeds lib s})"
  using assms
proof (induction specs arbitrary: report w)
  case (Cons spec specs)
  show ?case
  proof (cases rule: initialize_device_cases[of lib spec w])
    case (1 e)
    then have "policy = Degraded" using Cons.prems by auto
    with 1 Cons.IH[of "report\<lparr>failed_devices := failed_devices report @ [failure_of lib spec]\<rparr>" w] show ?thesis
      by (auto simp: failure_of_def)
  next
    case (2 w1)
    have reg: "is_device_registered d w1 \<longleftrightarrow> d = ds_id spec \<or> is_device_registered d w" for d
      using initialize_device_Inr(1)[OF 2(1)] by (simp add: is_device_registered_def)
    obtain w' where w': "initialize_loop lib policy specs (report\<lparr>successful_device_ids := successful_device_ids report @ [ds_id spec]\<rparr>) w1 =
        (Inr (report\<lparr>successful_device_ids := (successful_device_ids report @ [ds_id spec]) @ map ds_id (filter (succeeds lib) specs),
           failed_devices := failed_devices report @ map (failure_of lib) (filter (\<lambda>s. \<not> succeeds lib s) specs)\<rparr>), w')"
      "w_config_loaded w' = w_config_loaded w1" "registry_ok w1 \<longrightarrow> registry_ok w'"
      "\<forall>d. is_device_registered d w' \<longleftrightarrow> is_device_registered d w1 \<or> d \<in> ds_id ` {s \<in> set specs. succeeds lib s}"
      using Cons.IH[of "report\<lparr>successful_device_ids := successful_device_ids report @ [ds_id spec]\<rparr>" w1] Cons.prems by auto
    then show ?thesis
      using 2 reg registry_ok_init[OF 2(1)] initialize_device_Inr(2)[OF 2(1)] by (intro exI[of _ w']) auto
  qed
qed simp

lemma initialize_loop_strict_fails:
  assumes "\<exists>s \<in> set specs. \<not> succeeds lib s"
  shows "\<exists>s e w'. find (\<lambda>s. \<not> succeeds lib s) specs = Some s \<and> init_error lib s = Some e \<and>
     initialize_loop lib Strict specs report w =
       (Inl (''[DeviceFactory] startup_policy=strict: failed to initialize '' @ [CHR 0x27] @ ds_id s @
             [CHR 0x27] @ '' (type: '' @ ds_type s @ ''): '' @ e), w') \<and>
     w_device_registry w' = m_empty \<and> w_config_loaded w' = w_config_loaded w"
  using assms
proof (induction specs arbitrary: report w)
  case (Cons spec specs)
  show ?case
  proof (cases rule: initialize_device_cases[of lib spec w])
    case (2 w1)
    with Cons.prems have "\<exists>s \<in> set specs. \<not> succeeds lib s" by auto
    with 2 Cons.IH[of "report\<lparr>successful_device_ids := successful_device_ids report @ [ds_id spec]\<rparr>" w1]
      initialize_device_Inr(2)[OF 2(1)] show ?thesis by auto
  qed auto
qed simp

lemma adapter_of_registered:
  assumes "registry_ok w" and "w_config_loaded w"
  shows "adapter_by_id lib d w \<noteq> None \<longleftrightarrow> d = chaos_kDeviceId \<or> is_device_registered d w"
proof (cases "m_find d (w_device_registry w)")
  case (Some e)
  then have "sim_device_type_from_string (re_type e) \<noteq> None" using assms(1) by (auto simp: registry_ok_def)
  with Some assms(2) show ?thesis
    by (auto simp: adapter_by_id_def is_device_registered_def get_device_type_def)
qed (simp add: adapter_by_id_def is_device_registered_def)

lemma empty_registry_ok: "registry_ok (w\<lparr>w_device_registry := m_empty, w_config_loaded := False\<rparr>)"
  by (simp add: registry_ok_def)

section \<open>Properties\<close>

text \<open>C11. Under the degraded policy initialization always succeeds and its report is exact: the
  successful ids are those of the devices that initialize, the failures are the others with their
  types and reasons, both in configured order, and together as many as configured. Afterwards a
  device id is addressable if and only if it is in the report's successful ids or is the chaos
  device's, whatever was registered before.\<close>

theorem factory_degraded_report_exact:
  assumes "startup_policy config = Degraded"
  shows "\<exists>report w'. initialize_from_config lib config w = (Inr report, w') \<and>
    successful_device_ids report = map ds_id (filter (succeeds lib) (config_devices config)) \<and>
    failed_devices report = map (failure_of lib) (filter (\<lambda>s. \<not> succeeds lib s) (config_devices config)) \<and>
    length (successful_device_ids report) + length (failed_devices report) = configured_device_count report \<and>
    configured_device_ids report = map ds_id (config_devices config) \<and>
    w_config_loaded w' \<and>
    (\<forall>d. adapter_by_id lib d w' \<noteq> None \<longleftrightarrow> d = chaos_kDeviceId \<or> d \<in> set (successful_device_ids report))"
proof -
  let ?w = "w\<lparr>w_device_registry := m_empty, w_config_loaded := False\<rparr>"
  let ?r = "\<lparr>configured_device_count = length (config_devices config), report_startup_policy = startup_policy config,
     configured_device_ids = map ds_id (config_devices config), successful_device_ids = [], failed_devices = []\<rparr>"
  obtain w1 where w1: "initialize_loop lib Degraded (config_devices config) ?r ?w =
      (Inr (?r\<lparr>successful_device_ids := map ds_id (filter (succeeds lib) (config_devices config)),
               failed_devices := map (failure_of lib) (filter (\<lambda>s. \<not> succeeds lib s) (config_devices config))\<rparr>), w1)"
    "registry_ok w1" "\<forall>d. is_device_registered d w1 \<longleftrightarrow> d \<in> ds_id ` {s \<in> set (config_devices config). succeeds lib s}"
    using initialize_loop_completes[of Degraded "config_devices config" lib ?r ?w] empty_registry_ok[of w]
    by (auto simp: is_device_registered_def)
  have ok: "registry_ok (w1\<lparr>w_config_loaded := True\<rparr>)" using w1(2) by (simp add: registry_ok_def)
  have "is_device_registered d (w1\<lparr>w_config_loaded := True\<rparr>) \<longleftrightarrow> is_device_registered d w1" for d
    by (simp add: is_device_registered_def)
  with w1 adapter_of_registered[OF ok] show ?thesis
    using sum_length_filter_compl[of "succeeds lib" "config_devices config"]
    by (simp add: initialize_from_config_def assms)
qed

definition example_device :: "string \<Rightarrow> string \<Rightarrow> device_spec" where
  "example_device d t = \<lparr>ds_id = d, ds_type = t, ds_config = m_empty\<rparr>"

definition example_config :: "startup_policy \<Rightarrow> device_spec list \<Rightarrow> provider_config" where
  "example_config policy devices = \<lparr>config_file_path = ''/etc/sim.yaml'', provider_name = None, startup_policy = policy,
     config_devices = devices, simulation_mode = NonInteracting, tick_rate_hz = Some (Fin 10),
     physics_config_path = None, ambient_temp_c = None, ambient_signal_path = None\<rparr>"

lemma example_config_fields [simp]:
  "startup_policy (example_config p ds) = p" "config_devices (example_config p ds) = ds"
  by (simp_all add: example_config_def)

lemma example_device_id [simp]: "ds_id (example_device d t) = d"
  by (simp add: example_device_def)

lemma example_succeeds:
  "succeeds lib (example_device d ''relayio'')" "init_error lib (example_device d ''oven'') = Some ''[DeviceFactory] Unknown device type: oven''"
  by (simp_all add: init_error_def initialize_device_def example_device_def sim_device_type_from_string_def
      adapter_for_def adapter_defs adapter_relayio_init_def Let_def)

theorem factory_degraded_report_exact_witness:
  "\<exists>report w'. initialize_from_config ref_lib
      (example_config Degraded [example_device ''r0'' ''relayio'', example_device ''x'' ''oven''])
      (initial_world 0 :: (nat, unit) world) = (Inr report, w') \<and>
    successful_device_ids report = [''r0''] \<and> adapter_by_id ref_lib ''x'' w' = None"
proof -
  let ?c = "example_config Degraded [example_device ''r0'' ''relayio'', example_device ''x'' ''oven'']"
  have "startup_policy ?c = Degraded" by simp
  from factory_degraded_report_exact[OF this, of ref_lib "initial_world 0 :: (nat, unit) world"]
  obtain report w' where r: "initialize_from_config ref_lib ?c (initial_world 0 :: (nat, unit) world) = (Inr report, w')"
    "successful_device_ids report = map ds_id (filter (succeeds ref_lib) (config_devices ?c))"
    "\<forall>d. adapter_by_id ref_lib d w' \<noteq> None \<longleftrightarrow> d = chaos_kDeviceId \<or> d \<in> set (successful_device_ids report)" by blast
  have ids: "successful_device_ids report = [''r0'']" unfolding r(2) by (simp add: example_succeeds)
  moreover have "adapter_by_id ref_lib ''x'' w' = None"
    using r(3)[rule_format, of "''x''"] ids by (simp add: chaos_kDeviceId_def)
  ultimately show ?thesis using r(1) by blast
qed

text \<open>C12. Under the strict policy initialization succeeds exactly when every configured device
  initializes, and then all are addressable. Otherwise it fails with the id, type and reason of
  the first device that does not, and leaves nothing addressable but the chaos device, not even
  the devices initialized before it.\<close>

theorem factory_strict_all_or_nothing:
  assumes "startup_policy config = Strict" and "initialize_from_config lib config w = (result, w')"
  shows "if \<forall>s \<in> set (config_devices config). succeeds lib s
    then (\<exists>report. result = Inr report \<and> failed_devices report = [] \<and>
            successful_device_ids report = map ds_id (config_devices config)) \<and>
         (\<forall>d. adapter_by_id lib d w' \<noteq> None \<longleftrightarrow> d = chaos_kDeviceId \<or> d \<in> ds_id ` set (config_devices config))
    else (\<exists>s e. find (\<lambda>s. \<not> succeeds lib s) (config_devices config) = Some s \<and> init_error lib s = Some e \<and>
            result = Inl (''[DeviceFactory] startup_policy=strict: failed to initialize '' @ [CHR 0x27] @ ds_id s @
               [CHR 0x27] @ '' (type: '' @ ds_type s @ ''): '' @ e)) \<and>
         (\<forall>d. adapter_by_id lib d w' \<noteq> None \<longleftrightarrow> d = chaos_kDeviceId)"
proof -
  let ?w = "w\<lparr>w_device_registry := m_empty, w_config_loaded := False\<rparr>"
  let ?r = "\<lparr>configured_device_count = length (config_devices config), report_startup_policy = Strict,
     configured_device_ids = map ds_id (config_devices config), successful_device_ids = [], failed_devices = []\<rparr>"
  show ?thesis
  proof (cases "\<forall>s \<in> set (config_devices config). succeeds lib s")
    case True
    then have all: "filter (succeeds lib) (config_devices config) = config_devices config"
      "filter (\<lambda>s. \<not> succeeds lib s) (config_devices config) = []"
      "{s \<in> set (config_devices config). succeeds lib s} = set (config_devices config)" by auto
    obtain w1 where w1: "initialize_loop lib Strict (config_devices config) ?r ?w =
        (Inr (?r\<lparr>successful_device_ids := map ds_id (config_devices config)\<rparr>), w1)" "registry_ok w1"
      "\<forall>d. is_device_registered d w1 \<longleftrightarrow> d \<in> ds_id ` set (config_devices config)"
      using initialize_loop_completes[of Strict "config_devices config" lib ?r ?w] True empty_registry_ok[of w]
      by (auto simp: is_device_registered_def all)
    have ok: "registry_ok (w1\<lparr>w_config_loaded := True\<rparr>)" using w1(2) by (simp add: registry_ok_def)
    have "is_device_registered d (w1\<lparr>w_config_loaded := True\<rparr>) \<longleftrightarrow> is_device_registered d w1" for d
      by (simp add: is_device_registered_def)
    with w1(3) adapter_of_registered[OF ok]
    have "adapter_by_id lib d (w1\<lparr>w_config_loaded := True\<rparr>) \<noteq> None \<longleftrightarrow> d = chaos_kDeviceId \<or> d \<in> ds_id ` set (config_devices config)" for d
      by simp
    moreover from w1(1) assms have "result = Inr (?r\<lparr>successful_device_ids := map ds_id (config_devices config)\<rparr>)"
      "w' = w1\<lparr>w_config_loaded := True\<rparr>" by (simp_all add: initialize_from_config_def)
    ultimately show ?thesis using True by simp
  next
    case False
    then obtain s e w1 where "find (\<lambda>s. \<not> succeeds lib s) (config_devices config) = Some s" "init_error lib s = Some e"
      "initialize_loop lib Strict (config_devices config) ?r ?w =
         (Inl (''[DeviceFactory] startup_policy=strict: failed to initialize '' @ [CHR 0x27] @ ds_id s @
               [CHR 0x27] @ '' (type: '' @ ds_type s @ ''): '' @ e), w1)" "\<not> w_config_loaded w1"
      using initialize_loop_strict_fails[of "config_devices config" lib ?r ?w] by auto
    with False assms show ?thesis by (auto simp: initialize_from_config_def adapter_by_id_def)
  qed
qed

theorem factory_strict_all_or_nothing_witness:
  "\<exists>w'. snd (initialize_from_config ref_lib
      (example_config Strict [example_device ''r0'' ''relayio'', example_device ''x'' ''oven''])
      (initial_world 0 :: (nat, unit) world)) = w' \<and> adapter_by_id ref_lib ''r0'' w' = None"
proof -
  let ?c = "example_config Strict [example_device ''r0'' ''relayio'', example_device ''x'' ''oven'']"
  have "startup_policy ?c = Strict" by simp
  note t = factory_strict_all_or_nothing[OF this prod.collapse[symmetric], of ref_lib "initial_world 0 :: (nat, unit) world"]
  have "\<not> (\<forall>s \<in> set (config_devices ?c). succeeds ref_lib s)" by (simp add: example_succeeds)
  from t[unfolded if_not_P[OF this]] have "\<forall>d. adapter_by_id ref_lib d (snd (initialize_from_config ref_lib ?c (initial_world 0 :: (nat, unit) world))) \<noteq> None
      \<longleftrightarrow> d = chaos_kDeviceId" by (rule conjunct2)
  from spec[OF this, of "''r0''"] have "adapter_by_id ref_lib ''r0'' (snd (initialize_from_config ref_lib ?c (initial_world 0 :: (nat, unit) world))) = None"
    by (simp add: chaos_kDeviceId_def)
  then show ?thesis by blast
qed

end
