(* ===== verification/Device_Manager.thy ===== *)
theory Device_Manager
  imports Device_Factory
begin

text \<open>
  \<open>src/devices/common/device_manager.hpp\<close> and \<open>.cpp\<close>: the operations the protocol handlers
  and the ticker call, over all devices, with fault injection in front. The ticker thread itself
  is in the theory \<open>Ticker\<close>. The simulation engine is reached through its virtual functions; the
  one used here, \<open>list_signals\<close>, is an argument. The log lines are left out.
\<close>

section \<open>Inventory\<close>

primrec list_loop :: "'g lib \<Rightarrow> bool \<Rightarrow> device_registry_entry list \<Rightarrow> ('g, 'e) world \<Rightarrow> device list \<times> ('g, 'e) world" where
  "list_loop lib include_health [] w = ([], w)"
| "list_loop lib include_health (entry # entries) w =
    (let (unavailable, w) = w_is_device_unavailable (re_id entry) w in
     if unavailable then list_loop lib include_health entries w
     else case adapter_by_id lib (re_id entry) w of
            None \<Rightarrow> list_loop lib include_health entries w
          | Some adapter \<Rightarrow>
              let (out, w) = list_loop lib include_health entries w
              in (da_get_device_info adapter (re_id entry) include_health # out, w))"

definition list_devices :: "'g lib \<Rightarrow> bool \<Rightarrow> ('g, 'e) world \<Rightarrow> device list \<times> ('g, 'e) world" where
  "list_devices lib include_health w =
    (if w_config_loaded w
     then let (out, w) = list_loop lib include_health (get_registered_devices w) w
          in (out @ [chaos_get_device_info include_health], w)
     else ([], w))"

definition accepted_result :: result_spec where
  "accepted_result = \<lparr>rs_name = ''accepted'', rs_type = VALUE_TYPE_BOOL, rs_required = True,
     rs_description = ''Whether the call was accepted and applied.''\<rparr>"

definition describe_device :: "'g lib \<Rightarrow> string \<Rightarrow> ('g, 'e) world \<Rightarrow> capability_set \<times> ('g, 'e) world" where
  "describe_device lib device_id w =
    (let (unavailable, w) = w_is_device_unavailable device_id w in
     if unavailable then (empty_caps, w)
     else
       let caps = (case adapter_by_id lib device_id w of None \<Rightarrow> empty_caps | Some a \<Rightarrow> da_get_capabilities a)
       in (caps\<lparr>caps_functions :=
             map (\<lambda>fn. fn\<lparr>fs_results := fs_results fn @ [accepted_result]\<rparr>) (caps_functions caps)\<rparr>, w))"

section \<open>Reads\<close>

primrec mark_faulted :: "string \<Rightarrow> signal_value list \<Rightarrow> ('g, 'e) world \<Rightarrow> signal_value list \<times> ('g, 'e) world" where
  "mark_faulted device_id [] w = ([], w)"
| "mark_faulted device_id (sig # sigs) w =
    (let (faulted, w) = w_is_signal_faulted device_id (sv_signal_id sig) w;
         sig = (if faulted then sig\<lparr>sv_quality := QUALITY_FAULT\<rparr> else sig);
         (rest, w) = mark_faulted device_id sigs w
     in (sig # rest, w))"

definition read_signals :: "'g lib \<Rightarrow> string \<Rightarrow> string list \<Rightarrow> ('g, 'e) world \<Rightarrow> signal_value list \<times> ('g, 'e) world" where
  "read_signals lib device_id requested w =
    (let (unavailable, w) = w_is_device_unavailable device_id w in
     if unavailable then ([], w)
     else case adapter_by_id lib device_id w of
            None \<Rightarrow> ([], w)
          | Some adapter \<Rightarrow>
              let (sigs, w) = da_read_signals adapter device_id requested w
              in mark_faulted device_id sigs w)"

text \<open>The reader \<open>initialize_physics\<close> installs in the signal registry.\<close>

definition run_device_reader :: "'g lib \<Rightarrow> device_reader \<Rightarrow> string \<Rightarrow> ('g, 'e) world \<Rightarrow> double option \<times> ('g, 'e) world" where
  "run_device_reader lib reader path w =
    (case split_path path of
       None \<Rightarrow> (None, w)
     | Some (device_id, sid) \<Rightarrow>
         let (sigs, w) = read_signals lib device_id [sid] w in
         case sigs of
           [] \<Rightarrow> (None, w)
         | sig # _ \<Rightarrow>
             let v = sv_value sig in
             (if v_type v = VALUE_TYPE_DOUBLE then Some (double_value v)
              else if v_type v = VALUE_TYPE_INT64 then Some (fl (of_int (sint (int64_value v))))
              else if v_type v = VALUE_TYPE_BOOL then Some (if bool_value v then Fin 1 else Fin 0)
              else None, w))"

section \<open>Calls\<close>

definition call_function ::
  "'g lib \<Rightarrow> string \<Rightarrow> uint32 \<Rightarrow> args \<Rightarrow> ('g, 'e) world \<Rightarrow> call_result \<times> ('g, 'e) world" where
  "call_function lib device_id function_id args w =
    (let (unavailable, w) = w_is_device_unavailable device_id w in
     if unavailable then (bad ''device unavailable (injected fault)'', w)
     else
       let latency_ms = sint (get_call_latency device_id (w_faults w));
           w = (if 0 < latency_ms then w_sleep_ms latency_ms w else w);
           function_id_str = to_string_nat (unat function_id);
           (fail, w) = w_should_call_fail lib device_id function_id_str w
       in if fail then (bad ''function call failed (injected fault)'', w)
          else case adapter_by_id lib device_id w of
                 None \<Rightarrow> (nf (''unknown device_id: '' @ device_id), w)
               | Some adapter \<Rightarrow> da_call_function adapter device_id function_id args w)"

definition resolve_function_id ::
  "'g lib \<Rightarrow> string \<Rightarrow> string \<Rightarrow> ('g, 'e) world \<Rightarrow> uint32 option \<times> ('g, 'e) world" where
  "resolve_function_id lib device_id function_name w =
    (if device_id = [] \<or> function_name = [] then (None, w)
     else
       case (case m_find device_id (w_function_ids w) of
               Some fns \<Rightarrow> m_find function_name fns | None \<Rightarrow> None) of
         Some fid \<Rightarrow> (Some fid, w)
       | None \<Rightarrow>
           let (caps, w) = describe_device lib device_id w
           in (map_option fs_function_id (find (\<lambda>fn. fs_name fn = function_name) (caps_functions caps)), w))"

section \<open>The simulation side\<close>

definition cache_functions :: "string \<Rightarrow> function_spec list \<Rightarrow> (string, (string, uint32) smap) smap \<Rightarrow>
    (string, (string, uint32) smap) smap" where
  "cache_functions device_id fns cache =
     foldl (\<lambda>cache fn.
       let (names, cache) = m_get_or_insert device_id m_empty cache
       in m_put device_id (m_put (fs_name fn) (fs_function_id fn) names) cache) cache fns"

primrec cache_loop :: "'g lib \<Rightarrow> device list \<Rightarrow> ('g, 'e) world \<Rightarrow> ('g, 'e) world" where
  "cache_loop lib [] w = w"
| "cache_loop lib (dev # devs) w =
    (let device_id = d_device_id dev;
         (caps, w) = describe_device lib device_id w
     in cache_loop lib devs (w\<lparr>w_function_ids := cache_functions device_id (caps_functions caps) (w_function_ids w)\<rparr>))"

definition cache_device_capabilities :: "'g lib \<Rightarrow> ('g, 'e) world \<Rightarrow> ('g, 'e) world" where
  "cache_device_capabilities lib w =
    (let w = w\<lparr>w_function_ids := m_empty\<rparr>;
         (devs, w) = list_devices lib False w
     in cache_loop lib devs w)"

definition rebuild_physics_output_paths ::
  "('e \<Rightarrow> string list) \<Rightarrow> provider_config \<Rightarrow> string list \<Rightarrow> ('g, 'e) world \<Rightarrow> ('g, 'e) world" where
  "rebuild_physics_output_paths list_signals config active_device_ids w =
    (let w = w\<lparr>w_output_paths := []\<rparr> in
     if simulation_mode config \<noteq> Sim then w
     else case w_engine w of
            None \<Rightarrow> w
          | Some engine \<Rightarrow>
              foldl (\<lambda>w path.
                case split_path path of
                  None \<Rightarrow> w
                | Some (device_id, _) \<Rightarrow>
                    if device_id \<notin> set active_device_ids then w
                    else w\<lparr>w_output_paths := w_output_paths w @ [path],
                           w_signal_registry := map_option (mark_physics_driven path) (w_signal_registry w)\<rparr>)
                w (list_signals engine))"

definition maybe_collect_signal ::
  "'g lib \<Rightarrow> string \<Rightarrow> (string, double) smap \<Rightarrow> ('g, 'e) world \<Rightarrow> (string, double) smap \<times> ('g, 'e) world" where
  "maybe_collect_signal lib path out w =
    (case w_signal_registry w of
       None \<Rightarrow> (out, w)
     | Some r \<Rightarrow>
         if is_physics_driven path r then (out, w)
         else
           let (v, w) = registry_read_signal (run_device_reader lib) path r w
           in case v of Some x \<Rightarrow> (m_put path x out, w) | None \<Rightarrow> (out, w))"

definition actuator_paths :: "'g lib \<Rightarrow> device_registry_entry \<Rightarrow> string list" where
  "actuator_paths lib entry =
    (case sim_device_type_from_string (re_type entry) of
       None \<Rightarrow> []
     | Some t \<Rightarrow>
         map (\<lambda>s. re_id entry @ ''/'' @ s)
           (da_actuator_signal_ids (adapter_for lib t :: ('g, unit) device_adapter)))"

primrec collect_loop ::
  "'g lib \<Rightarrow> string list \<Rightarrow> (string, double) smap \<Rightarrow> ('g, 'e) world \<Rightarrow> (string, double) smap \<times> ('g, 'e) world" where
  "collect_loop lib [] out w = (out, w)"
| "collect_loop lib (path # paths) out w =
    (let (out, w) = maybe_collect_signal lib path out w in collect_loop lib paths out w)"

definition collect_actuator_signals ::
  "'g lib \<Rightarrow> (string, double) smap \<Rightarrow> ('g, 'e) world \<Rightarrow> (string, double) smap \<times> ('g, 'e) world" where
  "collect_actuator_signals lib signals w =
     collect_loop lib (concat (map (actuator_paths lib) (get_registered_devices w))) signals w"

text \<open>An exception is the first component.\<close>

definition configure_simulation_inputs :: "provider_config \<Rightarrow> ('g, 'e) world \<Rightarrow> string option \<times> ('g, 'e) world" where
  "configure_simulation_inputs config w =
    (let w = w\<lparr>w_ambient := None\<rparr> in
     if simulation_mode config \<noteq> Sim then (None, w)
     else case ambient_temp_c config of
            None \<Rightarrow> (None, w)
          | Some ambient_temp \<Rightarrow>
              let ambient_path = value_or (ambient_signal_path config) ''environment/ambient_temp''
              in if ambient_path = [] then (Some ''[CONFIG] simulation.ambient_signal_path cannot be empty'', w)
                 else (None, w\<lparr>w_ambient := Some (ambient_path, ambient_temp)\<rparr>))"

primrec pb_of_command_value :: "command_value \<Rightarrow> pb_value" where
  "pb_of_command_value (CvDouble d) = make_double d"
| "pb_of_command_value (CvInt i) = make_int64 i"
| "pb_of_command_value (CvBool b) = make_bool b"
| "pb_of_command_value (CvString s) = make_string s"

definition command_args :: "(string, command_value) smap \<Rightarrow> args" where
  "command_args cargs = foldl (\<lambda>pb (k, v). m_put k (pb_of_command_value v) pb) m_empty cargs"

text \<open>The result of the call is only logged; it is returned here, \<open>None\<close> when there was no call.\<close>

definition execute_engine_command :: "'g lib \<Rightarrow> command \<Rightarrow> ('g, 'e) world \<Rightarrow> call_result option \<times> ('g, 'e) world" where
  "execute_engine_command lib cmd w =
    (case m_find (cmd_device_id cmd) (w_function_ids w) of
       None \<Rightarrow> (None, w)
     | Some fns \<Rightarrow>
         (case m_find (cmd_function_name cmd) fns of
            None \<Rightarrow> (None, w)
          | Some fid \<Rightarrow>
              let (result, w) = call_function lib (cmd_device_id cmd) fid (command_args (cmd_args cmd)) w
              in (Some result, w)))"

text \<open>The control loop named by an adapter's slot.\<close>

definition adapter_update_control :: "'g lib \<Rightarrow> control_slot \<Rightarrow> string \<Rightarrow> ('g, 'e) world \<Rightarrow> ('g, 'e) world" where
  "adapter_update_control lib slot device_id w =
    (case slot of
       NoUpdateControl \<Rightarrow> w
     | TempctlUpdateControl \<Rightarrow>
         let (m, w) = tempctl_update_control
               (\<lambda>reader path (m, w).
                  let (v, w) = run_device_reader lib reader path (w\<lparr>w_tempctl := m\<rparr>) in (v, w_tempctl w, w))
               (w_signal_registry w) device_id (w_tempctl w, w)
         in w\<lparr>w_tempctl := m\<rparr>)"

section \<open>Lifecycle\<close>

definition set_simulation_engine :: "'e \<Rightarrow> ('g, 'e) world \<Rightarrow> ('g, 'e) world" where
  "set_simulation_engine engine w = w\<lparr>w_engine := Some engine\<rparr>"

definition initialize_physics ::
  "'g lib \<Rightarrow> ('e \<Rightarrow> string list) \<Rightarrow> provider_config \<Rightarrow> string list \<Rightarrow> ('g, 'e) world \<Rightarrow> string option \<times> ('g, 'e) world" where
  "initialize_physics lib list_signals config active_device_ids w =
    (let w = w\<lparr>w_mode := simulation_mode config, w_tick_rate := value_or (tick_rate_hz config) (Fin 10)\<rparr>;
         (exn, w) = configure_simulation_inputs config w
     in case exn of
          Some e \<Rightarrow> (Some e, w)
        | None \<Rightarrow>
            let w = w\<lparr>w_signal_registry := Some (set_device_reader (Some DeviceSignalReader) empty_registry)\<rparr>;
                w = cache_device_capabilities lib w
            in (None, rebuild_physics_output_paths list_signals config active_device_ids w))"

definition start_physics :: "('g, 'e) world \<Rightarrow> ('g, 'e) world" where
  "start_physics w =
    (if w_mode w = Inert then w
     else if w_engine w = None then w
     else if w_ticker_running w then w
     else w\<lparr>w_ticker_running := True\<rparr>)"

text \<open>After the ticker thread has been joined.\<close>

definition stop_physics :: "('g, 'e) world \<Rightarrow> ('g, 'e) world" where
  "stop_physics w = w\<lparr>w_ticker_running := False, w_output_paths := [], w_function_ids := m_empty,
     w_signal_registry := None, w_engine := None, w_ambient := None\<rparr>"

section \<open>What the operations leave alone\<close>

text \<open>The states of all modules for one device id, as their handlers see them.\<close>

definition device_view :: "'g lib \<Rightarrow> string \<Rightarrow> ('g, 'e) world \<Rightarrow>
    tempctl_state \<times> motorctl_state \<times> relayio_state \<times> 'g analogsensor_state" where
  "device_view lib d w = (tempctl_at d (w_tempctl w), motorctl_at d (w_motorctl w), relayio_at d (w_relayio w),
     analogsensor_at lib d (w_analog w))"

lemma device_view_faults [simp]: "device_view lib d (w\<lparr>w_faults := f\<rparr>) = device_view lib d w"
  by (simp add: device_view_def)

lemma device_view_sleep [simp]: "device_view lib d (w_sleep_ms k w) = device_view lib d w"
  by (simp add: device_view_def w_sleep_ms_def)

lemma unavailable_state:
  "w_is_device_unavailable d w =
     (unavailable_now d w, w\<lparr>w_faults := snd (is_device_unavailable d (w_now w) (w_faults w))\<rparr>)"
  by (simp add: w_is_device_unavailable_def unavailable_now_def case_prod_beta)

lemma same_frame_faults [simp]: "same_frame w (w\<lparr>w_faults := f\<rparr>)"
  by (simp add: same_frame_eq)

lemma adapter_by_id_faults [simp]: "adapter_by_id lib d (w\<lparr>w_faults := f\<rparr>) = adapter_by_id lib d w"
  by (rule adapter_by_id_cong) simp

lemma adapter_by_id_sleep [simp]: "adapter_by_id lib d (w_sleep_ms k w) = adapter_by_id lib d w"
  by (simp add: adapter_by_id_def w_sleep_ms_def is_device_registered_def get_device_type_def)

lemma adapter_call_view:
  assumes "adapter_by_id lib d0 w0 = Some a"
  shows "d' \<noteq> d \<Longrightarrow> device_view lib d' (snd (da_call_function a d f as w)) = device_view lib d' w"
    and "cr_code (fst (da_call_function a d f as w)) \<noteq> CODE_OK \<Longrightarrow>
      device_view lib d' (snd (da_call_function a d f as w)) = device_view lib d' w"
proof -
  show "d' \<noteq> d \<Longrightarrow> device_view lib d' (snd (da_call_function a d f as w)) = device_view lib d' w"
    by (cases rule: adapter_cases[OF assms])
      (simp_all add: adapter_defs case_prod_beta device_view_def tempctl.call_frame motorctl.call_frame relayio.call_frame
        analogsensor.call_frame)
  show "cr_code (fst (da_call_function a d f as w)) \<noteq> CODE_OK \<Longrightarrow>
      device_view lib d' (snd (da_call_function a d f as w)) = device_view lib d' w"
    using tempctl.rejected_same_states[of d f as "w_tempctl w"] motorctl.rejected_same_states[of d f as "w_motorctl w"]
      relayio.rejected_same_states[of d f as "w_relayio w"] analogsensor.rejected_same_states[of lib d f as "w_analog w"]
    by (cases rule: adapter_cases[OF assms])
      (simp_all add: adapter_defs case_prod_beta device_view_def tempctl.same_states_def motorctl.same_states_def
        relayio.same_states_def analogsensor.same_states_def)
qed

lemma adapter_read_view:
  assumes "adapter_by_id lib d0 w0 = Some a" and "d' \<noteq> d"
  shows "device_view lib d' (snd (da_read_signals a d ids w)) = device_view lib d' w"
  using assms(2)
  by (cases rule: adapter_cases[OF assms(1)])
    (simp_all add: adapter_defs case_prod_beta device_view_def tempctl.read_frame motorctl.read_frame relayio.read_frame
      analogsensor.read_frame)

section \<open>Calls\<close>

text \<open>Whether an injected failure rule rejects the next call of a function.\<close>

definition fails_now :: "'g lib \<Rightarrow> string \<Rightarrow> uint32 \<Rightarrow> ('g, 'e) world \<Rightarrow> bool" where
  "fails_now lib d f w \<longleftrightarrow> (case failure_rate_of d (to_string_nat (unat f)) (w_faults w) of
      None \<Rightarrow> False
    | Some rate \<Rightarrow> dless (fst (lib_uniform01 lib (fault_rng (w_faults w)))) rate)"

definition injected_latency :: "string \<Rightarrow> ('g, 'e) world \<Rightarrow> int" where
  "injected_latency d w = max 0 (sint (get_call_latency d (w_faults w)))"

text \<open>The process in which the adapter of an admitted call runs: expired faults dropped, the latency slept,
  the random engine advanced if a rule was consulted.\<close>

definition admitted :: "'g lib \<Rightarrow> string \<Rightarrow> uint32 \<Rightarrow> ('g, 'e) world \<Rightarrow> ('g, 'e) world" where
  "admitted lib d f w =
     (let w = w\<lparr>w_faults := snd (is_device_unavailable d (w_now w) (w_faults w))\<rparr>;
          w = (if 0 < injected_latency d w then w_sleep_ms (injected_latency d w) w else w)
      in w\<lparr>w_faults := snd (should_call_fail lib d (to_string_nat (unat f)) (w_faults w))\<rparr>)"

lemma call_function_eq:
  "call_function lib d f as w =
     (if unavailable_now d w
      then (bad ''device unavailable (injected fault)'', w\<lparr>w_faults := snd (is_device_unavailable d (w_now w) (w_faults w))\<rparr>)
      else if fails_now lib d f w then (bad ''function call failed (injected fault)'', admitted lib d f w)
      else case adapter_by_id lib d w of
             None \<Rightarrow> (nf (''unknown device_id: '' @ d), admitted lib d f w)
           | Some a \<Rightarrow> da_call_function a d f as (admitted lib d f w))"
proof -
  define w1 where "w1 = w\<lparr>w_faults := snd (is_device_unavailable d (w_now w) (w_faults w))\<rparr>"
  define w2 where "w2 = (if 0 < sint (get_call_latency d (w_faults w1)) then w_sleep_ms (sint (get_call_latency d (w_faults w1))) w1 else w1)"
  have lat: "injected_latency d w1 = max 0 (sint (get_call_latency d (w_faults w1)))" by (simp add: injected_latency_def)
  have f2: "w_faults w2 = w_faults w1" by (simp add: w2_def w_sleep_ms_def)
  have adm: "admitted lib d f w = w2\<lparr>w_faults := snd (should_call_fail lib d (to_string_nat (unat f)) (w_faults w2))\<rparr>"
    unfolding admitted_def Let_def w1_def[symmetric] w2_def lat by (simp add: max_def)
  have rate: "failure_rate_of d x (w_faults w1) = failure_rate_of d x (w_faults w)" for x
    by (rule failure_rate_of_cong) (simp add: w1_def)
  have rng: "fault_rng (w_faults w1) = fault_rng (w_faults w)" by (simp add: w1_def)
  have "fst (should_call_fail lib d (to_string_nat (unat f)) (w_faults w2)) = fails_now lib d f w"
    unfolding f2 should_call_fail_eq rate rng fails_now_def by (simp split: option.split)
  then have fail: "w_should_call_fail lib d (to_string_nat (unat f)) w2 = (fails_now lib d f w, admitted lib d f w)"
    unfolding w_should_call_fail_def adm by (simp add: case_prod_beta)
  have a: "adapter_by_id lib d (admitted lib d f w) = adapter_by_id lib d w"
    unfolding adm w2_def by (simp add: w1_def)
  show ?thesis
    unfolding call_function_def unavailable_state Let_def prod.case w1_def[symmetric] w2_def[symmetric] fail a ..
qed

lemma admitted_view [simp]: "device_view lib d' (admitted lib d f w) = device_view lib d' w"
  by (simp add: admitted_def Let_def)

lemma get_call_latency_cong: "call_latency_faults s = call_latency_faults s' \<Longrightarrow> get_call_latency d s = get_call_latency d s'"
  by (simp add: get_call_latency_def)

lemma admitted_clock: "w_now (admitted lib d f w) = w_now w + injected_latency d w * 1000000"
proof -
  have "get_call_latency d (snd (is_device_unavailable d (w_now w) (w_faults w))) = get_call_latency d (w_faults w)"
    by (rule get_call_latency_cong) simp
  then show ?thesis by (auto simp: admitted_def Let_def w_sleep_ms_def injected_latency_def)
qed

lemma admitted_frame: "same_frame (w\<lparr>w_now := w_now (admitted lib d f w), w_system_now := w_system_now (admitted lib d f w)\<rparr>) (admitted lib d f w)"
  by (simp add: same_frame_eq admitted_def Let_def w_sleep_ms_def)

section \<open>Properties of calls\<close>

lemma call_gates:
  assumes "call_function lib d f as w = (r, w')"
  shows "(unavailable_now d w \<longrightarrow> r = bad ''device unavailable (injected fault)'') \<and>
    (\<not> unavailable_now d w \<longrightarrow> fails_now lib d f w \<longrightarrow> r = bad ''function call failed (injected fault)'') \<and>
    (\<not> unavailable_now d w \<longrightarrow> \<not> fails_now lib d f w \<longrightarrow>
       (cr_code r = CODE_NOT_FOUND \<longleftrightarrow>
          (case adapter_by_id lib d w of None \<Rightarrow> True | Some a \<Rightarrow> f \<notin> set (function_ids (da_get_capabilities a))))) \<and>
    (cr_code r = CODE_OK \<longrightarrow> \<not> unavailable_now d w \<and> \<not> fails_now lib d f w \<and>
       (\<exists>a. adapter_by_id lib d w = Some a \<and> call_conforms (da_get_capabilities a) f as)) \<and>
    (d' \<noteq> d \<or> cr_code r \<noteq> CODE_OK \<longrightarrow> device_view lib d' w' = device_view lib d' w) \<and>
    w_now w' = w_now w + (if unavailable_now d w then 0 else injected_latency d w * 1000000)"
proof -
  have eq: "(r, w') = (if unavailable_now d w
      then (bad ''device unavailable (injected fault)'', w\<lparr>w_faults := snd (is_device_unavailable d (w_now w) (w_faults w))\<rparr>)
      else if fails_now lib d f w then (bad ''function call failed (injected fault)'', admitted lib d f w)
      else case adapter_by_id lib d w of
             None \<Rightarrow> (nf (''unknown device_id: '' @ d), admitted lib d f w)
           | Some a \<Rightarrow> da_call_function a d f as (admitted lib d f w))"
    using assms call_function_eq[of lib d f as w] by simp
  show ?thesis
  proof (cases "unavailable_now d w \<or> fails_now lib d f w \<or> adapter_by_id lib d w = None")
    case True
    with eq show ?thesis by (auto simp: admitted_clock split: if_splits)
  next
    case False
    then obtain a where a: "adapter_by_id lib d w = Some a" and gates: "\<not> unavailable_now d w" "\<not> fails_now lib d f w" by auto
    with eq have res: "(r, w') = da_call_function a d f as (admitted lib d f w)" by simp
    then have rs: "r = fst (da_call_function a d f as (admitted lib d f w))" "w' = snd (da_call_function a d f as (admitted lib d f w))"
      by (metis fst_conv, metis snd_conv)
    have "w_now w' = w_now (admitted lib d f w)"
      using same_frame_fields(6)[OF adapter_frame(2)[OF a]] by (simp add: rs)
    then show ?thesis
      using gates a adapter_call_not_found[OF a, where d = d and f = f and as = as and w = "admitted lib d f w"]
        adapter_call_conforming[OF a, where d = d and f = f and as = as and w = "admitted lib d f w"]
        adapter_call_view[OF a, where d' = d' and d = d and f = f and as = as and w = "admitted lib d f w"]
      by (auto simp: rs admitted_clock)
  qed
qed

text \<open>C1. A call goes through the same gates in the same order on every device, the chaos device
  included: unavailability, latency, injected failure, existence of the device, the handler. It
  succeeds only if no fault stands in the way and it conforms to the capabilities of its device;
  it answers \<open>NOT_FOUND\<close>, with no fault in the way, exactly for an unknown device or an
  unadvertised function; a call that does not succeed changes the state of no device, and one
  that does changes no other device. It takes exactly the injected latency, unless the device is
  unavailable.\<close>

theorem manager_call_gates:
  assumes "call_function lib d f as w = (r, w')"
  shows "(unavailable_now d w \<longrightarrow> r = bad ''device unavailable (injected fault)'') \<and>
    (\<not> unavailable_now d w \<longrightarrow> fails_now lib d f w \<longrightarrow> r = bad ''function call failed (injected fault)'') \<and>
    (\<not> unavailable_now d w \<longrightarrow> \<not> fails_now lib d f w \<longrightarrow>
       (cr_code r = CODE_NOT_FOUND \<longleftrightarrow>
          (case adapter_by_id lib d w of None \<Rightarrow> True | Some a \<Rightarrow> f \<notin> set (function_ids (da_get_capabilities a))))) \<and>
    (cr_code r = CODE_OK \<longrightarrow> \<not> unavailable_now d w \<and> \<not> fails_now lib d f w \<and>
       (\<exists>a. adapter_by_id lib d w = Some a \<and> call_conforms (da_get_capabilities a) f as)) \<and>
    (d' \<noteq> d \<or> cr_code r \<noteq> CODE_OK \<longrightarrow> device_view lib d' w' = device_view lib d' w) \<and>
    w_now w' = w_now w + (if unavailable_now d w then 0 else injected_latency d w * 1000000)"
  by (rule call_gates[OF assms])

theorem manager_call_gates_witness:
  "w_now (snd (call_function ref_lib ''nobody'' 1 m_empty
     ((initial_world 0 :: (nat, unit) world)\<lparr>w_faults := inject_call_latency ''nobody'' 250 (init_fault_state 0)\<rparr>))) = 250000000"
  using manager_call_gates[OF prod.collapse[symmetric], where lib = ref_lib and d = "''nobody''" and f = 1 and as = m_empty and
      w = "(initial_world 0 :: (nat, unit) world)\<lparr>w_faults := inject_call_latency ''nobody'' 250 (init_fault_state 0)\<rparr>"]
  by (simp add: unavailable_now_def is_device_unavailable_def inject_call_latency_def init_fault_state_def initial_world_def
      injected_latency_def get_call_latency_def)

end
