(* ===== verification/Config_Schema.thy ===== *)
theory Config_Schema
  imports World
begin

text \<open>
  \<open>src/config_schema.hpp\<close> and \<open>.cpp\<close>: the schema the provider declares once. The builder classes
  belong to the SDK; each call of the builder is an entry of the data below, in the order of the
  calls. Nothing here says what the SDK does with the schema: what the loader relies on is the
  hypothesis \<open>validate_law\<close> of the theory \<open>Config\<close>.
\<close>

section \<open>What the builder calls record\<close>

datatype field_type = StringType | NumberType

record cfg_field =
  cf_name :: string
  cf_type :: field_type
  cf_required :: bool
  cf_unique :: bool
  cf_non_empty :: bool
  cf_title :: string
  cf_description :: string
  cf_pattern :: "string option"
  cf_forbidden :: "(string \<times> string) list"    \<comment> \<open>value and message\<close>
  cf_enum :: "(string \<times> string) list"         \<comment> \<open>value and label\<close>
  cf_min :: "double option"
  cf_max :: "double option"
  cf_placeholder :: "string option"
  cf_default :: "string option"

definition new_field :: "field_type \<Rightarrow> string \<Rightarrow> cfg_field" where
  "new_field t name = \<lparr>cf_name = name, cf_type = t, cf_required = False, cf_unique = False, cf_non_empty = False,
     cf_title = [], cf_description = [], cf_pattern = None, cf_forbidden = [], cf_enum = [], cf_min = None, cf_max = None,
     cf_placeholder = None, cf_default = None\<rparr>"

abbreviation string_field :: "string \<Rightarrow> cfg_field" where
  "string_field \<equiv> new_field StringType"

abbreviation number_field :: "string \<Rightarrow> cfg_field" where
  "number_field \<equiv> new_field NumberType"

datatype openness = Open | Closed

record cfg_when =
  wh_require :: "string list"
  wh_forbid :: "string list"

record cfg_object =
  ob_openness :: openness
  ob_fields :: "cfg_field list"
  ob_dependent :: "(string \<times> string list) list"
  ob_whens :: "(string \<times> string \<times> cfg_when) list"
  ob_deprecated :: "(string \<times> string) list"

definition new_object :: "openness \<Rightarrow> cfg_field list \<Rightarrow> cfg_object" where
  "new_object op fs = \<lparr>ob_openness = op, ob_fields = fs, ob_dependent = [], ob_whens = [], ob_deprecated = []\<rparr>"

record cfg_schema =
  sc_root :: cfg_object
  sc_children :: "(string \<times> cfg_object \<times> bool) list"   \<comment> \<open>with \<open>Presence::Required\<close>\<close>
  sc_arrays :: "(string \<times> cfg_object) list"
  sc_title :: string
  sc_description :: string

section \<open>The provider's schema\<close>

definition provider_object :: cfg_object where
  "provider_object = new_object Open
     [(string_field ''name'')\<lparr>cf_required := True, cf_title := ''Provider name'',
        cf_description := ''Stable identifier for this provider instance.'',
        cf_pattern := Some ''^[A-Za-z0-9_.-]{1,64}$''\<rparr>]"

definition device_object :: cfg_object where
  "device_object = new_object Open
     [(string_field ''id'')\<lparr>cf_required := True, cf_unique := True, cf_non_empty := True, cf_title := ''Device id'',
        cf_forbidden := [(''chaos_control'', ''devices[].id '' @ [CHR 0x27] @ ''chaos_control'' @ [CHR 0x27] @
          '' is reserved and cannot be configured explicitly'')]\<rparr>,
      (string_field ''type'')\<lparr>cf_required := True, cf_non_empty := True, cf_title := ''Device type'',
        cf_description := ''A device type registered with the factory; the built-in set is tempctl, motorctl, relayio, analogsensor.''\<rparr>]"

definition simulation_object :: cfg_object where
  "simulation_object = (new_object Closed
     [(string_field ''mode'')\<lparr>cf_required := True, cf_title := ''Simulation mode'',
        cf_enum := [(''non_interacting'', ''Local physics (fixed tick)''), (''inert'', ''No automatic updates''),
          (''sim'', ''External simulation engine'')]\<rparr>,
      (number_field ''tick_rate_hz'')\<lparr>cf_title := ''Tick rate (Hz)'',
        cf_description := ''Required for the ticking modes (non_interacting, sim).'',
        cf_min := Some (fl (1 / 10)), cf_max := Some (Fin 1000), cf_placeholder := Some ''10''\<rparr>,
      (string_field ''physics_config'')\<lparr>cf_non_empty := True, cf_title := ''Physics config path'',
        cf_description := ''Path to the external physics config; required for mode sim, resolved relative to this config file.''\<rparr>,
      (number_field ''ambient_temp_c'')\<lparr>cf_title := ''Ambient temperature ('' @ [CHR 0xC2, CHR 0xB0] @ ''C)''\<rparr>,
      (string_field ''ambient_signal_path'')\<lparr>cf_non_empty := True, cf_title := ''Ambient signal path'',
        cf_description := ''Signal path that publishes the ambient temperature; requires ambient_temp_c.''\<rparr>])
    \<lparr>ob_dependent := [(''ambient_signal_path'', [''ambient_temp_c''])],
     ob_whens :=
       [(''mode'', ''inert'', \<lparr>wh_require = [],
           wh_forbid = [''tick_rate_hz'', ''physics_config'', ''ambient_temp_c'', ''ambient_signal_path'']\<rparr>),
        (''mode'', ''non_interacting'', \<lparr>wh_require = [''tick_rate_hz''],
           wh_forbid = [''physics_config'', ''ambient_temp_c'', ''ambient_signal_path'']\<rparr>),
        (''mode'', ''sim'', \<lparr>wh_require = [''tick_rate_hz'', ''physics_config''], wh_forbid = []\<rparr>)],
     ob_deprecated :=
       [(''noise_enabled'', ''simulation.noise_enabled is no longer supported''),
        (''update_rate_hz'', ''simulation.update_rate_hz is no longer supported'')]\<rparr>"

definition root_object :: cfg_object where
  "root_object = new_object Open
     [(string_field ''startup_policy'')\<lparr>cf_title := ''Startup policy'',
        cf_enum := [(''strict'', ''Abort on first device init failure''),
          (''degraded'', ''Continue with the devices that initialized'')],
        cf_default := Some ''strict''\<rparr>]"

definition provider_schema :: cfg_schema where
  "provider_schema = \<lparr>sc_root = root_object,
     sc_children = [(''provider'', provider_object, False), (''simulation'', simulation_object, True)],
     sc_arrays = [(''devices'', device_object)],
     sc_title = ''anolis-provider-sim configuration'',
     sc_description = ''Simulated devices for development and testing.''\<rparr>"

end
