(* ===== verification/Config.thy ===== *)
theory Config
  imports Config_Schema
begin

text \<open>
  \<open>src/config.cpp\<close>: parsing of the mode and the policy, and \<open>load_config\<close>. The YAML reader, the
  validator and the typed helpers of the SDK, and \<open>fs::absolute\<close>, are the record \<open>sdk\<close>; \<open>'v\<close> is the
  type of a validation error. An undefined node is \<open>None\<close>. An exception is the left result, with its
  message. Looking a key up in a node that is not constant leaves an undefined entry behind, which
  no later lookup shows.
\<close>

section \<open>The SDK, yaml-cpp and the file system\<close>

record 'v sdk =
  sdk_load_file :: "string \<Rightarrow> string + yaml"              \<comment> \<open>\<open>YAML::LoadFile\<close>, or what the exception says\<close>
  sdk_absolute :: "string \<Rightarrow> string"                      \<comment> \<open>\<open>fs::absolute(path).string()\<close>\<close>
  sdk_validate :: "cfg_schema \<Rightarrow> yaml \<Rightarrow> 'v list"
  sdk_format_errors :: "'v list \<Rightarrow> string"
  sdk_as_string :: "yaml option \<Rightarrow> string option"
  sdk_as_double :: "yaml option \<Rightarrow> double option"
  sdk_bad_subscript :: "string \<Rightarrow> string"                 \<comment> \<open>a key looked up in a scalar\<close>
  sdk_invalid_node :: string                             \<comment> \<open>a key of a sequence\<close>
  sdk_read_file :: "string \<Rightarrow> string option"             \<comment> \<open>an \<open>ifstream\<close> read to its end, \<open>None\<close> when it does not open\<close>
  sdk_node_string :: "yaml \<Rightarrow> string + string"           \<comment> \<open>\<open>node.as<std::string>()\<close>\<close>

definition y_find :: "string \<Rightarrow> (yaml \<times> yaml) list \<Rightarrow> yaml option" where
  "y_find key kvs = map_option snd (find (\<lambda>(k, v). k = YScalar key) kvs)"

text \<open>\<open>node[key]\<close> with a string key.\<close>

definition y_sub :: "'v sdk \<Rightarrow> yaml option \<Rightarrow> string \<Rightarrow> string + yaml option" where
  "y_sub sdk node key = (case node of
      Some (YScalar s) \<Rightarrow> Inl (sdk_bad_subscript sdk key)
    | Some (YMapping kvs) \<Rightarrow> Inr (y_find key kvs)
    | _ \<Rightarrow> Inr None)"

text \<open>\<open>node.Scalar()\<close>: empty unless the node is a scalar.\<close>

definition y_scalar_text :: "yaml \<Rightarrow> string" where
  "y_scalar_text y = (case y of YScalar s \<Rightarrow> s | _ \<Rightarrow> [])"

text \<open>The pairs a \<open>for\<close> over a node visits.\<close>

definition y_entries :: "'v sdk \<Rightarrow> yaml \<Rightarrow> string + (yaml \<times> yaml) list" where
  "y_entries sdk node = (case node of
      YMapping kvs \<Rightarrow> Inr kvs
    | YSequence ys \<Rightarrow> (if ys = [] then Inr [] else Inl (sdk_invalid_node sdk))
    | _ \<Rightarrow> Inr [])"

section \<open>Parsing\<close>

definition parse_simulation_mode :: "string \<Rightarrow> string + simulation_mode" where
  "parse_simulation_mode mode_str =
    (if mode_str = ''non_interacting'' then Inr NonInteracting
     else if mode_str = ''inert'' then Inr Inert
     else if mode_str = ''sim'' then Inr Sim
     else Inl (''Invalid simulation.mode: '' @ [CHR 0x27] @ mode_str @ [CHR 0x27] @
               ''. Valid values: non_interacting, inert, sim''))"

definition parse_startup_policy :: "string \<Rightarrow> string + startup_policy" where
  "parse_startup_policy policy_str =
    (if policy_str = ''strict'' then Inr Strict
     else if policy_str = ''degraded'' then Inr Degraded
     else Inl (''Invalid startup_policy: '' @ [CHR 0x27] @ policy_str @ [CHR 0x27] @
               ''. Valid values: strict, degraded''))"

text \<open>One turn of the loop over \<open>devices\<close>.\<close>

definition device_spec_of :: "'v sdk \<Rightarrow> yaml \<Rightarrow> string + device_spec" where
  "device_spec_of sdk device_node =
     bindE (y_sub sdk (Some device_node) ''id'') (\<lambda>id_node.
     bindE (y_sub sdk (Some device_node) ''type'') (\<lambda>type_node.
     bindE (y_entries sdk device_node) (\<lambda>kvs.
       Inr \<lparr>ds_id = (case sdk_as_string sdk id_node of Some i \<Rightarrow> i | None \<Rightarrow> []),
            ds_type = (case sdk_as_string sdk type_node of Some t \<Rightarrow> t | None \<Rightarrow> []),
            ds_config = foldl (\<lambda>config (k, v).
              let key = y_scalar_text k
              in if key \<noteq> ''id'' \<and> key \<noteq> ''type'' then m_put key v config else config) m_empty kvs\<rparr>)))"

primrec device_specs :: "'v sdk \<Rightarrow> yaml list \<Rightarrow> string + device_spec list" where
  "device_specs sdk [] = Inr []"
| "device_specs sdk (node # nodes) =
     bindE (device_spec_of sdk node) (\<lambda>spec. bindE (device_specs sdk nodes) (\<lambda>specs. Inr (spec # specs)))"

text \<open>The last loop: the first device with bindings outside the mode \<open>sim\<close> is refused.\<close>

definition check_bindings :: "provider_config \<Rightarrow> string + provider_config" where
  "check_bindings config =
    (if simulation_mode config \<noteq> Sim
     then case find (\<lambda>device. m_mem ''physics_bindings'' (ds_config device)) (config_devices config) of
            Some device \<Rightarrow> Inl (''[CONFIG] Device '' @ [CHR 0x27] @ ds_id device @ [CHR 0x27] @
              '' has physics_bindings but mode!= sim (prevents silent ignored config)'')
          | None \<Rightarrow> Inr config
     else Inr config)"

text \<open>
  \<open>uninit\<close> is what the mode of a fresh \<open>ProviderConfig\<close> holds: the member has no initializer.
\<close>

definition extract_config :: "'v sdk \<Rightarrow> simulation_mode \<Rightarrow> string \<Rightarrow> yaml \<Rightarrow> string + provider_config" where
  "extract_config sdk uninit path yaml =
     bindE (y_sub sdk (Some yaml) ''provider'') (\<lambda>provider.
     bindE (y_sub sdk provider ''name'') (\<lambda>name_node.
     bindE (y_sub sdk (Some yaml) ''startup_policy'') (\<lambda>policy_node.
     bindE (case sdk_as_string sdk policy_node of Some policy \<Rightarrow> parse_startup_policy policy | None \<Rightarrow> Inr Strict) (\<lambda>policy.
     bindE (y_sub sdk (Some yaml) ''devices'') (\<lambda>devices.
     bindE (case devices of Some (YSequence nodes) \<Rightarrow> device_specs sdk nodes | _ \<Rightarrow> Inr []) (\<lambda>specs.
     bindE (y_sub sdk (Some yaml) ''simulation'') (\<lambda>simulation.
     bindE (y_sub sdk simulation ''mode'') (\<lambda>mode_node.
     bindE (case sdk_as_string sdk mode_node of Some mode_str \<Rightarrow> parse_simulation_mode mode_str | None \<Rightarrow> Inr uninit) (\<lambda>m.
     bindE (y_sub sdk simulation ''tick_rate_hz'') (\<lambda>tick_node.
     bindE (y_sub sdk simulation ''physics_config'') (\<lambda>physics_node.
     bindE (y_sub sdk simulation ''ambient_temp_c'') (\<lambda>ambient_node.
     bindE (y_sub sdk simulation ''ambient_signal_path'') (\<lambda>signal_node.
       check_bindings
         \<lparr>config_file_path = sdk_absolute sdk path, provider_name = sdk_as_string sdk name_node, startup_policy = policy,
          config_devices = specs, simulation_mode = m, tick_rate_hz = sdk_as_double sdk tick_node,
          physics_config_path = sdk_as_string sdk physics_node, ambient_temp_c = sdk_as_double sdk ambient_node,
          ambient_signal_path = sdk_as_string sdk signal_node\<rparr>)))))))))))))"

definition load_config :: "'v sdk \<Rightarrow> simulation_mode \<Rightarrow> string \<Rightarrow> string + provider_config" where
  "load_config sdk uninit path =
    (case sdk_load_file sdk path of
       Inl e \<Rightarrow> Inl (''Failed to load config file '' @ [CHR 0x27] @ path @ [CHR 0x27] @ '': '' @ e)
     | Inr yaml \<Rightarrow>
         let errors = sdk_validate sdk provider_schema yaml in
         if errors \<noteq> []
         then Inl (''[CONFIG] Invalid config '' @ [CHR 0x27] @ path @ [CHR 0x27] @ '':'' @ [CHR 0x0A] @ sdk_format_errors sdk errors)
         else extract_config sdk uninit path yaml)"

section \<open>What validation promises\<close>

text \<open>
  A document \<^emph>\<open>meets\<close> a schema when the constraints the schema names hold of it, read with the
  SDK's own typed helpers. Patterns and the rejection of unknown keys are left out: the loader does
  not rely on them.
\<close>

definition field_met :: "'v sdk \<Rightarrow> (yaml \<times> yaml) list \<Rightarrow> cfg_field \<Rightarrow> bool" where
  "field_met sdk kvs f = (case y_find (cf_name f) kvs of
      None \<Rightarrow> \<not> cf_required f
    | Some v \<Rightarrow>
        (case cf_type f of
           StringType \<Rightarrow> (case sdk_as_string sdk (Some v) of
              None \<Rightarrow> False
            | Some s \<Rightarrow> (cf_non_empty f \<longrightarrow> s \<noteq> []) \<and> s \<notin> set (map fst (cf_forbidden f)) \<and>
                (cf_enum f \<noteq> [] \<longrightarrow> s \<in> set (map fst (cf_enum f))))
         | NumberType \<Rightarrow> (case sdk_as_double sdk (Some v) of
              None \<Rightarrow> False
            | Some d \<Rightarrow> (case cf_min f of Some a \<Rightarrow> dleq a d | None \<Rightarrow> True) \<and>
                (case cf_max f of Some b \<Rightarrow> dleq d b | None \<Rightarrow> True))))"

definition present :: "(yaml \<times> yaml) list \<Rightarrow> string \<Rightarrow> bool" where
  "present kvs key \<longleftrightarrow> y_find key kvs \<noteq> None"

definition when_met :: "'v sdk \<Rightarrow> (yaml \<times> yaml) list \<Rightarrow> string \<times> string \<times> cfg_when \<Rightarrow> bool" where
  "when_met sdk kvs c = (case c of (key, value, wh) \<Rightarrow>
      sdk_as_string sdk (y_find key kvs) = Some value \<longrightarrow>
      list_all (present kvs) (wh_require wh) \<and> list_all (\<lambda>k. \<not> present kvs k) (wh_forbid wh))"

definition object_met :: "'v sdk \<Rightarrow> cfg_object \<Rightarrow> yaml \<Rightarrow> bool" where
  "object_met sdk ob node = (case node of
      YMapping kvs \<Rightarrow> list_all (field_met sdk kvs) (ob_fields ob) \<and>
        list_all (\<lambda>(key, needs). present kvs key \<longrightarrow> list_all (present kvs) needs) (ob_dependent ob) \<and>
        list_all (when_met sdk kvs) (ob_whens ob)
    | _ \<Rightarrow> False)"

definition text_of :: "'v sdk \<Rightarrow> string \<Rightarrow> yaml \<Rightarrow> string option" where
  "text_of sdk key node = (case node of YMapping kvs \<Rightarrow> sdk_as_string sdk (y_find key kvs) | _ \<Rightarrow> None)"

definition array_met :: "'v sdk \<Rightarrow> cfg_object \<Rightarrow> yaml \<Rightarrow> bool" where
  "array_met sdk ob node = (case node of
      YSequence items \<Rightarrow> list_all (object_met sdk ob) items \<and>
        list_all (\<lambda>f. cf_unique f \<longrightarrow>
          distinct (filter (\<lambda>t. t \<noteq> None) (map (text_of sdk (cf_name f)) items))) (ob_fields ob)
    | _ \<Rightarrow> False)"

definition schema_met :: "'v sdk \<Rightarrow> cfg_schema \<Rightarrow> yaml \<Rightarrow> bool" where
  "schema_met sdk sc node = (case node of
      YMapping kvs \<Rightarrow> object_met sdk (sc_root sc) node \<and>
        list_all (\<lambda>(key, ob, req). case y_find key kvs of None \<Rightarrow> \<not> req | Some v \<Rightarrow> object_met sdk ob v) (sc_children sc) \<and>
        list_all (\<lambda>(key, ob). case y_find key kvs of None \<Rightarrow> True | Some v \<Rightarrow> array_met sdk ob v) (sc_arrays sc)
    | _ \<Rightarrow> False)"

text \<open>
  The documented behaviour of the SDK: a document without errors meets the schema of the provider (the
  only one the loader uses), and the typed helpers give nothing for an absent key.
\<close>

definition validate_law :: "'v sdk \<Rightarrow> bool" where
  "validate_law sdk \<longleftrightarrow>
     (\<forall>y. sdk_validate sdk provider_schema y = [] \<longrightarrow> schema_met sdk provider_schema y) \<and>
     sdk_as_string sdk None = None \<and> sdk_as_double sdk None = None"

section \<open>A validated document\<close>

definition item_config :: "(yaml \<times> yaml) list \<Rightarrow> device_config_map" where
  "item_config kvs = foldl (\<lambda>config (k, v).
      let key = y_scalar_text k
      in if key \<noteq> ''id'' \<and> key \<noteq> ''type'' then m_put key v config else config) m_empty kvs"

lemma item_config_keys:
  "set (m_keys (item_config kvs)) = set (map (y_scalar_text \<circ> fst) kvs) - {''id'', ''type''}"
proof -
  have "set (m_keys (foldl (\<lambda>config (k, v).
      let key = y_scalar_text k
      in if key \<noteq> ''id'' \<and> key \<noteq> ''type'' then m_put key v config else config) m kvs)) =
    set (m_keys m) \<union> (set (map (y_scalar_text \<circ> fst) kvs) - {''id'', ''type''})" for m :: device_config_map
    by (induction kvs arbitrary: m) (auto simp: Let_def split: if_splits)
  from this[of m_empty] show ?thesis by (simp add: item_config_def)
qed

text \<open>
  What the configuration of a device is to hold, read off its item alone: under every key of the item
  but \<open>id\<close> and \<open>type\<close> the value the item gives it last, and nothing else.
\<close>

definition item_entry :: "yaml \<Rightarrow> string \<Rightarrow> yaml option" where
  "item_entry item key = (case item of
      YMapping kvs \<Rightarrow>
        (if key = ''id'' \<or> key = ''type'' then None
         else map_of (rev (map (\<lambda>(k, v). (y_scalar_text k, v)) kvs)) key)
    | _ \<Rightarrow> None)"

definition item_described :: "'v sdk \<Rightarrow> yaml \<Rightarrow> device_spec \<Rightarrow> bool" where
  "item_described sdk item ds \<longleftrightarrow>
     text_of sdk ''id'' item = Some (ds_id ds) \<and> text_of sdk ''type'' item = Some (ds_type ds) \<and>
     (\<forall>key. m_find key (ds_config ds) = item_entry item key)"

lemma item_config_find: "m_find key (item_config kvs) = item_entry (YMapping kvs) key"
proof -
  have "m_find key (foldl (\<lambda>config (k, v).
      let key = y_scalar_text k
      in if key \<noteq> ''id'' \<and> key \<noteq> ''type'' then m_put key v config else config) m kvs) =
    (if key = ''id'' \<or> key = ''type'' then m_find key m
     else case map_of (rev (map (\<lambda>(k, v). (y_scalar_text k, v)) kvs)) key of None \<Rightarrow> m_find key m | Some v \<Rightarrow> Some v)"
    for m :: device_config_map
    by (induction kvs arbitrary: m) (auto simp: Let_def map_add_def split: option.splits)
  from this[of m_empty] show ?thesis by (simp add: item_config_def item_entry_def split: option.split)
qed

lemma device_spec_of_mapping:
  "device_spec_of sdk (YMapping kvs) = Inr
     \<lparr>ds_id = (case sdk_as_string sdk (y_find ''id'' kvs) of Some i \<Rightarrow> i | None \<Rightarrow> []),
      ds_type = (case sdk_as_string sdk (y_find ''type'' kvs) of Some t \<Rightarrow> t | None \<Rightarrow> []),
      ds_config = item_config kvs\<rparr>"
  by (simp add: device_spec_of_def y_sub_def y_entries_def item_config_def)

text \<open>The device described by a valid item, and by a valid list of them.\<close>

definition spec_ok :: "device_spec \<Rightarrow> bool" where
  "spec_ok ds \<longleftrightarrow> ds_id ds \<noteq> [] \<and> ds_id ds \<noteq> ''chaos_control'' \<and> ds_type ds \<noteq> [] \<and>
     \<not> m_mem ''id'' (ds_config ds) \<and> \<not> m_mem ''type'' (ds_config ds)"

lemma device_met_fields:
  assumes "object_met sdk device_object node"
  obtains kvs i t where "node = YMapping kvs" "sdk_as_string sdk (y_find ''id'' kvs) = Some i"
    "sdk_as_string sdk (y_find ''type'' kvs) = Some t" "i \<noteq> []" "i \<noteq> ''chaos_control''" "t \<noteq> []"
proof -
  from assms obtain kvs where node: "node = YMapping kvs"
    and met: "list_all (field_met sdk kvs) (ob_fields device_object)"
    by (auto simp: object_met_def split: yaml.splits)
  then have "\<exists>i. sdk_as_string sdk (y_find ''id'' kvs) = Some i \<and> i \<noteq> [] \<and> i \<noteq> ''chaos_control''"
    and "\<exists>t. sdk_as_string sdk (y_find ''type'' kvs) = Some t \<and> t \<noteq> []"
    by (auto simp: device_object_def new_object_def new_field_def field_met_def split: option.splits)
  with node that show thesis by blast
qed

lemma device_spec_of_met:
  assumes "object_met sdk device_object node"
  shows "\<exists>ds. device_spec_of sdk node = Inr ds \<and> spec_ok ds \<and> item_described sdk node ds \<and>
     (m_mem ''physics_bindings'' (ds_config ds) \<longleftrightarrow>
       (\<exists>kvs. node = YMapping kvs \<and> ''physics_bindings'' \<in> set (map (y_scalar_text \<circ> fst) kvs)))"
  using assms
  by (cases rule: device_met_fields)
    (auto simp: device_spec_of_mapping spec_ok_def text_of_def m_mem_iff item_config_keys item_described_def item_config_find)

lemma device_specs_met:
  assumes "list_all (object_met sdk device_object) items"
  shows "\<exists>specs. device_specs sdk items = Inr specs \<and> list_all spec_ok specs \<and>
     list_all2 (item_described sdk) items specs \<and>
     ((\<exists>ds \<in> set specs. m_mem ''physics_bindings'' (ds_config ds)) \<longleftrightarrow>
      (\<exists>kvs. YMapping kvs \<in> set items \<and> ''physics_bindings'' \<in> set (map (y_scalar_text \<circ> fst) kvs)))"
  using assms
proof (induction items)
  case (Cons node items)
  from Cons.prems have "object_met sdk device_object node" by simp
  from device_spec_of_met[OF this] obtain ds where ds: "device_spec_of sdk node = Inr ds" "spec_ok ds"
    "item_described sdk node ds"
    "m_mem ''physics_bindings'' (ds_config ds) \<longleftrightarrow>
       (\<exists>kvs. node = YMapping kvs \<and> ''physics_bindings'' \<in> set (map (y_scalar_text \<circ> fst) kvs))" by blast
  from Cons.prems have "list_all (object_met sdk device_object) items" by simp
  from Cons.IH[OF this] obtain specs where "device_specs sdk items = Inr specs" "list_all spec_ok specs"
    "list_all2 (item_described sdk) items specs"
    "(\<exists>ds \<in> set specs. m_mem ''physics_bindings'' (ds_config ds)) \<longleftrightarrow>
      (\<exists>kvs. YMapping kvs \<in> set items \<and> ''physics_bindings'' \<in> set (map (y_scalar_text \<circ> fst) kvs))" by blast
  with ds show ?case by (intro exI[of _ "ds # specs"]) auto
qed simp

lemma described_ids:
  "list_all2 (item_described sdk) items specs \<Longrightarrow> map (text_of sdk ''id'') items = map (Some \<circ> ds_id) specs"
  by (induction rule: list_all2_induct) (simp_all add: item_described_def)

text \<open>The items of a document's device list.\<close>

definition device_items :: "yaml \<Rightarrow> yaml list" where
  "device_items y = (case y of
      YMapping kvs \<Rightarrow> (case y_find ''devices'' kvs of Some (YSequence items) \<Rightarrow> items | _ \<Rightarrow> [])
    | _ \<Rightarrow> [])"

text \<open>The mode section meets its object: which fields a mode has.\<close>

definition tick_rate_ok :: "double option \<Rightarrow> bool" where
  "tick_rate_ok r \<longleftrightarrow> (\<exists>d. r = Some d \<and> dleq (fl (1 / 10)) d \<and> dleq d (Fin 1000))"

definition mode_fields_ok :: "provider_config \<Rightarrow> bool" where
  "mode_fields_ok c = (case simulation_mode c of
      Inert \<Rightarrow> tick_rate_hz c = None \<and> physics_config_path c = None \<and> ambient_temp_c c = None \<and> ambient_signal_path c = None
    | NonInteracting \<Rightarrow> tick_rate_ok (tick_rate_hz c) \<and> physics_config_path c = None \<and> ambient_temp_c c = None \<and>
        ambient_signal_path c = None
    | Sim \<Rightarrow> tick_rate_ok (tick_rate_hz c) \<and> (\<exists>p. physics_config_path c = Some p \<and> p \<noteq> []) \<and>
        ambient_signal_path c \<noteq> Some [] \<and> (ambient_temp_c c = None \<longrightarrow> ambient_signal_path c = None))"

lemma simulation_met:
  assumes "object_met sdk simulation_object (YMapping kvs)" and "validate_law sdk"
    and "c = \<lparr>config_file_path = a, provider_name = b, startup_policy = p, config_devices = specs, simulation_mode = m,
      tick_rate_hz = sdk_as_double sdk (y_find ''tick_rate_hz'' kvs),
      physics_config_path = sdk_as_string sdk (y_find ''physics_config'' kvs),
      ambient_temp_c = sdk_as_double sdk (y_find ''ambient_temp_c'' kvs),
      ambient_signal_path = sdk_as_string sdk (y_find ''ambient_signal_path'' kvs)\<rparr>"
    and "sdk_as_string sdk (y_find ''mode'' kvs) = Some mode_str" and "parse_simulation_mode mode_str = Inr m"
  shows "mode_fields_ok c"
proof -
  have none: "sdk_as_string sdk None = None" "sdk_as_double sdk None = None"
    using assms(2) by (simp_all add: validate_law_def)
  have f: "field_met sdk kvs x" if "x \<in> set (ob_fields simulation_object)" for x
    using assms(1) that by (simp add: object_met_def list_all_iff)
  have w: "when_met sdk kvs x" if "x \<in> set (ob_whens simulation_object)" for x
    using assms(1) that by (simp add: object_met_def list_all_iff)
  have dep: "present kvs ''ambient_signal_path'' \<longrightarrow> present kvs ''ambient_temp_c''"
    using assms(1) by (simp add: object_met_def simulation_object_def)
  have tick: "present kvs ''tick_rate_hz'' \<longrightarrow> tick_rate_ok (sdk_as_double sdk (y_find ''tick_rate_hz'' kvs))"
    using f[of "ob_fields simulation_object ! 1"]
    by (auto simp: present_def tick_rate_ok_def simulation_object_def new_object_def new_field_def field_met_def
        split: option.splits)
  have phys: "present kvs ''physics_config'' \<longrightarrow> (\<exists>p. sdk_as_string sdk (y_find ''physics_config'' kvs) = Some p \<and> p \<noteq> [])"
    using f[of "ob_fields simulation_object ! 2"]
    by (auto simp: present_def simulation_object_def new_object_def new_field_def field_met_def split: option.splits)
  have amb: "present kvs ''ambient_temp_c'' \<longrightarrow> sdk_as_double sdk (y_find ''ambient_temp_c'' kvs) \<noteq> None"
    using f[of "ob_fields simulation_object ! 3"]
    by (auto simp: present_def simulation_object_def new_object_def new_field_def field_met_def split: option.splits)
  have sig: "present kvs ''ambient_signal_path'' \<longrightarrow> sdk_as_string sdk (y_find ''ambient_signal_path'' kvs) \<noteq> Some []"
    using f[of "ob_fields simulation_object ! 4"]
    by (auto simp: present_def simulation_object_def new_object_def new_field_def field_met_def split: option.splits)
  have absent: "\<not> present kvs k \<Longrightarrow> sdk_as_string sdk (y_find k kvs) = None \<and> sdk_as_double sdk (y_find k kvs) = None" for k
    using none by (simp add: present_def)
  from assms(5) consider "mode_str = ''inert''" "m = Inert" | "mode_str = ''non_interacting''" "m = NonInteracting"
    | "mode_str = ''sim''" "m = Sim"
    by (auto simp: parse_simulation_mode_def split: if_splits)
  then show ?thesis
  proof cases
    case 1
    with w[of "ob_whens simulation_object ! 0"] absent assms(3,4) show ?thesis
      by (simp add: simulation_object_def when_met_def mode_fields_ok_def)
  next
    case 2
    with w[of "ob_whens simulation_object ! 1"] absent tick assms(3,4) show ?thesis
      by (simp add: simulation_object_def when_met_def mode_fields_ok_def)
  next
    case 3
    with w[of "ob_whens simulation_object ! 2"] have "present kvs ''tick_rate_hz''" "present kvs ''physics_config''"
      using assms(4) by (simp_all add: simulation_object_def when_met_def)
    moreover have "sdk_as_string sdk (y_find ''ambient_signal_path'' kvs) \<noteq> Some []"
      using sig absent by (cases "present kvs ''ambient_signal_path''") auto
    moreover have "sdk_as_double sdk (y_find ''ambient_temp_c'' kvs) = None \<longrightarrow>
        sdk_as_string sdk (y_find ''ambient_signal_path'' kvs) = None"
      using dep amb absent by blast
    ultimately show ?thesis using 3 tick phys assms(3) by (auto simp: mode_fields_ok_def)
  qed
qed

section \<open>Extraction from a validated document\<close>

definition document_mode :: "'v sdk \<Rightarrow> yaml \<Rightarrow> string option" where
  "document_mode sdk y = (case y of
      YMapping kvs \<Rightarrow> (case y_find ''simulation'' kvs of Some (YMapping skvs) \<Rightarrow> sdk_as_string sdk (y_find ''mode'' skvs) | _ \<Rightarrow> None)
    | _ \<Rightarrow> None)"

definition has_bindings :: "yaml \<Rightarrow> bool" where
  "has_bindings item \<longleftrightarrow> (case item of
      YMapping kvs \<Rightarrow> ''physics_bindings'' \<in> set (map (y_scalar_text \<circ> fst) kvs) | _ \<Rightarrow> False)"

lemma has_bindings_ex:
  "(\<exists>kvs. YMapping kvs \<in> set items \<and> ''physics_bindings'' \<in> set (map (y_scalar_text \<circ> fst) kvs)) \<longleftrightarrow>
   (\<exists>item \<in> set items. has_bindings item)"
proof -
  have "has_bindings item \<longleftrightarrow> (\<exists>kvs. item = YMapping kvs \<and> ''physics_bindings'' \<in> set (map (y_scalar_text \<circ> fst) kvs))" for item
    by (cases item) (simp_all add: has_bindings_def)
  then show ?thesis by (simp only:) blast
qed

lemma document_sections:
  assumes "schema_met sdk provider_schema y"
  obtains kvs skvs where "y = YMapping kvs" "y_find ''simulation'' kvs = Some (YMapping skvs)"
    "object_met sdk simulation_object (YMapping skvs)" "object_met sdk root_object y"
    "\<And>v. y_find ''provider'' kvs = Some v \<Longrightarrow> object_met sdk provider_object v"
    "\<And>v. y_find ''devices'' kvs = Some v \<Longrightarrow> array_met sdk device_object v"
proof -
  from assms obtain kvs where y: "y = YMapping kvs" by (auto simp: schema_met_def split: yaml.splits)
  with assms obtain v where v: "y_find ''simulation'' kvs = Some v" "object_met sdk simulation_object v"
    by (auto simp: schema_met_def provider_schema_def split: option.splits)
  then obtain skvs where "v = YMapping skvs" by (auto simp: object_met_def split: yaml.splits)
  with y v assms show thesis
    by (intro that[of kvs skvs]) (simp_all add: schema_met_def provider_schema_def)
qed

lemma items_met:
  assumes "y = YMapping kvs" and "\<And>v. y_find ''devices'' kvs = Some v \<Longrightarrow> array_met sdk device_object v"
  shows "(case y_find ''devices'' kvs of Some (YSequence nodes) \<Rightarrow> device_specs sdk nodes | _ \<Rightarrow> Inr []) =
      device_specs sdk (device_items y)"
    and "list_all (object_met sdk device_object) (device_items y)"
    and "distinct (filter (\<lambda>t. t \<noteq> None) (map (text_of sdk ''id'') (device_items y)))"
proof -
  have "list_all (object_met sdk device_object) (device_items y) \<and>
     distinct (filter (\<lambda>t. t \<noteq> None) (map (text_of sdk ''id'') (device_items y))) \<and>
     (case y_find ''devices'' kvs of Some (YSequence nodes) \<Rightarrow> device_specs sdk nodes | _ \<Rightarrow> Inr []) =
      device_specs sdk (device_items y)"
  proof (cases "y_find ''devices'' kvs")
    case (Some v)
    with assms(2) have "array_met sdk device_object v" by simp
    with Some assms(1) show ?thesis
      by (auto simp: device_items_def array_met_def device_object_def new_object_def new_field_def split: yaml.splits)
  qed (simp add: assms(1) device_items_def)
  then show "(case y_find ''devices'' kvs of Some (YSequence nodes) \<Rightarrow> device_specs sdk nodes | _ \<Rightarrow> Inr []) =
      device_specs sdk (device_items y)" "list_all (object_met sdk device_object) (device_items y)"
    "distinct (filter (\<lambda>t. t \<noteq> None) (map (text_of sdk ''id'') (device_items y)))" by blast+
qed

lemma policy_parses:
  assumes "object_met sdk root_object (YMapping kvs)" and "validate_law sdk"
  shows "\<exists>p. (case sdk_as_string sdk (y_find ''startup_policy'' kvs) of Some policy \<Rightarrow> parse_startup_policy policy | None \<Rightarrow> Inr Strict) = Inr p"
proof -
  have "field_met sdk kvs (ob_fields root_object ! 0)"
    using assms(1) by (simp add: object_met_def root_object_def new_object_def)
  then show ?thesis using assms(2)
    by (auto simp: validate_law_def field_met_def root_object_def new_object_def new_field_def parse_startup_policy_def
        split: option.splits)
qed

lemma mode_parses:
  assumes "object_met sdk simulation_object (YMapping kvs)"
  shows "\<exists>s m. sdk_as_string sdk (y_find ''mode'' kvs) = Some s \<and> parse_simulation_mode s = Inr m"
proof -
  have "field_met sdk kvs (ob_fields simulation_object ! 0)"
    using assms(1) by (simp add: object_met_def simulation_object_def new_object_def)
  then show ?thesis
    by (auto simp: field_met_def simulation_object_def new_object_def new_field_def parse_simulation_mode_def
        split: option.splits)
qed

text \<open>
  The text of the modes and policies, and a value by its keys from the top of the document: what a
  loaded configuration is compared with.
\<close>

primrec mode_text :: "simulation_mode \<Rightarrow> string" where
  "mode_text NonInteracting = ''non_interacting''"
| "mode_text Inert = ''inert''"
| "mode_text Sim = ''sim''"

primrec policy_text :: "startup_policy \<Rightarrow> string" where
  "policy_text Strict = ''strict''"
| "policy_text Degraded = ''degraded''"

primrec y_at :: "string list \<Rightarrow> yaml \<Rightarrow> yaml option" where
  "y_at [] y = Some y"
| "y_at (key # keys) y = (case y of YMapping kvs \<Rightarrow> Option.bind (y_find key kvs) (y_at keys) | _ \<Rightarrow> None)"

definition config_described :: "'v sdk \<Rightarrow> string \<Rightarrow> yaml \<Rightarrow> provider_config \<Rightarrow> bool" where
  "config_described sdk path y c \<longleftrightarrow>
     config_file_path c = sdk_absolute sdk path \<and>
     provider_name c = sdk_as_string sdk (y_at [''provider'', ''name''] y) \<and>
     (case sdk_as_string sdk (y_at [''startup_policy''] y) of
        None \<Rightarrow> startup_policy c = Strict | Some t \<Rightarrow> t = policy_text (startup_policy c)) \<and>
     list_all2 (item_described sdk) (device_items y) (config_devices c) \<and>
     sdk_as_string sdk (y_at [''simulation'', ''mode''] y) = Some (mode_text (simulation_mode c)) \<and>
     tick_rate_hz c = sdk_as_double sdk (y_at [''simulation'', ''tick_rate_hz''] y) \<and>
     physics_config_path c = sdk_as_string sdk (y_at [''simulation'', ''physics_config''] y) \<and>
     ambient_temp_c c = sdk_as_double sdk (y_at [''simulation'', ''ambient_temp_c''] y) \<and>
     ambient_signal_path c = sdk_as_string sdk (y_at [''simulation'', ''ambient_signal_path''] y)"

lemma parse_mode_text: "parse_simulation_mode s = Inr m \<Longrightarrow> s = mode_text m"
  by (auto simp: parse_simulation_mode_def split: if_splits)

lemma parse_policy_text: "parse_startup_policy s = Inr p \<Longrightarrow> s = policy_text p"
  by (auto simp: parse_startup_policy_def split: if_splits)

lemma bind_Some_return: "Option.bind z (y_at []) = z"
  by (cases z) simp_all

lemma y_at_simps:
  "y_at [k] (YMapping kvs) = y_find k kvs"
  "y_find k kvs = Some (YMapping kvs') \<Longrightarrow> y_at [k, k'] (YMapping kvs) = y_find k' kvs'"
  by (simp_all add: bind_Some_return)

lemma parse_mode_Sim: "parse_simulation_mode s = Inr m \<Longrightarrow> m = Sim \<longleftrightarrow> s = ''sim''"
  by (auto simp: parse_simulation_mode_def split: if_splits)

lemma provider_name_node:
  assumes "\<And>v. y_find ''provider'' kvs = Some v \<Longrightarrow> object_met sdk provider_object v"
  shows "y_sub sdk (y_find ''provider'' kvs) ''name'' = Inr (y_at [''provider'', ''name''] (YMapping kvs))"
  using assms
  by (cases "y_find ''provider'' kvs") (auto simp: y_sub_def object_met_def bind_Some_return split: yaml.splits)

lemma extraction:
  assumes "validate_law sdk" and "schema_met sdk provider_schema y"
  obtains c where "\<forall>u. extract_config sdk u path y = check_bindings c" "mode_fields_ok c"
    "list_all spec_ok (config_devices c)" "distinct (map ds_id (config_devices c))"
    "config_described sdk path y c"
    "simulation_mode c = Sim \<longleftrightarrow> document_mode sdk y = Some ''sim''"
    "(\<exists>ds \<in> set (config_devices c). m_mem ''physics_bindings'' (ds_config ds)) \<longleftrightarrow> (\<exists>item \<in> set (device_items y). has_bindings item)"
proof -
  from document_sections[OF assms(2)] obtain kvs skvs where y: "y = YMapping kvs"
    "y_find ''simulation'' kvs = Some (YMapping skvs)" "object_met sdk simulation_object (YMapping skvs)"
    "object_met sdk root_object y" and prov: "\<And>v. y_find ''provider'' kvs = Some v \<Longrightarrow> object_met sdk provider_object v"
    and devs: "\<And>v. y_find ''devices'' kvs = Some v \<Longrightarrow> array_met sdk device_object v" by blast
  note items = items_met[OF y(1) devs]
  from device_specs_met[OF items(2)] obtain specs where specs: "device_specs sdk (device_items y) = Inr specs"
    "list_all spec_ok specs" "list_all2 (item_described sdk) (device_items y) specs"
    "(\<exists>ds \<in> set specs. m_mem ''physics_bindings'' (ds_config ds)) \<longleftrightarrow> (\<exists>item \<in> set (device_items y). has_bindings item)"
    unfolding has_bindings_ex by blast
  have dist: "distinct (map ds_id specs)"
    using items(3) unfolding described_ids[OF specs(3)] by (simp add: distinct_map comp_def inj_on_def)
  from mode_parses[OF y(3)] obtain s m where m: "sdk_as_string sdk (y_find ''mode'' skvs) = Some s"
    "parse_simulation_mode s = Inr m" by blast
  from policy_parses[of sdk kvs] y(1,4) assms(1) obtain p where
    p: "(case sdk_as_string sdk (y_find ''startup_policy'' kvs) of Some policy \<Rightarrow> parse_startup_policy policy | None \<Rightarrow> Inr Strict) = Inr p"
    by blast
  from p have policy: "case sdk_as_string sdk (y_find ''startup_policy'' kvs) of None \<Rightarrow> p = Strict | Some t \<Rightarrow> t = policy_text p"
    by (auto simp: parse_policy_text split: option.splits)
  note n = provider_name_node[OF prov]
  let ?c = "\<lparr>config_file_path = sdk_absolute sdk path, provider_name = sdk_as_string sdk (y_at [''provider'', ''name''] (YMapping kvs)), startup_policy = p,
      config_devices = specs, simulation_mode = m, tick_rate_hz = sdk_as_double sdk (y_find ''tick_rate_hz'' skvs),
      physics_config_path = sdk_as_string sdk (y_find ''physics_config'' skvs),
      ambient_temp_c = sdk_as_double sdk (y_find ''ambient_temp_c'' skvs),
      ambient_signal_path = sdk_as_string sdk (y_find ''ambient_signal_path'' skvs)\<rparr>"
  have sub: "y_sub sdk (Some (YMapping k)) key = Inr (y_find key k)" for k key by (simp add: y_sub_def)
  have "extract_config sdk u path y = check_bindings ?c" for u
    using items(1) n p y(2) specs(1)
    unfolding extract_config_def y(1) sub bindE.simps
    by (simp add: m sub)
  moreover have "mode_fields_ok ?c" using simulation_met[OF y(3) assms(1) _ m] by blast
  moreover have "config_described sdk path y ?c"
    using specs(3) policy m(1) parse_mode_text[OF m(2)] y_at_simps(2)[OF y(2)]
    unfolding config_described_def y(1) by (simp add: y_at_simps(1) del: y_at.simps split: option.splits)
  ultimately show thesis
    using that[of ?c] specs dist parse_mode_Sim[OF m(2)] m(1) y by (simp add: document_mode_def)
qed

lemma check_bindings_Inr:
  "check_bindings c = Inr c' \<longleftrightarrow>
     c' = c \<and> (simulation_mode c = Sim \<or> (\<forall>ds \<in> set (config_devices c). \<not> m_mem ''physics_bindings'' (ds_config ds)))"
  by (auto simp: check_bindings_def find_Some_iff find_None_iff split: option.splits)

section \<open>A concrete SDK\<close>

definition base_sdk :: "(string \<Rightarrow> yaml option) \<Rightarrow> unit sdk" where
  "base_sdk files = \<lparr>sdk_load_file = (\<lambda>p. case files p of Some y \<Rightarrow> Inr y | None \<Rightarrow> Inl ''bad file''),
     sdk_absolute = (\<lambda>p. ''/'' @ p), sdk_validate = (\<lambda>sc y. []), sdk_format_errors = (\<lambda>es. ''invalid''),
     sdk_as_string = (\<lambda>n. case n of Some (YScalar s) \<Rightarrow> Some s | _ \<Rightarrow> None),
     sdk_as_double = (\<lambda>n. case n of Some (YScalar s) \<Rightarrow> (if s = ''10'' then Some (Fin 10) else None) | _ \<Rightarrow> None),
     sdk_bad_subscript = (\<lambda>k. ''bad subscript''), sdk_invalid_node = ''invalid node'',
     sdk_read_file = (\<lambda>p. None), sdk_node_string = (\<lambda>y. case y of YScalar s \<Rightarrow> Inr s | _ \<Rightarrow> Inl ''bad conversion'')\<rparr>"

definition ref_sdk :: "(string \<Rightarrow> yaml option) \<Rightarrow> unit sdk" where
  "ref_sdk files = (base_sdk files)\<lparr>sdk_validate := (\<lambda>sc y. if schema_met (base_sdk files) sc y then [] else [()])\<rparr>"

lemmas met_defs = schema_met_def object_met_def array_met_def field_met_def when_met_def text_of_def present_def

text \<open>Meeting a schema does not involve the validator.\<close>

lemma met_validator [simp]:
  "field_met (sdk\<lparr>sdk_validate := v\<rparr>) = field_met sdk"
  "when_met (sdk\<lparr>sdk_validate := v\<rparr>) = when_met sdk"
  "text_of (sdk\<lparr>sdk_validate := v\<rparr>) = text_of sdk"
  by (simp_all add: fun_eq_iff field_met_def when_met_def text_of_def split: yaml.split field_type.split option.split)

lemma object_met_validator [simp]: "object_met (sdk\<lparr>sdk_validate := v\<rparr>) = object_met sdk"
  by (simp add: fun_eq_iff object_met_def split: yaml.split)

lemma array_met_validator [simp]: "array_met (sdk\<lparr>sdk_validate := v\<rparr>) = array_met sdk"
  by (simp add: fun_eq_iff array_met_def split: yaml.split)

lemma schema_met_ref: "schema_met (ref_sdk files) sc y = schema_met (base_sdk files) sc y"
  unfolding ref_sdk_def schema_met_def object_met_validator array_met_validator ..

lemma validate_law_ref: "validate_law (ref_sdk files)"
proof -
  have "sdk_validate (ref_sdk files) sc y = [] \<longrightarrow> schema_met (ref_sdk files) sc y" for sc y
    unfolding schema_met_ref by (simp add: ref_sdk_def)
  moreover have "sdk_as_string (ref_sdk files) None = None \<and> sdk_as_double (ref_sdk files) None = None"
    by (simp add: ref_sdk_def base_sdk_def)
  ultimately show ?thesis unfolding validate_law_def by blast
qed

definition example_document :: yaml where
  "example_document = YMapping
     [(YScalar ''devices'', YSequence [YMapping [(YScalar ''id'', YScalar ''t0''), (YScalar ''type'', YScalar ''tempctl'')]]),
      (YScalar ''simulation'', YMapping [(YScalar ''mode'', YScalar ''non_interacting''), (YScalar ''tick_rate_hz'', YScalar ''10'')])]"

definition example_files :: "string \<Rightarrow> yaml option" where
  "example_files p = (if p = ''sim.yaml'' then Some example_document else None)"

lemma tenth_between: "dleq (fl (1 / 10)) (Fin 10)"
proof -
  have "is_dbl (Fin 0)" "is_dbl (Fin 1)" using is_dbl_int[of 0] is_dbl_int[of 1] by simp_all
  then have "fl (1 / 10) = Fin (round53 (1 / 10)) \<and> 0 \<le> round53 (1 / 10) \<and> round53 (1 / 10) \<le> 1"
    by (intro fl_between) simp_all
  then show ?thesis by simp
qed

lemma example_document_valid: "sdk_validate (ref_sdk example_files) provider_schema example_document = []"
  by (simp add: ref_sdk_def example_document_def met_defs provider_schema_def root_object_def provider_object_def
      simulation_object_def device_object_def new_object_def new_field_def y_find_def base_sdk_def tenth_between)

lemma example_loads:
  "\<exists>c. load_config (ref_sdk example_files) u ''sim.yaml'' = Inr c \<and> simulation_mode c = NonInteracting \<and> startup_policy c = Strict \<and>
     config_devices c = [\<lparr>ds_id = ''t0'', ds_type = ''tempctl'', ds_config = []\<rparr>]"
proof -
  have "sdk_load_file (ref_sdk example_files) ''sim.yaml'' = Inr example_document"
    by (simp add: ref_sdk_def base_sdk_def example_files_def)
  then have "load_config (ref_sdk example_files) u ''sim.yaml'' = extract_config (ref_sdk example_files) u ''sim.yaml'' example_document"
    by (simp add: load_config_def example_document_valid)
  then show ?thesis
    by (simp add: extract_config_def example_document_def y_sub_def y_find_def ref_sdk_def base_sdk_def device_spec_of_def
        y_entries_def parse_simulation_mode_def check_bindings_def y_scalar_text_def m_mem_def m_empty_def)
qed

section \<open>Properties\<close>

text \<open>C21. \<open>load_config\<close> accepts a file exactly when it can be read, the validator finds no error in it
  and, unless the mode is \<open>sim\<close>, no device carries \<open>physics_bindings\<close>: after a successful
  validation no lookup, no parser and no conversion of the loader can throw. What it returns does not
  depend on what the uninitialized mode of a fresh \<open>ProviderConfig\<close> holds, and is the configuration
  the document describes, field by field: the absolute path, the provider's name, the policy (strict
  when none is given) and the mode the document names, the devices in the document's order, each with
  its id, its type and its other keys, and the four optional fields of the simulation section.\<close>

theorem config_load_accepts:
  assumes "validate_law sdk"
  shows "((\<exists>c. load_config sdk u path = Inr c) \<longleftrightarrow>
      (\<exists>y. sdk_load_file sdk path = Inr y \<and> sdk_validate sdk provider_schema y = [] \<and>
        (document_mode sdk y = Some ''sim'' \<or> (\<forall>item \<in> set (device_items y). \<not> has_bindings item)))) \<and>
    load_config sdk u path = load_config sdk u' path \<and>
    (\<forall>c. load_config sdk u path = Inr c \<longrightarrow> (\<exists>y. sdk_load_file sdk path = Inr y \<and>
       config_file_path c = sdk_absolute sdk path \<and>
       provider_name c = sdk_as_string sdk (y_at [''provider'', ''name''] y) \<and>
       (case sdk_as_string sdk (y_at [''startup_policy''] y) of
          None \<Rightarrow> startup_policy c = Strict | Some t \<Rightarrow> t = policy_text (startup_policy c)) \<and>
       list_all2 (item_described sdk) (device_items y) (config_devices c) \<and>
       sdk_as_string sdk (y_at [''simulation'', ''mode''] y) = Some (mode_text (simulation_mode c)) \<and>
       tick_rate_hz c = sdk_as_double sdk (y_at [''simulation'', ''tick_rate_hz''] y) \<and>
       physics_config_path c = sdk_as_string sdk (y_at [''simulation'', ''physics_config''] y) \<and>
       ambient_temp_c c = sdk_as_double sdk (y_at [''simulation'', ''ambient_temp_c''] y) \<and>
       ambient_signal_path c = sdk_as_string sdk (y_at [''simulation'', ''ambient_signal_path''] y)))"
proof (cases "\<exists>y. sdk_load_file sdk path = Inr y \<and> sdk_validate sdk provider_schema y = []")
  case True
  then obtain y where y: "sdk_load_file sdk path = Inr y" "sdk_validate sdk provider_schema y = []" by blast
  with assms have met: "schema_met sdk provider_schema y" by (auto simp: validate_law_def)
  obtain c where ex: "\<forall>u. extract_config sdk u path y = check_bindings c" and "mode_fields_ok c"
    "list_all spec_ok (config_devices c)" "distinct (map ds_id (config_devices c))" and described: "config_described sdk path y c"
    and c: "simulation_mode c = Sim \<longleftrightarrow> document_mode sdk y = Some ''sim''"
    "(\<exists>ds \<in> set (config_devices c). m_mem ''physics_bindings'' (ds_config ds)) \<longleftrightarrow> (\<exists>item \<in> set (device_items y). has_bindings item)"
    using extraction[OF assms met, of path] .
  have load: "load_config sdk u path = check_bindings c" for u by (simp add: load_config_def y ex)
  have "(\<exists>c'. check_bindings c = Inr c') \<longleftrightarrow>
      document_mode sdk y = Some ''sim'' \<or> (\<forall>item \<in> set (device_items y). \<not> has_bindings item)"
    using c unfolding check_bindings_Inr by blast
  moreover have "config_described sdk path y c'" if "check_bindings c = Inr c'" for c'
    using that described unfolding check_bindings_Inr by blast
  ultimately show ?thesis
    unfolding load config_described_def[symmetric] using y by simp
next
  case False
  then show ?thesis by (auto simp: load_config_def Let_def split: sum.splits)
qed

theorem config_load_accepts_witness:
  "\<exists>c. load_config (ref_sdk example_files) Sim ''sim.yaml'' = Inr c"
proof -
  have "sdk_load_file (ref_sdk example_files) ''sim.yaml'' = Inr example_document"
    by (simp add: ref_sdk_def base_sdk_def example_files_def)
  moreover have "\<forall>item \<in> set (device_items example_document). \<not> has_bindings item"
    by (simp add: device_items_def example_document_def y_find_def has_bindings_def y_scalar_text_def)
  ultimately show ?thesis
    using config_load_accepts[OF validate_law_ref[of example_files], where u = Sim and u' = Sim and path = "''sim.yaml''"]
      example_document_valid by blast
qed

lemma loaded_config:
  assumes "validate_law sdk" and "load_config sdk u path = Inr c"
  shows "mode_fields_ok c" and "list_all spec_ok (config_devices c)" and "distinct (map ds_id (config_devices c))"
    and "\<exists>y. sdk_load_file sdk path = Inr y \<and> config_described sdk path y c"
    and "simulation_mode c = Sim \<or> (\<forall>ds \<in> set (config_devices c). \<not> m_mem ''physics_bindings'' (ds_config ds))"
proof -
  from assms(2) obtain y where y: "sdk_load_file sdk path = Inr y" "sdk_validate sdk provider_schema y = []"
    and ex: "extract_config sdk u path y = Inr c"
    by (auto simp: load_config_def Let_def split: sum.splits if_splits)
  with assms(1) have "schema_met sdk provider_schema y" by (auto simp: validate_law_def)
  from extraction[OF assms(1) this, of path] obtain c' where c': "extract_config sdk u path y = check_bindings c'"
    "mode_fields_ok c'" "list_all spec_ok (config_devices c')" "distinct (map ds_id (config_devices c'))"
    "config_described sdk path y c'" by metis
  with ex check_bindings_Inr[of c' c] have "c = c'" and "simulation_mode c = Sim \<or> (\<forall>ds \<in> set (config_devices c). \<not> m_mem ''physics_bindings'' (ds_config ds))"
    by auto
  with c' y(1) show "mode_fields_ok c" and "list_all spec_ok (config_devices c)" and "distinct (map ds_id (config_devices c))"
    and "\<exists>y. sdk_load_file sdk path = Inr y \<and> config_described sdk path y c"
    and "simulation_mode c = Sim \<or> (\<forall>ds \<in> set (config_devices c). \<not> m_mem ''physics_bindings'' (ds_config ds))"
    by blast+
qed

text \<open>C10. Every configuration \<open>load_config\<close> returns has the fields its mode needs and no others: an
  inert provider has none of the simulation fields, a ticking one a tick rate between 0.1 and 1000, one
  in mode \<open>sim\<close> a non-empty physics file as well, and an ambient signal path only with an ambient
  temperature. The devices are those of the document in its order, with distinct non-empty ids, none of them
  reserved, with the non-empty types the document gives them, and with exactly their other keys as
  configuration: under every key of the item but \<open>id\<close> and \<open>type\<close> the value the item gives it last.\<close>

theorem config_loaded_is_valid:
  assumes "validate_law sdk" and "load_config sdk u path = Inr c"
  shows "(case simulation_mode c of
      Inert \<Rightarrow> tick_rate_hz c = None \<and> physics_config_path c = None \<and> ambient_temp_c c = None \<and> ambient_signal_path c = None
    | NonInteracting \<Rightarrow> tick_rate_ok (tick_rate_hz c) \<and> physics_config_path c = None \<and> ambient_temp_c c = None \<and>
        ambient_signal_path c = None
    | Sim \<Rightarrow> tick_rate_ok (tick_rate_hz c) \<and> (\<exists>p. physics_config_path c = Some p \<and> p \<noteq> []) \<and>
        ambient_signal_path c \<noteq> Some [] \<and> (ambient_temp_c c = None \<longrightarrow> ambient_signal_path c = None)) \<and>
    list_all spec_ok (config_devices c) \<and> distinct (map ds_id (config_devices c)) \<and>
    (\<exists>y. sdk_load_file sdk path = Inr y \<and>
       list_all2 (\<lambda>item ds.
         text_of sdk ''id'' item = Some (ds_id ds) \<and> text_of sdk ''type'' item = Some (ds_type ds) \<and>
         (\<forall>key. m_find key (ds_config ds) =
            (case item of
               YMapping kvs \<Rightarrow>
                 (if key = ''id'' \<or> key = ''type'' then None
                  else map_of (rev (map (\<lambda>(k, v). (y_scalar_text k, v)) kvs)) key)
             | _ \<Rightarrow> None)))
         (device_items y) (config_devices c)) \<and>
    (simulation_mode c = Sim \<or> (\<forall>ds \<in> set (config_devices c). \<not> m_mem ''physics_bindings'' (ds_config ds)))"
  using loaded_config[OF assms]
  unfolding mode_fields_ok_def item_entry_def[symmetric] item_described_def[symmetric] config_described_def by blast

theorem config_loaded_is_valid_witness:
  "\<exists>c. load_config (ref_sdk example_files) Sim ''sim.yaml'' = Inr c \<and> distinct (map ds_id (config_devices c))"
  using example_loads[of Sim] config_loaded_is_valid[OF validate_law_ref] by blast

end
