(* ===== verification/Flux_Client.thy ===== *)
theory Flux_Client
  imports Config
begin

text \<open>
  \<open>src/simulation/adapters/fluxgraph/fluxgraph_client.hpp\<close> and \<open>.cpp\<close>: the client of the FluxGraph
  server, its session and its signal cache.

  The server and gRPC are the record \<open>flux_server\<close>: one function per remote procedure, from the
  request and the deadline (milliseconds from now) to a status, a response and the next state
  \<open>'s\<close> of the server. The messages are the fields of the generated classes the client uses; a response is read only
  when the status is \<open>OK\<close>. The client carries the trace of the procedures it called and of its waits
  for the connection (\<open>WaitForConnected\<close>), which the code does not keep; no operation reads it.
\<close>

section \<open>gRPC and the messages\<close>

datatype grpc_code =
    GrpcOk | GrpcCancelled | GrpcUnknown | GrpcInvalidArgument | GrpcDeadlineExceeded | GrpcNotFound | GrpcAlreadyExists
  | GrpcPermissionDenied | GrpcResourceExhausted | GrpcFailedPrecondition | GrpcAborted | GrpcOutOfRange
  | GrpcUnimplemented | GrpcInternal | GrpcUnavailable | GrpcDataLoss | GrpcUnauthenticated

text \<open>\<open>static_cast<int>(status.error_code())\<close>.\<close>

primrec grpc_code_number :: "grpc_code \<Rightarrow> nat" where
  "grpc_code_number GrpcOk = 0"
| "grpc_code_number GrpcCancelled = 1"
| "grpc_code_number GrpcUnknown = 2"
| "grpc_code_number GrpcInvalidArgument = 3"
| "grpc_code_number GrpcDeadlineExceeded = 4"
| "grpc_code_number GrpcNotFound = 5"
| "grpc_code_number GrpcAlreadyExists = 6"
| "grpc_code_number GrpcPermissionDenied = 7"
| "grpc_code_number GrpcResourceExhausted = 8"
| "grpc_code_number GrpcFailedPrecondition = 9"
| "grpc_code_number GrpcAborted = 10"
| "grpc_code_number GrpcOutOfRange = 11"
| "grpc_code_number GrpcUnimplemented = 12"
| "grpc_code_number GrpcInternal = 13"
| "grpc_code_number GrpcUnavailable = 14"
| "grpc_code_number GrpcDataLoss = 15"
| "grpc_code_number GrpcUnauthenticated = 16"

record grpc_status =
  gs_code :: grpc_code
  gs_message :: string

definition status_ok :: "grpc_status \<Rightarrow> bool" where
  "status_ok st \<longleftrightarrow> gs_code st = GrpcOk"

record config_request =
  cfr_config_content :: string
  cfr_format :: string
  cfr_config_hash :: string

record config_response =
  cfs_success :: bool
  cfs_error_message :: string
  cfs_config_changed :: bool

record registration =
  reg_provider_id :: string
  reg_device_ids :: "string list"

record registration_response =
  rgs_success :: bool
  rgs_error_message :: string
  rgs_session_id :: string

record signal_update =
  su_path :: string
  su_value :: double
  su_unit :: string

record signal_updates =
  sus_session_id :: string
  sus_signals :: "signal_update list"

datatype command_arg = ArgDouble double | ArgInt int64 | ArgBool bool | ArgString string | ArgNotSet

record pb_command =
  pbc_device :: string
  pbc_function :: string
  pbc_args :: "(string, command_arg) smap"

record tick_response =
  tkr_tick_occurred :: bool
  tkr_sim_time_sec :: double
  tkr_commands :: "pb_command list"

record signal_info =
  si_value :: double
  si_unit :: string
  si_physics_driven :: bool

record reset_response =
  rss_success :: bool
  rss_error_message :: string

record 's flux_server =
  fx_wait_connected :: "int \<Rightarrow> 's \<Rightarrow> bool \<times> 's"
  fx_load_config :: "config_request \<Rightarrow> int \<Rightarrow> 's \<Rightarrow> (grpc_status \<times> config_response) \<times> 's"
  fx_register :: "registration \<Rightarrow> int \<Rightarrow> 's \<Rightarrow> (grpc_status \<times> registration_response) \<times> 's"
  fx_update :: "signal_updates \<Rightarrow> int \<Rightarrow> 's \<Rightarrow> (grpc_status \<times> tick_response) \<times> 's"
  fx_read :: "string list \<Rightarrow> int \<Rightarrow> 's \<Rightarrow> (grpc_status \<times> signal_info list) \<times> 's"
  fx_reset :: "int \<Rightarrow> 's \<Rightarrow> (grpc_status \<times> reset_response) \<times> 's"
  fx_unregister :: "string \<Rightarrow> int \<Rightarrow> 's \<Rightarrow> 's"

datatype rpc =
    RpcWait int bool
  | RpcLoadConfig config_request int grpc_status config_response
  | RpcRegister registration int grpc_status registration_response
  | RpcUpdate signal_updates int grpc_status tick_response
  | RpcRead "string list" int grpc_status "signal_info list"
  | RpcReset int grpc_status
  | RpcUnregister string int

section \<open>The configuration hash\<close>

unbundle bit_operations_syntax

definition fnv1a_64 :: "string \<Rightarrow> 64 word" where
  "fnv1a_64 data = foldl (\<lambda>hash c. (hash XOR of_nat (of_char c)) * 0x100000001b3) 0xcbf29ce484222325 data"

definition hex_digit :: "nat \<Rightarrow> char" where
  "hex_digit d = (if d < 10 then char_of (48 + d) else char_of (87 + d))"

primrec hex_digits :: "nat \<Rightarrow> nat \<Rightarrow> string" where
  "hex_digits 0 n = []"
| "hex_digits (Suc k) n = hex_digits k (n div 16) @ [hex_digit (n mod 16)]"

text \<open>\<open>snprintf("%016llx")\<close>: sixteen digits, which a 64-bit number never exceeds.\<close>

definition to_hex_string :: "64 word \<Rightarrow> string" where
  "to_hex_string v = hex_digits 16 (unat v)"

section \<open>The client\<close>

record flux_command =
  fc_device_name :: string
  fc_function_name :: string
  fc_args :: "(string, command_value) smap"

record 's flux_client =
  session_id :: string
  registered :: bool
  provider_id :: string
  registered_device_ids :: "string list"
  sim_time_sec :: double
  last_tick_occurred :: bool
  pending_commands :: "flux_command list"
  signal_info_cache :: "(string, double) smap"           \<comment> \<open>\<open>signal_cache_\<close>\<close>
  unit_cache :: "(string, string) smap"
  physics_driven_cache :: "(string, bool) smap"
  fc_server :: 's
  fc_trace :: "rpc list"

definition kDefaultRpcTimeout :: int where
  "kDefaultRpcTimeout = 2000"

definition kConfigRpcTimeout :: int where
  "kConfigRpcTimeout = 5000"

definition kMaxRpcAttempts :: nat where
  "kMaxRpcAttempts = 2"

definition rpc_deadline :: "int \<Rightarrow> int" where
  "rpc_deadline timeout = (if timeout \<le> 0 then kDefaultRpcTimeout else timeout)"

definition is_retryable_status :: "grpc_status \<Rightarrow> bool" where
  "is_retryable_status st = (case gs_code st of
      GrpcUnavailable \<Rightarrow> True
    | GrpcDeadlineExceeded \<Rightarrow> True
    | GrpcResourceExhausted \<Rightarrow> True
    | GrpcAborted \<Rightarrow> True
    | _ \<Rightarrow> False)"

text \<open>The stub: a call moves the server on and is recorded.\<close>

definition stub_load_config ::
  "'s flux_server \<Rightarrow> config_request \<Rightarrow> int \<Rightarrow> 's flux_client \<Rightarrow> (grpc_status \<times> config_response) \<times> 's flux_client" where
  "stub_load_config srv req timeout c =
    (let ((st, res), s) = fx_load_config srv req (rpc_deadline timeout) (fc_server c)
     in ((st, res), c\<lparr>fc_server := s, fc_trace := fc_trace c @ [RpcLoadConfig req (rpc_deadline timeout) st res]\<rparr>))"

definition stub_register ::
  "'s flux_server \<Rightarrow> registration \<Rightarrow> int \<Rightarrow> 's flux_client \<Rightarrow> (grpc_status \<times> registration_response) \<times> 's flux_client" where
  "stub_register srv req timeout c =
    (let ((st, res), s) = fx_register srv req (rpc_deadline timeout) (fc_server c)
     in ((st, res), c\<lparr>fc_server := s, fc_trace := fc_trace c @ [RpcRegister req (rpc_deadline timeout) st res]\<rparr>))"

definition stub_update ::
  "'s flux_server \<Rightarrow> signal_updates \<Rightarrow> int \<Rightarrow> 's flux_client \<Rightarrow> (grpc_status \<times> tick_response) \<times> 's flux_client" where
  "stub_update srv req timeout c =
    (let ((st, res), s) = fx_update srv req (rpc_deadline timeout) (fc_server c)
     in ((st, res), c\<lparr>fc_server := s, fc_trace := fc_trace c @ [RpcUpdate req (rpc_deadline timeout) st res]\<rparr>))"

definition stub_read ::
  "'s flux_server \<Rightarrow> string list \<Rightarrow> int \<Rightarrow> 's flux_client \<Rightarrow> (grpc_status \<times> signal_info list) \<times> 's flux_client" where
  "stub_read srv paths timeout c =
    (let ((st, res), s) = fx_read srv paths (rpc_deadline timeout) (fc_server c)
     in ((st, res), c\<lparr>fc_server := s, fc_trace := fc_trace c @ [RpcRead paths (rpc_deadline timeout) st res]\<rparr>))"

definition stub_reset ::
  "'s flux_server \<Rightarrow> int \<Rightarrow> 's flux_client \<Rightarrow> (grpc_status \<times> reset_response) \<times> 's flux_client" where
  "stub_reset srv timeout c =
    (let ((st, res), s) = fx_reset srv (rpc_deadline timeout) (fc_server c)
     in ((st, res), c\<lparr>fc_server := s, fc_trace := fc_trace c @ [RpcReset (rpc_deadline timeout) st]\<rparr>))"

text \<open>
  The loop four operations share: try, stop when it worked, when the failure is final or when the
  attempts are used up. The first argument counts the attempts left; the result is the last status, with
  the response when it is good.
\<close>

fun rpc_attempts ::
  "nat \<Rightarrow> ('c \<Rightarrow> (grpc_status \<times> 'r) \<times> 'c) \<Rightarrow> 'c \<Rightarrow> (grpc_status \<times> 'r option) \<times> 'c" where
  "rpc_attempts 0 call c = ((\<lparr>gs_code = GrpcOk, gs_message = []\<rparr>, None), c)"
| "rpc_attempts (Suc k) call c =
    (let ((st, res), c) = call c in
     if status_ok st then ((st, Some res), c)
     else if \<not> is_retryable_status st \<or> k = 0 then ((st, None), c)
     else rpc_attempts k call c)"

definition rpc_failed :: "string \<Rightarrow> grpc_status \<Rightarrow> string" where
  "rpc_failed name st = name @ '' RPC failed: code='' @ to_string_nat (grpc_code_number (gs_code st)) @ '' message='' @ gs_message st"

definition invalidate_cache :: "'s flux_client \<Rightarrow> 's flux_client" where
  "invalidate_cache c = c\<lparr>signal_info_cache := m_empty, unit_cache := m_empty, physics_driven_cache := m_empty\<rparr>"

definition check_connection :: "'s flux_server \<Rightarrow> 's flux_client \<Rightarrow> (string + unit) \<times> 's flux_client" where
  "check_connection srv c =
    (let (up, s) = fx_wait_connected srv 2000 (fc_server c);
         c = c\<lparr>fc_server := s, fc_trace := fc_trace c @ [RpcWait 2000 up]\<rparr>
     in (if up then Inr () else Inl ''FluxGraph server connection is not ready'', c))"

definition new_flux_client :: "'s flux_server \<Rightarrow> string \<Rightarrow> 's \<Rightarrow> string + 's flux_client" where
  "new_flux_client srv server_address s =
    (let (up, s) = fx_wait_connected srv 5000 s in
     if up
     then Inr \<lparr>session_id = [], registered = False, provider_id = [], registered_device_ids = [], sim_time_sec = Fin 0,
       last_tick_occurred = False, pending_commands = [], signal_info_cache = m_empty, unit_cache = m_empty,
       physics_driven_cache = m_empty, fc_server = s, fc_trace = [RpcWait 5000 up]\<rparr>
     else Inl (''Failed to connect to FluxGraph server at '' @ server_address))"

definition load_config_content ::
  "'s flux_server \<Rightarrow> string \<Rightarrow> 's flux_client \<Rightarrow> (string + unit) \<times> 's flux_client" where
  "load_config_content srv yaml_content c =
    (case check_connection srv c of
       (Inl e, c) \<Rightarrow> (Inl e, c)
     | (Inr _, c) \<Rightarrow>
         let hash_input = ''yaml'' @ [CHR 0x0A] @ yaml_content;
             req = \<lparr>cfr_config_content = yaml_content, cfr_format = ''yaml'', cfr_config_hash = to_hex_string (fnv1a_64 hash_input)\<rparr>
         in case rpc_attempts kMaxRpcAttempts (stub_load_config srv req kConfigRpcTimeout) c of
              ((st, None), c) \<Rightarrow> (Inl (rpc_failed ''LoadConfig'' st), c)
            | ((st, Some res), c) \<Rightarrow>
                if \<not> cfs_success res then (Inl (''LoadConfig failed: '' @ cfs_error_message res), c)
                else if cfs_config_changed res
                then (Inr (), invalidate_cache (c\<lparr>registered := False, session_id := [], sim_time_sec := Fin 0,
                       last_tick_occurred := False, pending_commands := []\<rparr>))
                else (Inr (), c))"

text \<open>\<open>load_config\<close> of the client: a file read into a string.\<close>

definition client_load_config ::
  "'v sdk \<Rightarrow> 's flux_server \<Rightarrow> string \<Rightarrow> 's flux_client \<Rightarrow> (string + unit) \<times> 's flux_client" where
  "client_load_config sdk srv yaml_path c =
    (case sdk_read_file sdk yaml_path of
       None \<Rightarrow> (Inl (''Failed to open config file: '' @ yaml_path), c)
     | Some buffer \<Rightarrow> load_config_content srv buffer c)"

definition register_provider ::
  "'s flux_server \<Rightarrow> string \<Rightarrow> string list \<Rightarrow> 's flux_client \<Rightarrow> (string + unit) \<times> 's flux_client" where
  "register_provider srv provider device_ids c =
    (case check_connection srv c of
       (Inl e, c) \<Rightarrow> (Inl e, c)
     | (Inr _, c) \<Rightarrow>
         let req = \<lparr>reg_provider_id = provider, reg_device_ids = device_ids\<rparr> in
         case rpc_attempts kMaxRpcAttempts (stub_register srv req kDefaultRpcTimeout) c of
           ((st, None), c) \<Rightarrow> (Inl (rpc_failed ''RegisterProvider'' st), c)
         | ((st, Some res), c) \<Rightarrow>
             if \<not> rgs_success res then (Inl (''RegisterProvider failed: '' @ rgs_error_message res), c)
             else (Inr (), c\<lparr>provider_id := provider, registered_device_ids := device_ids,
                     session_id := rgs_session_id res, registered := True\<rparr>))"

definition try_reregister_session :: "'s flux_server \<Rightarrow> 's flux_client \<Rightarrow> bool \<times> 's flux_client" where
  "try_reregister_session srv c =
    (if provider_id c = [] then (False, c)
     else
       let req = \<lparr>reg_provider_id = provider_id c, reg_device_ids = registered_device_ids c\<rparr> in
       case rpc_attempts kMaxRpcAttempts (stub_register srv req kDefaultRpcTimeout) c of
         ((st, None), c) \<Rightarrow> (False, c)
       | ((st, Some res), c) \<Rightarrow>
           if \<not> rgs_success res then (False, c)
           else (True, c\<lparr>session_id := rgs_session_id res, registered := True\<rparr>))"

definition convert_args :: "(string, command_arg) smap \<Rightarrow> (string, command_value) smap" where
  "convert_args args = foldl (\<lambda>out (key, arg). case arg of
      ArgDouble d \<Rightarrow> m_put key (CvDouble d) out
    | ArgInt i \<Rightarrow> m_put key (CvInt i) out
    | ArgBool b \<Rightarrow> m_put key (CvBool b) out
    | ArgString s \<Rightarrow> m_put key (CvString s) out
    | ArgNotSet \<Rightarrow> out) m_empty args"

definition convert_command :: "pb_command \<Rightarrow> flux_command" where
  "convert_command pb = \<lparr>fc_device_name = pbc_device pb, fc_function_name = pbc_function pb, fc_args = convert_args (pbc_args pb)\<rparr>"

text \<open>The branch of a good answer, and the loop around it; \<open>k\<close> counts the attempts left.\<close>

definition accept_tick :: "tick_response \<Rightarrow> 's flux_client \<Rightarrow> bool \<times> 's flux_client" where
  "accept_tick res c =
    (let c = c\<lparr>last_tick_occurred := tkr_tick_occurred res, sim_time_sec := tkr_sim_time_sec res,
               pending_commands := map convert_command (tkr_commands res)\<rparr>;
         c = (if last_tick_occurred c then invalidate_cache c else c)
     in (last_tick_occurred c, c))"

fun update_loop ::
  "'s flux_server \<Rightarrow> signal_update list \<Rightarrow> int \<Rightarrow> nat \<Rightarrow> bool \<Rightarrow> grpc_status \<Rightarrow> 's flux_client \<Rightarrow>
   (string + bool) \<times> 's flux_client" where
  "update_loop srv sigs rpc_timeout 0 retried_after_unauth status c = (Inl (rpc_failed ''UpdateSignals'' status), c)"
| "update_loop srv sigs rpc_timeout (Suc k) retried_after_unauth status0 c =
    (let ((status, res), c) = stub_update srv \<lparr>sus_session_id = session_id c, sus_signals = sigs\<rparr> rpc_timeout c in
     if status_ok status then (let (ticked, c) = accept_tick res c in (Inr ticked, c))
     else if gs_code status = GrpcUnauthenticated \<and> \<not> retried_after_unauth then
       (let (again, c) = try_reregister_session srv (c\<lparr>registered := False, session_id := []\<rparr>)
        in if again then update_loop srv sigs rpc_timeout k True status c
           else (Inl (rpc_failed ''UpdateSignals'' status), c))
     else if is_retryable_status status \<and> k \<noteq> 0 then update_loop srv sigs rpc_timeout k retried_after_unauth status c
     else (Inl (rpc_failed ''UpdateSignals'' status), c))"

definition update_signals ::
  "'s flux_server \<Rightarrow> (string, double) smap \<Rightarrow> string \<Rightarrow> int \<Rightarrow> 's flux_client \<Rightarrow> (string + bool) \<times> 's flux_client" where
  "update_signals srv signals default_unit timeout c =
    (if \<not> registered c then (Inl ''FluxGraph provider session not registered'', c)
     else
       let sigs = map (\<lambda>(path, v). \<lparr>su_path = path, su_value = v, su_unit = default_unit\<rparr>) signals;
           rpc_timeout = (if 0 < timeout then timeout else kDefaultRpcTimeout)
       in update_loop srv sigs rpc_timeout kMaxRpcAttempts False \<lparr>gs_code = GrpcOk, gs_message = []\<rparr> c)"

text \<open>The loop of \<open>read_signal\<close>: \<open>None\<close> is the early return.\<close>

fun read_loop ::
  "'s flux_server \<Rightarrow> string \<Rightarrow> nat \<Rightarrow> bool \<Rightarrow> grpc_status \<times> signal_info list \<Rightarrow> 's flux_client \<Rightarrow>
   (grpc_status \<times> signal_info list) option \<times> 's flux_client" where
  "read_loop srv path 0 retried_after_unauth prev c = (Some prev, c)"
| "read_loop srv path (Suc k) retried_after_unauth prev c =
    (let ((status, res), c) = stub_read srv [path] kDefaultRpcTimeout c in
     if status_ok status then (Some (status, res), c)
     else
       let unauth = gs_code status = GrpcUnauthenticated \<and> \<not> retried_after_unauth \<and> registered c;
           (again, c) = (if unauth then try_reregister_session srv c else (False, c));
           retried = (retried_after_unauth \<or> unauth)
       in if again then read_loop srv path k retried (status, res) c
          else if \<not> is_retryable_status status \<or> k = 0 then (None, c)
          else read_loop srv path k retried (status, res) c)"

definition read_signal :: "'s flux_server \<Rightarrow> string \<Rightarrow> 's flux_client \<Rightarrow> signal_info option \<times> 's flux_client" where
  "read_signal srv path c =
    (case m_find path (signal_info_cache c) of
       Some v \<Rightarrow>
         let (u, units) = m_get_or_insert path [] (unit_cache c);
             (p, driven) = m_get_or_insert path False (physics_driven_cache c)
         in (Some \<lparr>si_value = v, si_unit = u, si_physics_driven = p\<rparr>, c\<lparr>unit_cache := units, physics_driven_cache := driven\<rparr>)
     | None \<Rightarrow>
         (case read_loop srv path kMaxRpcAttempts False (\<lparr>gs_code = GrpcOk, gs_message = []\<rparr>, []) c of
            (None, c) \<Rightarrow> (None, c)
          | (Some (status, res), c) \<Rightarrow>
              (case res of
                 [sig] \<Rightarrow>
                   if \<not> status_ok status then (None, c)
                   else (Some sig, c\<lparr>signal_info_cache := m_put path (si_value sig) (signal_info_cache c),
                           unit_cache := m_put path (si_unit sig) (unit_cache c),
                           physics_driven_cache := m_put path (si_physics_driven sig) (physics_driven_cache c)\<rparr>)
               | _ \<Rightarrow> (None, c))))"

definition read_signal_value :: "'s flux_server \<Rightarrow> string \<Rightarrow> 's flux_client \<Rightarrow> double option \<times> 's flux_client" where
  "read_signal_value srv path c = (let (info, c) = read_signal srv path c in (map_option si_value info, c))"

definition drain_commands :: "'s flux_client \<Rightarrow> flux_command list \<times> 's flux_client" where
  "drain_commands c = (pending_commands c, c\<lparr>pending_commands := []\<rparr>)"

text \<open>\<open>reset\<close> of the client.\<close>

definition client_reset :: "'s flux_server \<Rightarrow> 's flux_client \<Rightarrow> (string + unit) \<times> 's flux_client" where
  "client_reset srv c =
    (case rpc_attempts kMaxRpcAttempts (stub_reset srv kDefaultRpcTimeout) c of
       ((st, None), c) \<Rightarrow> (Inl (rpc_failed ''Reset'' st), c)
     | ((st, Some res), c) \<Rightarrow>
         if \<not> rss_success res then (Inl (''Reset failed: '' @ rss_error_message res), c)
         else (Inr (), invalidate_cache (c\<lparr>sim_time_sec := Fin 0, last_tick_occurred := False, pending_commands := []\<rparr>)))"

definition unregister_provider_noexcept :: "'s flux_server \<Rightarrow> 's flux_client \<Rightarrow> 's flux_client" where
  "unregister_provider_noexcept srv c =
    (if \<not> registered c \<or> session_id c = [] then c
     else c\<lparr>fc_server := fx_unregister srv (session_id c) (rpc_deadline kDefaultRpcTimeout) (fc_server c),
            fc_trace := fc_trace c @ [RpcUnregister (session_id c) (rpc_deadline kDefaultRpcTimeout)],
            registered := False, session_id := []\<rparr>)"

end
