(* ===== verification/Flux_Session.thy ===== *)
theory Flux_Session
  imports Flux_Client
begin

text \<open>
  What the FluxGraph client keeps of its session: the trace of its calls against its state. The
  retry loop has a contract of its own, the locale \<open>recorded_call\<close>, for any procedure whose call is
  recorded; each stub interprets it.
\<close>

section \<open>The retry loop\<close>

locale recorded_call =
  fixes call :: "'s flux_client \<Rightarrow> (grpc_status \<times> 'r) \<times> 's flux_client"
    and ev :: "grpc_status \<times> 'r \<Rightarrow> rpc"
  assumes recorded: "\<exists>s. snd (call c) = c\<lparr>fc_server := s, fc_trace := fc_trace c @ [ev (fst (call c))]\<rparr>"
begin

lemma attempts:
  "\<exists>s rs. snd (rpc_attempts k call c) = c\<lparr>fc_server := s, fc_trace := fc_trace c @ map ev rs\<rparr> \<and> length rs \<le> k \<and> (k \<noteq> 0 \<longrightarrow> rs \<noteq> []) \<and>
     (case snd (fst (rpc_attempts k call c)) of
        None \<Rightarrow> \<forall>r \<in> set rs. \<not> status_ok (fst r)
      | Some res \<Rightarrow> rs \<noteq> [] \<and> (\<forall>r \<in> set (butlast rs). \<not> status_ok (fst r)) \<and>
          last rs = (fst (fst (rpc_attempts k call c)), res) \<and> status_ok (fst (last rs)))"
proof (induction k arbitrary: c)
  case 0
  show ?case by (rule exI[of _ "fc_server c"], rule exI[of _ "[]"]) simp
next
  case (Suc k)
  obtain st res c1 where call: "call c = ((st, res), c1)" by (metis prod.exhaust)
  from recorded[of c] obtain s where c1: "c1 = c\<lparr>fc_server := s, fc_trace := fc_trace c @ [ev (st, res)]\<rparr>"
    by (auto simp: call)
  consider "status_ok st" | "\<not> status_ok st" "\<not> is_retryable_status st \<or> k = 0" | "\<not> status_ok st" "is_retryable_status st" "k \<noteq> 0"
    by blast
  then show ?case
  proof cases
    case 1
    then show ?thesis by (intro exI[of _ s] exI[of _ "[(st, res)]"]) (simp add: call c1)
  next
    case 2
    then show ?thesis by (intro exI[of _ s] exI[of _ "[(st, res)]"]) (simp add: call c1)
  next
    case 3
    then have eq: "rpc_attempts (Suc k) call c = rpc_attempts k call c1" by (simp add: call)
    from Suc.IH[of c1] obtain s' rs where
      "snd (rpc_attempts k call c1) = c1\<lparr>fc_server := s', fc_trace := fc_trace c1 @ map ev rs\<rparr>" "length rs \<le> k"
      "case snd (fst (rpc_attempts k call c1)) of
        None \<Rightarrow> \<forall>r \<in> set rs. \<not> status_ok (fst r)
      | Some res \<Rightarrow> rs \<noteq> [] \<and> (\<forall>r \<in> set (butlast rs). \<not> status_ok (fst r)) \<and>
          last rs = (fst (fst (rpc_attempts k call c1)), res) \<and> status_ok (fst (last rs))" by blast
    then show ?thesis using 3 unfolding eq
      by (intro exI[of _ s'] exI[of _ "(st, res) # rs"]) (auto simp: c1 split: option.splits)
  qed
qed

end

definition register_event :: "registration \<Rightarrow> int \<Rightarrow> grpc_status \<times> registration_response \<Rightarrow> rpc" where
  "register_event req t r = RpcRegister req t (fst r) (snd r)"

definition load_event :: "config_request \<Rightarrow> int \<Rightarrow> grpc_status \<times> config_response \<Rightarrow> rpc" where
  "load_event req t r = RpcLoadConfig req t (fst r) (snd r)"

definition reset_event :: "int \<Rightarrow> grpc_status \<times> reset_response \<Rightarrow> rpc" where
  "reset_event t r = RpcReset t (fst r)"

lemmas stub_defs = stub_register_def stub_load_config_def stub_reset_def stub_update_def stub_read_def
lemmas event_defs = register_event_def load_event_def reset_event_def

interpretation register_call: recorded_call "stub_register srv req t" "register_event req (rpc_deadline t)" for srv req t
  by unfold_locales (auto simp: stub_defs event_defs split: prod.split)

interpretation load_call: recorded_call "stub_load_config srv req t" "load_event req (rpc_deadline t)" for srv req t
  by unfold_locales (auto simp: stub_defs event_defs split: prod.split)

interpretation reset_call: recorded_call "stub_reset srv t" "reset_event (rpc_deadline t)" for srv t
  by unfold_locales (auto simp: stub_defs event_defs split: prod.split)

section \<open>The session the server granted\<close>

text \<open>
  The abstract session, read off the trace alone: the last granted registration, unless a load that
  changed the configuration or an unregistration came after it.
\<close>

fun grant_step :: "(registration \<times> string) option \<Rightarrow> rpc \<Rightarrow> (registration \<times> string) option" where
  "grant_step g (RpcRegister req t st res) = (if status_ok st \<and> rgs_success res then Some (req, rgs_session_id res) else g)"
| "grant_step g (RpcLoadConfig req t st res) = (if status_ok st \<and> cfs_success res \<and> cfs_config_changed res then None else g)"
| "grant_step g (RpcUnregister sid t) = None"
| "grant_step g _ = g"

definition granted :: "rpc list \<Rightarrow> (registration \<times> string) option" where
  "granted trace = foldl grant_step None trace"

lemma granted_append: "granted (tr @ tr') = foldl grant_step (granted tr) tr'"
  by (simp add: granted_def)

text \<open>A client that believes it is registered holds the session of the last grant.\<close>

definition session_in_force :: "'s flux_client \<Rightarrow> bool" where
  "session_in_force c \<longleftrightarrow> (registered c \<longrightarrow>
     granted (fc_trace c) = Some (\<lparr>reg_provider_id = provider_id c, reg_device_ids = registered_device_ids c\<rparr>, session_id c))"

text \<open>Every update in a trace was sent under the session granted at that moment.\<close>

fun updates_in_session :: "(registration \<times> string) option \<Rightarrow> rpc list \<Rightarrow> bool" where
  "updates_in_session g [] = True"
| "updates_in_session g (e # tr) =
     ((case e of RpcUpdate u t st res \<Rightarrow> (case g of None \<Rightarrow> False | Some (req, sid) \<Rightarrow> sus_session_id u = sid) | _ \<Rightarrow> True) \<and>
      updates_in_session (grant_step g e) tr)"

lemma updates_in_session_append:
  "updates_in_session g (tr @ tr') \<longleftrightarrow> updates_in_session g tr \<and> updates_in_session (foldl grant_step g tr) tr'"
  by (induction tr arbitrary: g) auto

definition session_inv :: "'s flux_client \<Rightarrow> bool" where
  "session_inv c \<longleftrightarrow> session_in_force c \<and> updates_in_session None (fc_trace c)"

text \<open>Procedures that neither grant nor end a session.\<close>

definition neutral :: "rpc \<Rightarrow> bool" where
  "neutral e \<longleftrightarrow> (\<forall>g. grant_step g e = g) \<and> (case e of RpcUpdate u t st res \<Rightarrow> False | _ \<Rightarrow> True)"

lemma neutral_foldl: "list_all neutral tr \<Longrightarrow> foldl grant_step g tr = g \<and> updates_in_session g tr"
  by (induction tr arbitrary: g) (auto simp: neutral_def split: rpc.splits)

lemma session_inv_neutral:
  assumes "session_inv c" and "list_all neutral tr"
    and "fc_trace c' = fc_trace c @ tr" "registered c' = registered c" "provider_id c' = provider_id c"
      "registered_device_ids c' = registered_device_ids c" "session_id c' = session_id c"
  shows "session_inv c'"
  using assms neutral_foldl[OF assms(2)]
  by (simp add: session_inv_def session_in_force_def granted_append updates_in_session_append flip: granted_def)

text \<open>What a round of registration attempts does to the grant. The events are registrations of one request.\<close>

definition registers :: "registration \<Rightarrow> int \<Rightarrow> rpc \<Rightarrow> bool" where
  "registers req t e \<longleftrightarrow> (case e of RpcRegister req' t' st res \<Rightarrow> req' = req \<and> t' = t | _ \<Rightarrow> False)"

lemma registers_in_session: "list_all (registers req t) tr \<Longrightarrow> updates_in_session g tr"
  by (induction tr arbitrary: g) (auto simp: registers_def split: rpc.splits)

lemma failed_registrations:
  "\<forall>r \<in> set rs. \<not> status_ok (fst r) \<Longrightarrow> foldl grant_step g (map (register_event req t) rs) = g"
  by (induction rs arbitrary: g) (simp_all add: event_defs)

lemma register_attempts:
  "\<exists>s tr. snd (rpc_attempts k (stub_register srv req t) c) = c\<lparr>fc_server := s, fc_trace := fc_trace c @ tr\<rparr> \<and>
     length tr \<le> k \<and> (k \<noteq> 0 \<longrightarrow> tr \<noteq> []) \<and> list_all (registers req (rpc_deadline t)) tr \<and>
     (\<forall>g. foldl grant_step g tr = (case snd (fst (rpc_attempts k (stub_register srv req t) c)) of
       Some res \<Rightarrow> if rgs_success res then Some (req, rgs_session_id res) else g | None \<Rightarrow> g))"
proof -
  let ?out = "rpc_attempts k (stub_register srv req t) c"
  let ?ev = "register_event req (rpc_deadline t)"
  from register_call.attempts[of k srv req t c] obtain s rs where
    st: "snd ?out = c\<lparr>fc_server := s, fc_trace := fc_trace c @ map ?ev rs\<rparr>" and len: "length rs \<le> k" "k \<noteq> 0 \<longrightarrow> rs \<noteq> []"
    and res: "case snd (fst ?out) of None \<Rightarrow> \<forall>r \<in> set rs. \<not> status_ok (fst r)
      | Some res \<Rightarrow> rs \<noteq> [] \<and> (\<forall>r \<in> set (butlast rs). \<not> status_ok (fst r)) \<and>
          last rs = (fst (fst ?out), res) \<and> status_ok (fst (last rs))" by blast
  have grant: "foldl grant_step g (map ?ev rs) = (case snd (fst ?out) of
       Some res \<Rightarrow> if rgs_success res then Some (req, rgs_session_id res) else g | None \<Rightarrow> g)" for g
  proof (cases "snd (fst ?out)")
    case None
    with res failed_registrations show ?thesis by simp
  next
    case (Some r)
    with res have ne: "rs \<noteq> []" and ok: "\<forall>r \<in> set (butlast rs). \<not> status_ok (fst r)"
      and last: "last rs = (fst (fst ?out), r)" "status_ok (fst (fst ?out))" by auto
    from ne have rs: "map ?ev rs = map ?ev (butlast rs) @ [?ev (last rs)]"
      by (metis append_butlast_last_id list.simps(8,9) map_append)
    show ?thesis unfolding rs foldl_append failed_registrations[OF ok] using last Some by (simp add: event_defs)
  qed
  have "list_all (registers req (rpc_deadline t)) (map ?ev rs)"
    by (simp add: list_all_iff registers_def event_defs)
  with st len grant show ?thesis by (intro exI[of _ s] exI[of _ "map ?ev rs"]) simp
qed

abbreviation own_registration :: "'s flux_client \<Rightarrow> registration" where
  "own_registration c \<equiv> \<lparr>reg_provider_id = provider_id c, reg_device_ids = registered_device_ids c\<rparr>"

lemma reregister:
  assumes "try_reregister_session srv c = (b, c')"
  shows "\<exists>s tr sid. c' = (if b then c\<lparr>fc_server := s, fc_trace := fc_trace c @ tr, session_id := sid, registered := True\<rparr>
      else c\<lparr>fc_server := s, fc_trace := fc_trace c @ tr\<rparr>) \<and>
    length tr \<le> 2 \<and> (provider_id c \<noteq> [] \<longrightarrow> tr \<noteq> []) \<and> list_all (registers (own_registration c) 2000) tr \<and>
    (\<forall>g. foldl grant_step g tr = (if b then Some (own_registration c, sid) else g))"
proof (cases "provider_id c = []")
  case True
  with assms show ?thesis
    by (intro exI[of _ "fc_server c"] exI[of _ "[]"]) (simp add: try_reregister_session_def)
next
  case False
  let ?out = "rpc_attempts kMaxRpcAttempts (stub_register srv (own_registration c) kDefaultRpcTimeout) c"
  have two: "kMaxRpcAttempts = 2" "rpc_deadline kDefaultRpcTimeout = 2000"
    by (simp_all add: kMaxRpcAttempts_def rpc_deadline_def kDefaultRpcTimeout_def)
  obtain st r c1 where out: "?out = ((st, r), c1)" by (metis prod.exhaust)
  from register_attempts[of kMaxRpcAttempts srv "own_registration c" kDefaultRpcTimeout c] obtain s tr where
    c1: "c1 = c\<lparr>fc_server := s, fc_trace := fc_trace c @ tr\<rparr>" and tr: "length tr \<le> 2" "tr \<noteq> []"
    "list_all (registers (own_registration c) 2000) tr"
    and g: "\<forall>g. foldl grant_step g tr = (case r of
       Some res \<Rightarrow> if rgs_success res then Some (own_registration c, rgs_session_id res) else g | None \<Rightarrow> g)"
    unfolding out fst_conv snd_conv two(2) unfolding two(1) by (metis zero_neq_numeral)
  from assms have "(b, c') = (case r of None \<Rightarrow> (False, c1)
      | Some res \<Rightarrow> if \<not> rgs_success res then (False, c1) else (True, c1\<lparr>session_id := rgs_session_id res, registered := True\<rparr>))"
    unfolding try_reregister_session_def Let_def out using False by (simp split: option.splits)
  then show ?thesis using tr g
    by (intro exI[of _ s] exI[of _ tr] exI[of _ "case r of Some res \<Rightarrow> rgs_session_id res | None \<Rightarrow> []"])
      (auto simp: c1 split: option.splits if_splits)
qed

lemma reregister_inv:
  assumes "try_reregister_session srv c = (b, c')" and "updates_in_session None (fc_trace c)" and "registered c \<longrightarrow> session_in_force c"
  shows "session_inv c'"
  using reregister[OF assms(1)] assms(2,3)
  by (auto simp: session_inv_def session_in_force_def granted_append updates_in_session_append registers_in_session)

section \<open>An update of the signals\<close>

text \<open>What a tick shows of the client.\<close>

definition tick_view :: "'s flux_client \<Rightarrow> double \<times> bool \<times> flux_command list \<times> (string, double) smap \<times>
    (string, string) smap \<times> (string, bool) smap" where
  "tick_view c = (sim_time_sec c, last_tick_occurred c, pending_commands c, signal_info_cache c, unit_cache c, physics_driven_cache c)"

definition is_update :: "signal_update list \<Rightarrow> int \<Rightarrow> rpc \<Rightarrow> bool" where
  "is_update sigs t e \<longleftrightarrow> (case e of RpcUpdate u t' st res \<Rightarrow> sus_signals u = sigs \<and> t' = t | _ \<Rightarrow> False)"

text \<open>
  The contract of the loop: which procedures it calls and how often, that the session stays in force,
  and that a result comes from the last answer while a failure leaves what a tick shows alone.
\<close>

definition update_contract ::
  "signal_update list \<Rightarrow> int \<Rightarrow> nat \<Rightarrow> nat \<Rightarrow> 's flux_client \<Rightarrow> string + bool \<Rightarrow> 's flux_client \<Rightarrow> bool" where
  "update_contract sigs t k l c r c' \<longleftrightarrow>
     session_inv c' \<and> own_registration c' = own_registration c \<and>
     (\<exists>tr. fc_trace c' = fc_trace c @ tr \<and> list_all (\<lambda>e. is_update sigs t e \<or> registers (own_registration c) 2000 e) tr \<and>
        length (filter (is_update sigs t) tr) \<le> k \<and> length (filter (registers (own_registration c) 2000) tr) \<le> l \<and>
        (case r of
           Inl e \<Rightarrow> tick_view c' = tick_view c
         | Inr b \<Rightarrow> registered c' \<and> tr \<noteq> [] \<and>
             (\<exists>u st res. last tr = RpcUpdate u t st res \<and> status_ok st \<and> b = tkr_tick_occurred res \<and>
                tick_view c' = tick_view (snd (accept_tick res c)))))"

lemma update_contract_before:
  assumes "update_contract sigs t k l c1 r c'"
    and "fc_trace c1 = fc_trace c @ tr" "own_registration c1 = own_registration c" "tick_view c1 = tick_view c"
    and "list_all (\<lambda>e. is_update sigs t e \<or> registers (own_registration c) 2000 e) tr"
    and "k + length (filter (is_update sigs t) tr) \<le> k'" and "l + length (filter (registers (own_registration c) 2000) tr) \<le> l'"
  shows "update_contract sigs t k' l' c r c'"
proof -
  have acc: "tick_view (snd (accept_tick res c1)) = tick_view (snd (accept_tick res c))" for res
    using assms(4) by (simp add: tick_view_def accept_tick_def invalidate_cache_def Let_def)
  from assms(1) obtain tr1 where tr1: "fc_trace c' = fc_trace c1 @ tr1"
      "list_all (\<lambda>e. is_update sigs t e \<or> registers (own_registration c) 2000 e) tr1"
      "length (filter (is_update sigs t) tr1) \<le> k" "length (filter (registers (own_registration c) 2000) tr1) \<le> l"
    and r: "case r of Inl e \<Rightarrow> tick_view c' = tick_view c1
         | Inr b \<Rightarrow> registered c' \<and> tr1 \<noteq> [] \<and>
             (\<exists>u st res. last tr1 = RpcUpdate u t st res \<and> status_ok st \<and> b = tkr_tick_occurred res \<and>
                tick_view c' = tick_view (snd (accept_tick res c1)))"
    and inv: "session_inv c'" "own_registration c' = own_registration c"
    unfolding update_contract_def assms(3) by blast
  show ?thesis
    unfolding update_contract_def
    using inv tr1 r assms(2,4-7)
    by (intro conjI exI[of _ "tr @ tr1"]) (auto simp: acc split: sum.splits)
qed

lemma update_session:
  assumes "session_inv c" and "registered c"
    and "fc_trace c' = fc_trace c @ [RpcUpdate u t st res]" "sus_session_id u = session_id c"
    and "own_registration c' = own_registration c"
    and "registered c' \<longrightarrow> session_id c' = session_id c"
  shows "session_inv c'"
  using assms by (auto simp: session_inv_def session_in_force_def updates_in_session_append granted_append simp flip: granted_def)

lemma update_loop_contract:
  assumes "session_inv c" and "registered c"
  shows "case update_loop srv sigs t k retried st0 c of (r, c') \<Rightarrow>
    update_contract sigs (rpc_deadline t) k (if retried then 0 else 2) c r c'"
  using assms
proof (induction k arbitrary: retried st0 c)
  case 0
  then show ?case by (simp add: update_contract_def)
next
  case (Suc k)
  let ?u = "\<lparr>sus_session_id = session_id c, sus_signals = sigs\<rparr>"
  obtain st res c1 where call: "stub_update srv ?u t c = ((st, res), c1)" by (metis prod.exhaust)
  then obtain s where c1: "c1 = c\<lparr>fc_server := s, fc_trace := fc_trace c @ [RpcUpdate ?u (rpc_deadline t) st res]\<rparr>"
    by (auto simp: stub_update_def split: prod.splits)
  have inv1: "session_inv c1" "registered c1"
    using update_session[OF Suc.prems, of c1 ?u] Suc.prems(2) by (simp_all add: c1)
  have view: "tick_view c1 = tick_view c" by (simp add: c1 tick_view_def)
  have upd: "is_update sigs (rpc_deadline t) (RpcUpdate ?u (rpc_deadline t) st res)"
    and nreg: "\<not> registers x y (RpcUpdate ?u (rpc_deadline t) st res)" for x y
    by (simp_all add: is_update_def registers_def)
  have after: "update_contract sigs (rpc_deadline t) (Suc i) l c r c'"
    if "update_contract sigs (rpc_deadline t) i l c1 r c'" for i l r c'
    by (rule update_contract_before[OF that _ _ view, where tr = "[RpcUpdate ?u (rpc_deadline t) st res]"])
      (use upd nreg in \<open>simp_all add: c1\<close>)
  have stopped: "update_contract sigs (rpc_deadline t) 0 0 d (Inl e) d" if "session_inv d" for d :: "'a flux_client" and e
    using that by (simp add: update_contract_def)
  consider "status_ok st" | "\<not> status_ok st" "gs_code st = GrpcUnauthenticated \<and> \<not> retried"
    | "\<not> status_ok st" "\<not> (gs_code st = GrpcUnauthenticated \<and> \<not> retried)" "is_retryable_status st \<and> k \<noteq> 0"
    | "\<not> status_ok st" "\<not> (gs_code st = GrpcUnauthenticated \<and> \<not> retried)" "\<not> (is_retryable_status st \<and> k \<noteq> 0)"
    by blast
  then show ?case
  proof cases
    case 1
    have "session_inv (snd (accept_tick res c1)) \<and> own_registration (snd (accept_tick res c1)) = own_registration c \<and>
        registered (snd (accept_tick res c1)) \<and> fc_trace (snd (accept_tick res c1)) = fc_trace c1"
      using session_inv_neutral[OF inv1(1), of "[]" "snd (accept_tick res c1)"] inv1(2)
      by (simp add: accept_tick_def invalidate_cache_def Let_def c1)
    moreover have "fst (accept_tick res c1) = tkr_tick_occurred res"
      "tick_view (snd (accept_tick res c1)) = tick_view (snd (accept_tick res c))"
      by (simp_all add: accept_tick_def invalidate_cache_def tick_view_def Let_def c1)
    moreover have "update_loop srv sigs t (Suc k) retried st0 c = (Inr (fst (accept_tick res c1)), snd (accept_tick res c1))"
      using 1 by (simp add: call case_prod_beta)
    ultimately show ?thesis using upd nreg 1
      unfolding update_contract_def
      by (auto simp: c1 intro!: exI[of _ "[RpcUpdate ?u (rpc_deadline t) st res]"])
  next
    case 2
    define c2 where "c2 = c1\<lparr>registered := False, session_id := []\<rparr>"
    obtain b c3 where re: "try_reregister_session srv c2 = (b, c3)" by (metis prod.exhaust)
    from inv1 have "updates_in_session None (fc_trace c2)" by (simp add: c2_def session_inv_def)
    then have inv3: "session_inv c3" by (rule reregister_inv[OF re]) (simp add: c2_def)
    from reregister[OF re] obtain s' tr sid where
      c3: "c3 = (if b then c2\<lparr>fc_server := s', fc_trace := fc_trace c2 @ tr, session_id := sid, registered := True\<rparr>
        else c2\<lparr>fc_server := s', fc_trace := fc_trace c2 @ tr\<rparr>)"
      and tr: "length tr \<le> 2" "list_all (registers (own_registration c2) 2000) tr" by blast
    have own: "own_registration c2 = own_registration c" by (simp add: c2_def c1)
    have noupd: "filter (is_update sigs (rpc_deadline t)) tr = []"
      using tr(2) by (auto simp: filter_empty_conv list_all_iff is_update_def registers_def split: rpc.splits)
    have regs: "length (filter (registers (own_registration c) 2000) tr) \<le> 2"
      using tr(1) length_filter_le[of _ tr] order_trans by blast
    have trace3: "fc_trace c3 = fc_trace c @ (RpcUpdate ?u (rpc_deadline t) st res # tr)"
      "own_registration c3 = own_registration c" "tick_view c3 = tick_view c"
      by (simp_all add: c3 c2_def c1 tick_view_def)
    have all: "list_all (\<lambda>e. is_update sigs (rpc_deadline t) e \<or> registers (own_registration c) 2000 e)
        (RpcUpdate ?u (rpc_deadline t) st res # tr)"
      using upd tr(2) unfolding own by (simp add: list_all_iff)
    show ?thesis
    proof (cases b)
      case True
      then have "registered c3" by (simp add: c3)
      from Suc.IH[OF inv3 this, of True st]
      have ih: "case update_loop srv sigs t k True st c3 of (r, c') \<Rightarrow> update_contract sigs (rpc_deadline t) k 0 c3 r c'" by simp
      have "update_loop srv sigs t (Suc k) retried st0 c = update_loop srv sigs t k True st c3"
        using 2 True re by (simp add: call c2_def)
      with ih show ?thesis
        using 2 upd nreg noupd regs
        by (auto intro!: update_contract_before[OF _ trace3 all])
    next
      case False
      then have "update_loop srv sigs t (Suc k) retried st0 c = (Inl (rpc_failed ''UpdateSignals'' st), c3)"
        using 2 re by (simp add: call c2_def)
      with 2 upd nreg noupd regs show ?thesis
        by (auto intro!: update_contract_before[OF stopped[OF inv3] trace3 all])
    qed
  next
    case 3
    have eq: "update_loop srv sigs t (Suc k) retried st0 c = update_loop srv sigs t k retried st c1"
      by (simp only: update_loop.simps call Let_def prod.case 3 if_False if_True simp_thms)
    have "case update_loop srv sigs t k retried st c1 of (r, c') \<Rightarrow>
        update_contract sigs (rpc_deadline t) k (if retried then 0 else 2) c1 r c'"
      by (rule Suc.IH[OF inv1])
    then show ?thesis unfolding eq by (auto dest: after)
  next
    case 4
    have "update_loop srv sigs t (Suc k) retried st0 c = (Inl (rpc_failed ''UpdateSignals'' st), c1)"
      by (simp only: update_loop.simps call Let_def prod.case 4 if_False if_True simp_thms)
    moreover have "update_contract sigs (rpc_deadline t) (Suc k) (if retried then 0 else 2) c (Inl e) c1" for e
      using update_contract_before[OF stopped[OF inv1(1)] _ _ view, where tr = "[RpcUpdate ?u (rpc_deadline t) st res]" and
          k' = "Suc k" and l' = "if retried then 0 else 2"] upd nreg by (simp add: c1)
    ultimately show ?thesis by simp
  qed
qed

section \<open>The other operations\<close>

text \<open>The time the procedures of a trace may take, and how much an operation adds to it.\<close>

primrec rpc_time :: "rpc \<Rightarrow> int" where
  "rpc_time (RpcWait t up) = t"
| "rpc_time (RpcLoadConfig req t st res) = t"
| "rpc_time (RpcRegister req t st res) = t"
| "rpc_time (RpcUpdate u t st res) = t"
| "rpc_time (RpcRead paths t st res) = t"
| "rpc_time (RpcReset t st) = t"
| "rpc_time (RpcUnregister sid t) = t"

definition trace_time :: "rpc list \<Rightarrow> int" where
  "trace_time tr = sum_list (map rpc_time tr)"

lemma trace_time_simps [simp]:
  "trace_time [] = 0" "trace_time (e # tr) = rpc_time e + trace_time tr" "trace_time (tr @ tr') = trace_time tr + trace_time tr'"
  by (simp_all add: trace_time_def)

definition keeps_session :: "int \<Rightarrow> nat \<Rightarrow> 's flux_client \<Rightarrow> 's flux_client \<Rightarrow> bool" where
  "keeps_session b n c c' \<longleftrightarrow>
     session_inv c' \<and> (\<exists>tr. fc_trace c' = fc_trace c @ tr \<and> trace_time tr \<le> b \<and> length tr \<le> n)"

lemma keeps_refl: "session_inv c \<Longrightarrow> 0 \<le> b \<Longrightarrow> keeps_session b n c c"
  by (auto simp: keeps_session_def)

lemma time_bound: "\<forall>e \<in> set tr. rpc_time e = t \<Longrightarrow> length tr \<le> n \<Longrightarrow> 0 \<le> t \<Longrightarrow> trace_time tr \<le> int n * t"
proof (induction tr arbitrary: n)
  case (Cons e tr)
  then obtain m where "n = Suc m" "length tr \<le> m" by (cases n) auto
  with Cons have "trace_time tr \<le> int m * t" by auto
  with Cons.prems(1) show ?case by (simp add: \<open>n = Suc m\<close> algebra_simps)
qed (simp add: zero_le_mult_iff)

lemma event_time: "registers req t e \<Longrightarrow> rpc_time e = t" "is_update sigs t e \<Longrightarrow> rpc_time e = t"
  by (cases e; simp add: registers_def is_update_def)+

lemma registers_time: "list_all (registers req t) tr \<Longrightarrow> length tr \<le> n \<Longrightarrow> 0 \<le> t \<Longrightarrow> trace_time tr \<le> int n * t"
  by (rule time_bound) (auto simp: list_all_iff event_time)

lemma reregister_keeps:
  assumes "session_inv c" and "try_reregister_session srv c = (b, c')"
  shows "keeps_session 4000 2 c c'"
proof -
  from reregister[OF assms(2)] obtain s tr sid where
    c': "c' = (if b then c\<lparr>fc_server := s, fc_trace := fc_trace c @ tr, session_id := sid, registered := True\<rparr>
      else c\<lparr>fc_server := s, fc_trace := fc_trace c @ tr\<rparr>)"
    and tr: "length tr \<le> 2" "list_all (registers (own_registration c) 2000) tr" by blast
  have "session_inv c'"
    using assms(1) by (intro reregister_inv[OF assms(2)]) (simp_all add: session_inv_def)
  moreover have "trace_time tr \<le> 4000" using registers_time[OF tr(2,1)] by simp
  ultimately show ?thesis using tr(1) by (auto simp: keeps_session_def c')
qed

lemma keeps_trans:
  assumes "keeps_session a m c c1" and "session_inv c1 \<Longrightarrow> keeps_session b n c1 c'"
  shows "keeps_session (a + b) (m + n) c c'"
proof -
  from assms(1) obtain tr where tr: "fc_trace c1 = fc_trace c @ tr" "trace_time tr \<le> a" "length tr \<le> m" and "session_inv c1"
    by (auto simp: keeps_session_def)
  with assms(2) obtain tr1 where "fc_trace c' = fc_trace c1 @ tr1" "trace_time tr1 \<le> b" "length tr1 \<le> n" "session_inv c'"
    by (auto simp: keeps_session_def)
  with tr show ?thesis by (auto simp: keeps_session_def)
qed

lemma keeps_mono: "keeps_session a m c c' \<Longrightarrow> a \<le> b \<Longrightarrow> m \<le> n \<Longrightarrow> keeps_session b n c c'"
  unfolding keeps_session_def by (meson order_trans)

text \<open>Steps that touch neither the trace nor the session.\<close>

definition same_session :: "'s flux_client \<Rightarrow> 's flux_client \<Rightarrow> bool" where
  "same_session c c' \<longleftrightarrow> fc_trace c' = fc_trace c \<and> registered c' = registered c \<and> session_id c' = session_id c \<and>
     own_registration c' = own_registration c"

lemma same_session_keeps: "session_inv c \<Longrightarrow> same_session c c' \<Longrightarrow> keeps_session 0 0 c c'"
  unfolding keeps_session_def using session_inv_neutral[of c "[]" c'] by (auto simp: same_session_def)

lemma keeps_then_same: "keeps_session b n c c1 \<Longrightarrow> same_session c1 c' \<Longrightarrow> keeps_session b n c c'"
  using keeps_trans[of b n c c1 0 0 c'] same_session_keeps[of c1 c'] by simp

lemma read_stub_keeps:
  assumes "session_inv c" and "stub_read srv paths kDefaultRpcTimeout c = ((st, res), c1)"
  shows "keeps_session 2000 1 c c1"
proof -
  from assms(2) obtain s where c1: "c1 = c\<lparr>fc_server := s, fc_trace := fc_trace c @ [RpcRead paths 2000 st res]\<rparr>"
    by (auto simp: stub_read_def rpc_deadline_def kDefaultRpcTimeout_def split: prod.splits)
  with session_inv_neutral[OF assms(1), of "[RpcRead paths 2000 st res]" c1] show ?thesis
    by (simp add: keeps_session_def neutral_def)
qed

lemma read_loop_keeps:
  assumes "session_inv c"
  shows "keeps_session (2000 * int k + (if retried then 0 else 4000)) (k + (if retried then 0 else 2)) c (snd (read_loop srv path k retried prev c))"
  using assms
proof (induction k arbitrary: retried prev c)
  case 0
  then show ?case by (simp add: keeps_refl)
next
  case (Suc k)
  obtain st res c1 where call: "stub_read srv [path] kDefaultRpcTimeout c = ((st, res), c1)" by (metis prod.exhaust)
  have k1: "keeps_session 2000 1 c c1" by (rule read_stub_keeps[OF Suc.prems call])
  then have inv1: "session_inv c1" by (simp add: keeps_session_def)
  define unauth where "unauth \<longleftrightarrow> gs_code st = GrpcUnauthenticated \<and> \<not> retried \<and> registered c1"
  obtain again c2 where re: "(if unauth then try_reregister_session srv c1 else (False, c1)) = (again, c2)" by (metis prod.exhaust)
  have k2: "keeps_session (if unauth then 4000 else 0) (if unauth then 2 else 0) c1 c2"
    using re reregister_keeps[OF inv1, of srv again c2] keeps_refl[OF inv1, of 0] by (auto split: if_splits)
  then have inv2: "session_inv c2" by (simp add: keeps_session_def)
  have ih: "keeps_session (2000 * int k + (if retried \<or> unauth then 0 else 4000)) (k + (if retried \<or> unauth then 0 else 2)) c2
      (snd (read_loop srv path k (retried \<or> unauth) (st, res) c2))"
    by (rule Suc.IH[OF inv2])
  have eq: "read_loop srv path (Suc k) retried prev c =
     (if status_ok st then (Some (st, res), c1)
      else if again then read_loop srv path k (retried \<or> unauth) (st, res) c2
      else if \<not> is_retryable_status st \<or> k = 0 then (None, c2)
      else read_loop srv path k (retried \<or> unauth) (st, res) c2)"
    by (simp only: read_loop.simps call Let_def prod.case unauth_def[symmetric] re)
  have nr: "unauth \<Longrightarrow> \<not> retried" by (simp add: unauth_def)
  have all: "keeps_session (2000 + (if unauth then 4000 else 0) + (2000 * int k + (if retried \<or> unauth then 0 else 4000)))
      (1 + (if unauth then 2 else 0) + (k + (if retried \<or> unauth then 0 else 2))) c
      (snd (read_loop srv path k (retried \<or> unauth) (st, res) c2))"
    using keeps_trans[OF keeps_trans[OF k1 k2] ih] .
  have short: "keeps_session (2000 + (if unauth then 4000 else 0)) (1 + (if unauth then 2 else 0)) c c2" using keeps_trans[OF k1 k2] .
  show ?case
    unfolding eq using keeps_mono[OF k1] keeps_mono[OF short] keeps_mono[OF all] nr
    by (cases retried; cases unauth) simp_all
qed

lemma read_signal_keeps:
  assumes "session_inv c"
  shows "keeps_session 8000 4 c (snd (read_signal srv path c))"
proof (cases "m_find path (signal_info_cache c)")
  case (Some v)
  have "same_session c (snd (read_signal srv path c))"
    by (simp add: read_signal_def Some same_session_def case_prod_beta)
  then show ?thesis using keeps_mono[OF same_session_keeps[OF assms]] by simp
next
  case None
  let ?out = "read_loop srv path kMaxRpcAttempts False (\<lparr>gs_code = GrpcOk, gs_message = []\<rparr>, []) c"
  have "keeps_session 8000 4 c (snd ?out)"
    using read_loop_keeps[OF assms, of kMaxRpcAttempts False srv path] by (simp add: kMaxRpcAttempts_def)
  moreover have "same_session (snd ?out) (snd (read_signal srv path c))"
    unfolding read_signal_def None
    by (simp add: same_session_def case_prod_beta split: option.split list.split)
  ultimately show ?thesis by (rule keeps_then_same)
qed

lemma load_attempts:
  assumes "session_inv c" and "rpc_attempts k (stub_load_config srv req t) c = ((st, r), c')"
  shows "\<exists>s tr. c' = c\<lparr>fc_server := s, fc_trace := fc_trace c @ tr\<rparr> \<and> trace_time tr \<le> int k * rpc_deadline t \<and> length tr \<le> k \<and>
     (\<forall>g. updates_in_session g tr) \<and>
     (\<forall>g. foldl grant_step g tr = (case r of Some res \<Rightarrow> if cfs_success res \<and> cfs_config_changed res then None else g | None \<Rightarrow> g))"
proof -
  let ?ev = "load_event req (rpc_deadline t)"
  from load_call.attempts[of k srv req t c] obtain s rs where
    st: "c' = c\<lparr>fc_server := s, fc_trace := fc_trace c @ map ?ev rs\<rparr>" and len: "length rs \<le> k"
    and res: "case r of None \<Rightarrow> \<forall>r \<in> set rs. \<not> status_ok (fst r)
      | Some res \<Rightarrow> rs \<noteq> [] \<and> (\<forall>r \<in> set (butlast rs). \<not> status_ok (fst r)) \<and> last rs = (st, res) \<and> status_ok (fst (last rs))"
    unfolding assms(2) fst_conv snd_conv by blast
  have failed: "foldl grant_step g (map ?ev xs) = g" if "\<forall>r \<in> set xs. \<not> status_ok (fst r)" for g xs
    using that by (induction xs arbitrary: g) (simp_all add: event_defs)
  have upd: "updates_in_session g (map ?ev xs)" for g xs
    by (induction xs arbitrary: g) (simp_all add: event_defs)
  have pos: "0 \<le> rpc_deadline t" by (simp add: rpc_deadline_def kDefaultRpcTimeout_def)
  have grant: "foldl grant_step g (map ?ev rs) =
      (case r of Some res \<Rightarrow> if cfs_success res \<and> cfs_config_changed res then None else g | None \<Rightarrow> g)" for g
  proof (cases r)
    case None
    with res failed show ?thesis by simp
  next
    case (Some r')
    with res have ne: "rs \<noteq> []" and ok: "\<forall>r \<in> set (butlast rs). \<not> status_ok (fst r)"
      and last: "last rs = (st, r')" "status_ok st" by auto
    from ne have rs: "map ?ev rs = map ?ev (butlast rs) @ [?ev (last rs)]"
      by (metis append_butlast_last_id list.simps(8,9) map_append)
    show ?thesis unfolding rs foldl_append failed[OF ok] using last Some by (simp add: event_defs)
  qed
  have "trace_time (map ?ev rs) \<le> int k * rpc_deadline t"
    using time_bound[of "map ?ev rs" "rpc_deadline t" k] pos len by (auto simp: event_defs)
  moreover have "length (map ?ev rs) \<le> k" using len by simp
  ultimately show ?thesis using st upd grant by blast
qed

text \<open>The wait for the connection takes its two seconds and leaves the session alone.\<close>

lemma check_waits:
  "\<exists>s. snd (check_connection srv c) = c\<lparr>fc_server := s, fc_trace := fc_trace c @ [RpcWait 2000 (fst (fx_wait_connected srv 2000 (fc_server c)))]\<rparr>"
  by (auto simp: check_connection_def case_prod_beta)

lemma check_keeps:
  assumes "session_inv c" and "check_connection srv c = (x, c1)"
  shows "keeps_session 2000 1 c c1"
proof -
  from check_waits[of srv c] assms(2) obtain s up where c1: "c1 = c\<lparr>fc_server := s, fc_trace := fc_trace c @ [RpcWait 2000 up]\<rparr>"
    by auto
  with session_inv_neutral[OF assms(1), of "[RpcWait 2000 up]" c1] show ?thesis
    by (simp add: keeps_session_def neutral_def)
qed

lemma load_config_keeps:
  assumes "session_inv c"
  shows "keeps_session 12000 3 c (snd (load_config_content srv content c))"
proof -
  obtain x c1 where chk: "check_connection srv c = (x, c1)" by (metis prod.exhaust)
  have k1: "keeps_session 2000 1 c c1" by (rule check_keeps[OF assms chk])
  then have inv1: "session_inv c1" by (simp add: keeps_session_def)
  show ?thesis
  proof (cases x)
    case (Inl e)
    with chk keeps_mono[OF k1] show ?thesis by (simp add: load_config_content_def)
  next
    case (Inr u)
    let ?req = "\<lparr>cfr_config_content = content, cfr_format = ''yaml'',
      cfr_config_hash = to_hex_string (fnv1a_64 (''yaml'' @ [CHR 0x0A] @ content))\<rparr>"
    obtain st r c2 where out: "rpc_attempts kMaxRpcAttempts (stub_load_config srv ?req kConfigRpcTimeout) c1 = ((st, r), c2)"
      by (metis prod.exhaust)
    from load_attempts[OF inv1 out] obtain s tr where
      c2: "c2 = c1\<lparr>fc_server := s, fc_trace := fc_trace c1 @ tr\<rparr>" and t: "trace_time tr \<le> 10000" "length tr \<le> 2"
      and u: "\<forall>g. updates_in_session g tr"
      and g: "\<forall>g. foldl grant_step g tr = (case r of Some res \<Rightarrow> if cfs_success res \<and> cfs_config_changed res then None else g | None \<Rightarrow> g)"
      by (auto simp: kMaxRpcAttempts_def rpc_deadline_def kConfigRpcTimeout_def)
    have "snd (load_config_content srv content c) =
        (if \<exists>res. r = Some res \<and> cfs_success res \<and> cfs_config_changed res
         then invalidate_cache (c2\<lparr>registered := False, session_id := [], sim_time_sec := Fin 0,
                       last_tick_occurred := False, pending_commands := []\<rparr>) else c2)"
      unfolding load_config_content_def chk Inr Let_def using out by (simp split: option.split)
    moreover have "session_inv \<dots>"
      using inv1 u g
      by (auto simp: session_inv_def session_in_force_def c2 updates_in_session_append granted_append invalidate_cache_def
          split: option.splits simp flip: granted_def)
    ultimately have k2: "keeps_session 10000 2 c1 (snd (load_config_content srv content c))"
      using t unfolding keeps_session_def by (auto simp: c2 invalidate_cache_def)
    show ?thesis using keeps_trans[OF k1 k2] by (simp add: numeral_eq_Suc)
  qed
qed

lemma register_keeps:
  assumes "session_inv c"
  shows "keeps_session 6000 3 c (snd (register_provider srv provider ids c))"
proof -
  obtain x c1 where chk: "check_connection srv c = (x, c1)" by (metis prod.exhaust)
  have k1: "keeps_session 2000 1 c c1" by (rule check_keeps[OF assms chk])
  then have inv1: "session_inv c1" by (simp add: keeps_session_def)
  show ?thesis
  proof (cases x)
    case (Inl e)
    with chk keeps_mono[OF k1] show ?thesis by (simp add: register_provider_def)
  next
    case (Inr u)
    let ?req = "\<lparr>reg_provider_id = provider, reg_device_ids = ids\<rparr>"
    obtain st r c2 where out: "rpc_attempts kMaxRpcAttempts (stub_register srv ?req kDefaultRpcTimeout) c1 = ((st, r), c2)"
      by (metis prod.exhaust)
    have two: "kMaxRpcAttempts = 2" "rpc_deadline kDefaultRpcTimeout = 2000"
      by (simp_all add: kMaxRpcAttempts_def rpc_deadline_def kDefaultRpcTimeout_def)
    from register_attempts[of kMaxRpcAttempts srv ?req kDefaultRpcTimeout c1] obtain s tr where
      c2: "c2 = c1\<lparr>fc_server := s, fc_trace := fc_trace c1 @ tr\<rparr>" and tr: "length tr \<le> 2" "list_all (registers ?req 2000) tr"
      and g: "\<forall>g. foldl grant_step g tr = (case r of Some res \<Rightarrow> if rgs_success res then Some (?req, rgs_session_id res) else g | None \<Rightarrow> g)"
      unfolding out fst_conv snd_conv two(2) unfolding two(1) by blast
    have t: "trace_time tr \<le> 4000" using registers_time[OF tr(2,1)] by simp
    have "snd (register_provider srv provider ids c) =
        (case r of None \<Rightarrow> c2 | Some res \<Rightarrow> if \<not> rgs_success res then c2
          else c2\<lparr>provider_id := provider, registered_device_ids := ids, session_id := rgs_session_id res, registered := True\<rparr>)"
      unfolding register_provider_def chk Inr Let_def using out by (simp split: option.split)
    moreover have "session_inv \<dots>"
      using inv1 registers_in_session[OF tr(2)] g
      by (auto simp: session_inv_def session_in_force_def c2 updates_in_session_append granted_append
          split: option.splits simp flip: granted_def)
    ultimately have k2: "keeps_session 4000 2 c1 (snd (register_provider srv provider ids c))"
      using t tr(1) unfolding keeps_session_def by (auto simp: c2 split: option.splits)
    show ?thesis using keeps_trans[OF k1 k2] by (simp add: numeral_eq_Suc)
  qed
qed

lemma contract_time:
  assumes "list_all (\<lambda>e. is_update sigs t e \<or> registers req 2000 e) tr"
  shows "trace_time tr \<le> t * int (length (filter (is_update sigs t) tr)) + 2000 * int (length (filter (registers req 2000) tr))"
  using assms
proof (induction tr)
  case (Cons e tr)
  have "\<not> (is_update sigs t e \<and> registers req 2000 e)" by (cases e) (simp_all add: is_update_def registers_def)
  with Cons show ?case by (auto simp: event_time algebra_simps)
qed simp

lemma update_signals_contract:
  assumes "session_inv c" and "registered c" and "update_signals srv signals u timeout c = (r, c')"
  shows "update_contract (map (\<lambda>(path, v). \<lparr>su_path = path, su_value = v, su_unit = u\<rparr>) signals)
     (if 0 < timeout then timeout else 2000) 2 2 c r c'"
proof -
  have d: "rpc_deadline (if 0 < timeout then timeout else kDefaultRpcTimeout) = (if 0 < timeout then timeout else 2000)"
    by (simp add: rpc_deadline_def kDefaultRpcTimeout_def)
  show ?thesis
    using update_loop_contract[OF assms(1,2), where retried = False and k = kMaxRpcAttempts and
        t = "if 0 < timeout then timeout else kDefaultRpcTimeout" and srv = srv and
        sigs = "map (\<lambda>(path, v). \<lparr>su_path = path, su_value = v, su_unit = u\<rparr>) signals" and
        ?st0.0 = "\<lparr>gs_code = GrpcOk, gs_message = []\<rparr>"] assms(2,3)
    unfolding d by (auto simp: update_signals_def kMaxRpcAttempts_def Let_def split: prod.splits)
qed

lemma update_keeps:
  assumes "session_inv c"
  shows "keeps_session (2 * (if 0 < timeout then timeout else 2000) + 4000) 4 c (snd (update_signals srv signals u timeout c))"
proof (cases "registered c")
  case False
  with assms show ?thesis by (simp add: update_signals_def keeps_refl)
next
  case True
  obtain r c' where out: "update_signals srv signals u timeout c = (r, c')" by (metis prod.exhaust)
  let ?t = "if 0 < timeout then timeout else 2000"
  let ?s = "map (\<lambda>(path, v). \<lparr>su_path = path, su_value = v, su_unit = u\<rparr>) signals"
  from update_signals_contract[OF assms True out] obtain tr where "session_inv c'" and tr: "fc_trace c' = fc_trace c @ tr"
    "list_all (\<lambda>e. is_update ?s ?t e \<or> registers (own_registration c) 2000 e) tr"
    "length (filter (is_update ?s ?t) tr) \<le> 2" "length (filter (registers (own_registration c) 2000) tr) \<le> 2"
    unfolding update_contract_def by blast
  have "?t * int (length (filter (is_update ?s ?t) tr)) \<le> ?t * 2"
    using tr(3) by (intro mult_left_mono) auto
  with contract_time[OF tr(2)] tr(4) have "trace_time tr \<le> 2 * ?t + 4000" by linarith
  moreover have "length tr \<le> length (filter (is_update ?s ?t) tr) + length (filter (registers (own_registration c) 2000) tr)"
    using tr(2) by (induction tr) auto
  ultimately show ?thesis using out tr(1,3,4) \<open>session_inv c'\<close> by (auto simp: keeps_session_def)
qed

lemma reset_keeps:
  assumes "session_inv c"
  shows "keeps_session 4000 2 c (snd (client_reset srv c))"
proof -
  obtain st r c1 where out: "rpc_attempts kMaxRpcAttempts (stub_reset srv kDefaultRpcTimeout) c = ((st, r), c1)"
    by (metis prod.exhaust)
  have two: "kMaxRpcAttempts = 2" "rpc_deadline kDefaultRpcTimeout = 2000"
    by (simp_all add: kMaxRpcAttempts_def rpc_deadline_def kDefaultRpcTimeout_def)
  from reset_call.attempts[of kMaxRpcAttempts srv kDefaultRpcTimeout c] obtain s rs where
    c1: "c1 = c\<lparr>fc_server := s, fc_trace := fc_trace c @ map (reset_event 2000) rs\<rparr>" and len: "length rs \<le> 2"
    unfolding out fst_conv snd_conv two(2) unfolding two(1) by blast
  have "list_all neutral (map (reset_event 2000) rs)"
    by (simp add: list_all_iff neutral_def event_defs)
  then have "session_inv c1" by (rule session_inv_neutral[OF assms]) (simp_all add: c1)
  moreover have "trace_time (map (reset_event 2000) rs) \<le> 4000"
    using time_bound[of "map (reset_event 2000) rs" 2000 2] len by (auto simp: event_defs)
  ultimately have "keeps_session 4000 2 c c1" unfolding keeps_session_def using len by (auto simp: c1)
  moreover have "same_session c1 (snd (client_reset srv c))"
    unfolding client_reset_def out by (simp add: same_session_def invalidate_cache_def split: option.split)
  ultimately show ?thesis by (rule keeps_then_same)
qed

lemma unregister_keeps:
  assumes "session_inv c"
  shows "keeps_session 2000 1 c (unregister_provider_noexcept srv c)"
  using assms
  by (auto simp: unregister_provider_noexcept_def keeps_session_def session_inv_def session_in_force_def
      updates_in_session_append rpc_deadline_def kDefaultRpcTimeout_def)

section \<open>Runs of the client\<close>

datatype client_op =
    OpLoadConfig string
  | OpRegister string "string list"
  | OpUpdate "(string, double) smap" string int
  | OpRead string
  | OpDrain
  | OpReset
  | OpUnregister

primrec run_op :: "'s flux_server \<Rightarrow> client_op \<Rightarrow> 's flux_client \<Rightarrow> 's flux_client" where
  "run_op srv (OpLoadConfig content) c = snd (load_config_content srv content c)"
| "run_op srv (OpRegister provider ids) c = snd (register_provider srv provider ids c)"
| "run_op srv (OpUpdate signals u timeout) c = snd (update_signals srv signals u timeout c)"
| "run_op srv (OpRead path) c = snd (read_signal srv path c)"
| "run_op srv OpDrain c = snd (drain_commands c)"
| "run_op srv OpReset c = snd (client_reset srv c)"
| "run_op srv OpUnregister c = unregister_provider_noexcept srv c"

primrec op_time :: "client_op \<Rightarrow> int" where
  "op_time (OpLoadConfig content) = 12000"
| "op_time (OpRegister provider ids) = 6000"
| "op_time (OpUpdate signals u timeout) = 2 * (if 0 < timeout then timeout else 2000) + 4000"
| "op_time (OpRead path) = 8000"
| "op_time OpDrain = 0"
| "op_time OpReset = 4000"
| "op_time OpUnregister = 2000"

text \<open>How many calls and waits an operation makes at most.\<close>

primrec op_calls :: "client_op \<Rightarrow> nat" where
  "op_calls (OpLoadConfig content) = 3"
| "op_calls (OpRegister provider ids) = 3"
| "op_calls (OpUpdate signals u timeout) = 4"
| "op_calls (OpRead path) = 4"
| "op_calls OpDrain = 0"
| "op_calls OpReset = 2"
| "op_calls OpUnregister = 1"

lemma run_op_keeps:
  assumes "session_inv c"
  shows "keeps_session (op_time x) (op_calls x) c (run_op srv x c)"
proof (cases x)
  case OpDrain
  then show ?thesis using same_session_keeps[OF assms, of "snd (drain_commands c)"]
    by (simp add: drain_commands_def same_session_def)
next
  case (OpUpdate signals u timeout)
  with update_keeps[OF assms, of timeout srv signals u] show ?thesis by simp
qed (use assms load_config_keeps register_keeps read_signal_keeps reset_keeps unregister_keeps in simp_all)

definition run_ops :: "'s flux_server \<Rightarrow> client_op list \<Rightarrow> 's flux_client \<Rightarrow> 's flux_client" where
  "run_ops srv ops c = foldl (\<lambda>c x. run_op srv x c) c ops"

lemma run_ops_simps [simp]: "run_ops srv [] c = c" "run_ops srv (x # ops) c = run_ops srv ops (run_op srv x c)"
  by (simp_all add: run_ops_def)

lemma run_ops_inv: "session_inv c \<Longrightarrow> session_inv (run_ops srv ops c)"
proof (induction ops arbitrary: c)
  case (Cons x ops)
  from run_op_keeps[OF Cons.prems, of x srv] have "session_inv (run_op srv x c)" by (simp add: keeps_session_def)
  with Cons.IH show ?case by simp
qed simp

lemma new_client_inv: "new_flux_client srv addr s = Inr c \<Longrightarrow> session_inv c"
  by (auto simp: new_flux_client_def Let_def session_inv_def session_in_force_def split: prod.splits if_splits)

end
