(* ===== verification/Flux_Properties.thy ===== *)
theory Flux_Properties
  imports Flux_Session
begin

text \<open>
  The properties of the FluxGraph client: its session, the time it may take, what an update leaves
  behind, the signal cache and the configuration hash.
\<close>

section \<open>A concrete server\<close>

text \<open>
  The state counts the updates. The first is answered with a tick and a command, later ones with
  \<open>UNAUTHENTICATED\<close>; registration is granted until the first update.
\<close>

definition good :: grpc_status where
  "good = \<lparr>gs_code = GrpcOk, gs_message = []\<rparr>"

definition example_server :: "nat flux_server" where
  "example_server = \<lparr>fx_wait_connected = (\<lambda>t n. (True, n)),
     fx_load_config = (\<lambda>req t n. ((good, \<lparr>cfs_success = True, cfs_error_message = [], cfs_config_changed = True\<rparr>), n)),
     fx_register = (\<lambda>req t n. ((good, \<lparr>rgs_success = (n = 0), rgs_error_message = ''late'', rgs_session_id = ''s1''\<rparr>), n)),
     fx_update = (\<lambda>u t n. ((if n = 0 then good else \<lparr>gs_code = GrpcUnauthenticated, gs_message = []\<rparr>,
        \<lparr>tkr_tick_occurred = True, tkr_sim_time_sec = Fin 1,
          tkr_commands = [\<lparr>pbc_device = ''t0'', pbc_function = ''set_mode'', pbc_args = []\<rparr>]\<rparr>), Suc n)),
     fx_read = (\<lambda>paths t n. ((good, [\<lparr>si_value = Fin 20, si_unit = ''degC'', si_physics_driven = True\<rparr>]), n)),
     fx_reset = (\<lambda>t n. ((good, \<lparr>rss_success = True, rss_error_message = []\<rparr>), n)),
     fx_unregister = (\<lambda>sid t n. n)\<rparr>"

definition example_client :: "nat flux_client" where
  "example_client = \<lparr>session_id = [], registered = False, provider_id = [], registered_device_ids = [], sim_time_sec = Fin 0,
     last_tick_occurred = False, pending_commands = [], signal_info_cache = m_empty, unit_cache = m_empty,
     physics_driven_cache = m_empty, fc_server = 0, fc_trace = [RpcWait 5000 True]\<rparr>"

lemma example_client_new: "new_flux_client example_server ''host'' 0 = Inr example_client"
  by (simp add: new_flux_client_def example_server_def example_client_def)

definition registered_client :: "nat flux_client" where
  "registered_client = run_op example_server (OpRegister ''p'' [''t0'']) example_client"

lemmas example_defs = registered_client_def example_client_def example_server_def good_def register_provider_def
  check_connection_def kMaxRpcAttempts_def rpc_deadline_def kDefaultRpcTimeout_def stub_register_def status_ok_def
  is_retryable_status_def eval_nat_numeral

lemma registered_client_eq:
  "registered_client = example_client\<lparr>session_id := ''s1'', registered := True, provider_id := ''p'',
     registered_device_ids := [''t0''],
     fc_trace := [RpcWait 5000 True, RpcWait 2000 True, RpcRegister \<lparr>reg_provider_id = ''p'', reg_device_ids = [''t0'']\<rparr> 2000 good
       \<lparr>rgs_success = True, rgs_error_message = ''late'', rgs_session_id = ''s1''\<rparr>]\<rparr>"
  by (simp add: example_defs)

lemma registered_client_run: "registered_client = run_ops example_server [OpRegister ''p'' [''t0'']] example_client"
  by (simp add: registered_client_def)

section \<open>The session\<close>

text \<open>C9. In every run of the client from its construction, whatever the server answers: a client that
  holds itself registered holds the session the server granted last, for the provider and devices it
  remembers, and no change of configuration and no unregistration came after; and every \<open>UpdateSignals\<close> it ever sent
  carried the session in force when it was sent, retries included.\<close>

theorem flux_session_in_force:
  assumes "new_flux_client srv addr s = Inr c0"
  shows "(registered (run_ops srv ops c0) \<longrightarrow>
      granted (fc_trace (run_ops srv ops c0)) =
        Some (\<lparr>reg_provider_id = provider_id (run_ops srv ops c0), reg_device_ids = registered_device_ids (run_ops srv ops c0)\<rparr>,
              session_id (run_ops srv ops c0))) \<and>
    (\<forall>pre u t st res post. fc_trace (run_ops srv ops c0) = pre @ RpcUpdate u t st res # post \<longrightarrow>
      (\<exists>req. granted pre = Some (req, sus_session_id u)))"
proof -
  have inv: "session_inv (run_ops srv ops c0)" by (rule run_ops_inv[OF new_client_inv[OF assms]])
  have "\<exists>req. granted pre = Some (req, sus_session_id u)"
    if "fc_trace (run_ops srv ops c0) = pre @ RpcUpdate u t st res # post" for pre u t st res post
    using inv that
    by (auto simp: session_inv_def updates_in_session_append simp flip: granted_def split: option.splits)
  with inv show ?thesis by (auto simp: session_inv_def session_in_force_def)
qed

theorem flux_session_in_force_witness:
  "granted (fc_trace registered_client) = Some (\<lparr>reg_provider_id = ''p'', reg_device_ids = [''t0'']\<rparr>, ''s1'')"
  using flux_session_in_force[OF example_client_new, where ops = "[OpRegister ''p'' [''t0'']]"]
  unfolding registered_client_run[symmetric] by (simp add: registered_client_eq)

lemma update_or_register:
  assumes "list_all (\<lambda>e. is_update sigs t e \<or> registers req t' e) tr"
  shows "filter (\<lambda>e. case e of RpcUpdate v t st res \<Rightarrow> True | _ \<Rightarrow> False) tr = filter (is_update sigs t) tr"
    and "filter (\<lambda>e. case e of RpcUpdate v t st res \<Rightarrow> False | _ \<Rightarrow> True) tr = filter (registers req t') tr"
proof -
  have "(case e of RpcUpdate v t st res \<Rightarrow> True | _ \<Rightarrow> False) = is_update sigs t e"
    "(case e of RpcUpdate v t st res \<Rightarrow> False | _ \<Rightarrow> True) = registers req t' e" if "e \<in> set tr" for e
    using assms that by (cases e; force simp: list_all_iff is_update_def registers_def)+
  then show "filter (\<lambda>e. case e of RpcUpdate v t st res \<Rightarrow> True | _ \<Rightarrow> False) tr = filter (is_update sigs t) tr"
    and "filter (\<lambda>e. case e of RpcUpdate v t st res \<Rightarrow> False | _ \<Rightarrow> True) tr = filter (registers req t') tr"
    by (simp_all cong: filter_cong)
qed

text \<open>C28. No operation of the client keeps its thread for longer than a fixed time, whatever the server does:
  the deadlines of the procedures it calls and of its waits for the connection add up to at most
  five seconds for the construction, twelve for a configuration, six for a registration, four for a
  reset, eight for a read, two for an unregistration, and twice its timeout and four seconds for an
  update. Every operation makes a fixed number of calls at most: a wait and two calls for a
  configuration or a registration, two for a reset, one for an unregistration, none for a drain, four
  for a read or an update; an update is sent at most twice, and registers again at most twice.\<close>

theorem flux_calls_bounded:
  assumes "new_flux_client srv addr s = Inr c0" and "c = run_ops srv ops c0"
  shows "trace_time (fc_trace c0) \<le> 5000 \<and>
    (\<exists>tr. fc_trace (run_op srv x c) = fc_trace c @ tr \<and>
       trace_time tr \<le> (case x of OpLoadConfig content \<Rightarrow> 12000 | OpRegister provider ids \<Rightarrow> 6000
         | OpUpdate signals u timeout \<Rightarrow> 2 * (if 0 < timeout then timeout else 2000) + 4000
         | OpRead path \<Rightarrow> 8000 | OpDrain \<Rightarrow> 0 | OpReset \<Rightarrow> 4000 | OpUnregister \<Rightarrow> 2000) \<and>
       length tr \<le> (case x of OpLoadConfig content \<Rightarrow> 3 | OpRegister provider ids \<Rightarrow> 3 | OpUpdate signals u timeout \<Rightarrow> 4
         | OpRead path \<Rightarrow> 4 | OpDrain \<Rightarrow> 0 | OpReset \<Rightarrow> 2 | OpUnregister \<Rightarrow> 1)) \<and>
    (registered c \<longrightarrow>
      (\<exists>tr. fc_trace (snd (update_signals srv signals u timeout c)) = fc_trace c @ tr \<and>
        length (filter (\<lambda>e. case e of RpcUpdate v t st res \<Rightarrow> True | _ \<Rightarrow> False) tr) \<le> 2 \<and>
        length (filter (\<lambda>e. case e of RpcUpdate v t st res \<Rightarrow> False | _ \<Rightarrow> True) tr) \<le> 2))"
proof -
  have inv: "session_inv c" unfolding assms(2) by (rule run_ops_inv[OF new_client_inv[OF assms(1)]])
  have new: "trace_time (fc_trace c0) \<le> 5000"
    using assms(1) by (auto simp: new_flux_client_def split: prod.splits if_splits)
  have bounds: "op_time x = (case x of OpLoadConfig content \<Rightarrow> 12000 | OpRegister provider ids \<Rightarrow> 6000
         | OpUpdate signals u timeout \<Rightarrow> 2 * (if 0 < timeout then timeout else 2000) + 4000
         | OpRead path \<Rightarrow> 8000 | OpDrain \<Rightarrow> 0 | OpReset \<Rightarrow> 4000 | OpUnregister \<Rightarrow> 2000)"
    "op_calls x = (case x of OpLoadConfig content \<Rightarrow> 3 | OpRegister provider ids \<Rightarrow> 3 | OpUpdate signals u timeout \<Rightarrow> 4
         | OpRead path \<Rightarrow> 4 | OpDrain \<Rightarrow> 0 | OpReset \<Rightarrow> 2 | OpUnregister \<Rightarrow> 1)"
    by (cases x; simp)+
  have one: "\<exists>tr. fc_trace (run_op srv x c) = fc_trace c @ tr \<and> trace_time tr \<le> op_time x \<and> length tr \<le> op_calls x"
    using run_op_keeps[OF inv] by (simp add: keeps_session_def)
  have two: "\<exists>tr. fc_trace (snd (update_signals srv signals u timeout c)) = fc_trace c @ tr \<and>
        length (filter (\<lambda>e. case e of RpcUpdate v t st res \<Rightarrow> True | _ \<Rightarrow> False) tr) \<le> 2 \<and>
        length (filter (\<lambda>e. case e of RpcUpdate v t st res \<Rightarrow> False | _ \<Rightarrow> True) tr) \<le> 2"
    if reg: "registered c"
  proof -
    let ?t = "if 0 < timeout then timeout else 2000"
    let ?s = "map (\<lambda>(path, v). \<lparr>su_path = path, su_value = v, su_unit = u\<rparr>) signals"
    obtain r c' where out: "update_signals srv signals u timeout c = (r, c')" by (metis prod.exhaust)
    from update_signals_contract[OF inv reg out] obtain tr where tr: "fc_trace c' = fc_trace c @ tr"
      "list_all (\<lambda>e. is_update ?s ?t e \<or> registers (own_registration c) 2000 e) tr"
      "length (filter (is_update ?s ?t) tr) \<le> 2" "length (filter (registers (own_registration c) 2000) tr) \<le> 2"
      unfolding update_contract_def by blast
    with update_or_register[OF tr(2)] out show ?thesis by (intro exI[of _ tr]) simp
  qed
  from new one[unfolded bounds] two show ?thesis by (intro conjI impI)
qed

theorem flux_calls_bounded_witness:
  "\<exists>tr. fc_trace (run_op example_server (OpUpdate [] ''u'' 500) registered_client) = fc_trace registered_client @ tr \<and>
     trace_time tr \<le> 5000 \<and> length tr \<le> 4"
  using flux_calls_bounded[OF example_client_new registered_client_run, where x = "OpUpdate [] ''u'' 500"] by simp

section \<open>What an update leaves behind\<close>

lemma update_unregistered:
  "\<not> registered c \<Longrightarrow> update_signals srv signals u timeout c = (Inl ''FluxGraph provider session not registered'', c)"
  by (simp add: update_signals_def)

lemma update_outcome:
  assumes "new_flux_client srv addr s = Inr c0" and "c = run_ops srv ops c0"
    and "update_signals srv signals u timeout c = (r, c')"
  shows "(case r of
      Inl e \<Rightarrow> tick_view c' = tick_view c
    | Inr ticked \<Rightarrow>
        (\<exists>v t st res. last (fc_trace c') = RpcUpdate v t st res \<and> status_ok st \<and> ticked = tkr_tick_occurred res \<and>
           sim_time_sec c' = tkr_sim_time_sec res \<and> last_tick_occurred c' = ticked \<and>
           drain_commands c' = (map convert_command (tkr_commands res), c'\<lparr>pending_commands := []\<rparr>) \<and>
           signal_info_cache c' = (if ticked then m_empty else signal_info_cache c)))"
proof (cases "registered c")
  case False
  from assms(3) update_unregistered[OF False] have "r = Inl ''FluxGraph provider session not registered''" "c' = c" by simp_all
  then show ?thesis by simp
next
  case True
  have inv: "session_inv c" unfolding assms(2) by (rule run_ops_inv[OF new_client_inv[OF assms(1)]])
  from update_signals_contract[OF inv True assms(3)] obtain tr where tr: "fc_trace c' = fc_trace c @ tr"
    and r: "case r of Inl e \<Rightarrow> tick_view c' = tick_view c
         | Inr b \<Rightarrow> registered c' \<and> tr \<noteq> [] \<and>
             (\<exists>u st res. last tr = RpcUpdate u (if 0 < timeout then timeout else 2000) st res \<and> status_ok st \<and>
                b = tkr_tick_occurred res \<and> tick_view c' = tick_view (snd (accept_tick res c)))"
    unfolding update_contract_def by blast
  show ?thesis
  proof (cases r)
    case (Inl e)
    with r show ?thesis by simp
  next
    case (Inr b)
    with r obtain v st res where v: "last tr = RpcUpdate v (if 0 < timeout then timeout else 2000) st res" "status_ok st"
      "b = tkr_tick_occurred res" "tick_view c' = tick_view (snd (accept_tick res c))" and "tr \<noteq> []" by auto
    then have "last (fc_trace c') = RpcUpdate v (if 0 < timeout then timeout else 2000) st res" by (simp add: tr)
    moreover have "sim_time_sec c' = tkr_sim_time_sec res \<and> last_tick_occurred c' = b \<and>
        pending_commands c' = map convert_command (tkr_commands res) \<and>
        signal_info_cache c' = (if b then m_empty else signal_info_cache c)"
      using v(3,4) by (simp add: tick_view_def accept_tick_def invalidate_cache_def Let_def split: if_splits)
    ultimately show ?thesis using v(2,3) Inr by (simp add: drain_commands_def)
  qed
qed

text \<open>C26. An update that returns reports the last answer of the server and nothing else: its tick flag is
  the result, its time and its commands, converted in their order, are what the client now
  holds, commands of a response without a tick included; the signal cache is emptied exactly on a tick. The commands
  are delivered once: draining gives them and leaves none. An update that throws
  leaves time, commands and cache as they were.\<close>

theorem flux_update_outcome:
  assumes "new_flux_client srv addr s = Inr c0" and "c = run_ops srv ops c0"
    and "update_signals srv signals u timeout c = (r, c')"
  shows "(case r of
      Inl e \<Rightarrow> tick_view c' = tick_view c
    | Inr ticked \<Rightarrow>
        (\<exists>v t st res. last (fc_trace c') = RpcUpdate v t st res \<and> status_ok st \<and> ticked = tkr_tick_occurred res \<and>
           sim_time_sec c' = tkr_sim_time_sec res \<and> last_tick_occurred c' = ticked \<and>
           drain_commands c' = (map convert_command (tkr_commands res), c'\<lparr>pending_commands := []\<rparr>) \<and>
           signal_info_cache c' = (if ticked then m_empty else signal_info_cache c)))"
  by (rule update_outcome[OF assms])

lemma example_update:
  "\<exists>c1 v t. update_signals example_server signals un timeout registered_client = (Inr True, c1) \<and>
     last (fc_trace c1) = RpcUpdate v t good \<lparr>tkr_tick_occurred = True, tkr_sim_time_sec = Fin 1,
          tkr_commands = [\<lparr>pbc_device = ''t0'', pbc_function = ''set_mode'', pbc_args = []\<rparr>]\<rparr>"
  by (auto simp: registered_client_eq update_signals_def example_defs stub_update_def accept_tick_def invalidate_cache_def Let_def)

theorem flux_update_outcome_witness:
  "map fc_function_name (fst (drain_commands (snd (update_signals example_server [] ''u'' 500 registered_client)))) = [''set_mode'']"
proof -
  obtain c1 v t where out: "update_signals example_server [] ''u'' 500 registered_client = (Inr True, c1)"
    "last (fc_trace c1) = RpcUpdate v t good \<lparr>tkr_tick_occurred = True, tkr_sim_time_sec = Fin 1,
          tkr_commands = [\<lparr>pbc_device = ''t0'', pbc_function = ''set_mode'', pbc_args = []\<rparr>]\<rparr>"
    using example_update by blast
  from flux_update_outcome[OF example_client_new registered_client_run out(1)] show ?thesis
    by (auto simp: out convert_command_def)
qed

section \<open>Losing the session\<close>

definition is_update_rpc :: "rpc \<Rightarrow> bool" where
  "is_update_rpc e \<longleftrightarrow> (case e of RpcUpdate u t st res \<Rightarrow> True | _ \<Rightarrow> False)"

definition silent :: "'s flux_client \<Rightarrow> 's flux_client \<Rightarrow> bool" where
  "silent c c' \<longleftrightarrow> \<not> registered c' \<and> (\<exists>tr. fc_trace c' = fc_trace c @ tr \<and> list_all (\<lambda>e. \<not> is_update_rpc e) tr)"

lemma silent_refl: "\<not> registered c \<Longrightarrow> silent c c"
  by (simp add: silent_def)

lemma silent_step: "silent c c1 \<Longrightarrow> silent c1 c' \<Longrightarrow> silent c c'"
  by (auto simp: silent_def)

lemma silent_attempts:
  assumes "\<exists>s rs. c' = c\<lparr>fc_server := s, fc_trace := fc_trace c @ map ev rs\<rparr> \<and> P s rs" and "\<not> registered c"
    and "\<And>r. \<not> is_update_rpc (ev r)"
  shows "silent c c'"
  using assms by (auto simp: silent_def list_all_iff)

lemma silent_same: "\<not> registered c' \<Longrightarrow> fc_trace c' = fc_trace c \<Longrightarrow> silent c c'"
  by (simp add: silent_def)

lemma silent_read_loop:
  "\<not> registered c \<Longrightarrow> silent c (snd (read_loop srv path k retried prev c))"
proof (induction k arbitrary: retried prev c)
  case (Suc k)
  obtain st res c1 where call: "stub_read srv [path] kDefaultRpcTimeout c = ((st, res), c1)" by (metis prod.exhaust)
  then have c1: "silent c c1" using Suc.prems
    by (auto simp: stub_read_def silent_def is_update_rpc_def split: prod.splits)
  then have nr: "\<not> registered c1" by (simp add: silent_def)
  have "read_loop srv path (Suc k) retried prev c =
     (if status_ok st then (Some (st, res), c1)
      else if \<not> is_retryable_status st \<or> k = 0 then (None, c1)
      else read_loop srv path k retried (st, res) c1)"
    using nr by (simp add: call)
  with c1 silent_step[OF c1 Suc.IH[OF nr]] show ?case by simp
qed (simp add: silent_refl)

lemma silent_op:
  assumes "\<not> registered c" and "\<And>provider ids. x \<noteq> OpRegister provider ids"
  shows "silent c (run_op srv x c)"
proof (cases x)
  case (OpLoadConfig content)
  obtain y c1 where chk: "check_connection srv c = (y, c1)" by (metis prod.exhaust)
  then have c1: "silent c c1"
    using check_waits[of srv c] assms(1) by (auto simp: silent_def is_update_rpc_def)
  then have nr: "\<not> registered c1" by (simp add: silent_def)
  let ?req = "\<lparr>cfr_config_content = content, cfr_format = ''yaml'',
      cfr_config_hash = to_hex_string (fnv1a_64 (''yaml'' @ [CHR 0x0A] @ content))\<rparr>"
  obtain st r c2 where out: "rpc_attempts kMaxRpcAttempts (stub_load_config srv ?req kConfigRpcTimeout) c1 = ((st, r), c2)"
    by (metis prod.exhaust)
  have "silent c1 c2"
    using silent_attempts[OF load_call.attempts[of kMaxRpcAttempts srv ?req kConfigRpcTimeout c1, unfolded out snd_conv]] nr
    by (simp add: is_update_rpc_def load_event_def)
  then have c2: "silent c c2" using silent_step[OF c1] by simp
  have "snd (load_config_content srv content c) = c1 \<or> snd (load_config_content srv content c) = c2 \<or>
      (registered (snd (load_config_content srv content c)) = False \<and> fc_trace (snd (load_config_content srv content c)) = fc_trace c2)"
    unfolding load_config_content_def chk Let_def using out
    by (auto simp: invalidate_cache_def split: sum.split option.split)
  then show ?thesis using c1 c2 OpLoadConfig by (auto simp: silent_def)
next
  case (OpRead path)
  let ?out = "read_loop srv path kMaxRpcAttempts False (\<lparr>gs_code = GrpcOk, gs_message = []\<rparr>, []) c"
  have "silent c (snd ?out)" by (rule silent_read_loop[OF assms(1)])
  moreover have "same_session (snd ?out) (snd (read_signal srv path c)) \<or> same_session c (snd (read_signal srv path c))"
    unfolding read_signal_def
    by (simp add: same_session_def case_prod_beta split: option.split list.split)
  ultimately show ?thesis using OpRead assms(1) by (auto simp: silent_def same_session_def)
next
  case OpReset
  obtain st r c2 where out: "rpc_attempts kMaxRpcAttempts (stub_reset srv kDefaultRpcTimeout) c = ((st, r), c2)"
    by (metis prod.exhaust)
  have c2: "silent c c2"
    using silent_attempts[OF reset_call.attempts[of kMaxRpcAttempts srv kDefaultRpcTimeout c, unfolded out snd_conv]] assms(1)
    by (simp add: is_update_rpc_def reset_event_def)
  have "same_session c2 (snd (client_reset srv c))"
    unfolding client_reset_def out by (simp add: same_session_def invalidate_cache_def split: option.split)
  with c2 show ?thesis using OpReset by (simp add: silent_def same_session_def)
qed (use assms in \<open>auto simp: silent_refl update_unregistered drain_commands_def unregister_provider_noexcept_def intro: silent_same\<close>)

lemma silent_run:
  "\<not> registered c \<Longrightarrow> (\<And>provider ids. OpRegister provider ids \<notin> set ops) \<Longrightarrow> silent c (run_ops srv ops c)"
proof (induction ops arbitrary: c)
  case (Cons x ops)
  from Cons.prems have "silent c (run_op srv x c)" by (intro silent_op) auto
  moreover from this Cons have "silent (run_op srv x c) (run_ops srv ops (run_op srv x c))"
    by (intro Cons.IH) (auto simp: silent_def)
  ultimately show ?case by (simp add: silent_step)
qed (simp add: silent_refl)

text \<open>
  When an update loses the session, read off its calls alone: its first answer \<open>UNAUTHENTICATED\<close> is
  followed by refused or failed registrations and nothing else.
\<close>

definition refused :: "rpc \<Rightarrow> bool" where
  "refused e \<longleftrightarrow> (case e of RpcRegister req t st res \<Rightarrow> \<not> (status_ok st \<and> rgs_success res) | _ \<Rightarrow> False)"

definition unauthenticated :: "rpc \<Rightarrow> bool" where
  "unauthenticated e \<longleftrightarrow> (case e of RpcUpdate u t st res \<Rightarrow> gs_code st = GrpcUnauthenticated | _ \<Rightarrow> False)"

fun loses_session :: "rpc list \<Rightarrow> bool" where
  "loses_session [] = False"
| "loses_session (e # tr) = (if unauthenticated e then list_all refused tr else loses_session tr)"

lemma registers_granted:
  "list_all (registers req t) tr \<Longrightarrow> foldl grant_step g tr = None \<longleftrightarrow> g = None \<and> list_all refused tr"
proof (induction tr arbitrary: g)
  case (Cons e tr)
  then show ?case by (cases e) (auto simp: registers_def refused_def)
qed simp

lemma reregister_outcome:
  assumes "try_reregister_session srv c = (b, c')" and "\<not> registered c"
  shows "\<exists>tr. fc_trace c' = fc_trace c @ tr \<and> (registered c' \<longleftrightarrow> b) \<and> (b \<longleftrightarrow> \<not> list_all refused tr) \<and>
    (provider_id c \<noteq> [] \<longrightarrow> tr \<noteq> [])"
proof -
  from reregister[OF assms(1)] obtain s tr sid where
    c': "c' = (if b then c\<lparr>fc_server := s, fc_trace := fc_trace c @ tr, session_id := sid, registered := True\<rparr>
      else c\<lparr>fc_server := s, fc_trace := fc_trace c @ tr\<rparr>)"
    and tr: "provider_id c \<noteq> [] \<longrightarrow> tr \<noteq> []" "list_all (registers (own_registration c) 2000) tr"
    and g: "\<forall>g. foldl grant_step g tr = (if b then Some (own_registration c, sid) else g)" by blast
  have "b \<longleftrightarrow> foldl grant_step None tr \<noteq> None" using g by simp
  then have "b \<longleftrightarrow> \<not> list_all refused tr" using registers_granted[OF tr(2), of None] by simp
  with tr(1) c' assms(2) show ?thesis by (intro exI[of _ tr]) auto
qed

lemma update_loop_loses:
  assumes "registered c"
  shows "case update_loop srv sigs t k retried st0 c of (r, c') \<Rightarrow>
    \<exists>tr. fc_trace c' = fc_trace c @ tr \<and> (registered c' \<longleftrightarrow> retried \<or> \<not> loses_session tr) \<and>
      (\<not> registered c' \<longrightarrow> (\<exists>e. r = Inl e) \<and> (provider_id c \<noteq> [] \<longrightarrow> refused (last tr)))"
  using assms
proof (induction k arbitrary: retried st0 c)
  case (Suc k)
  let ?u = "\<lparr>sus_session_id = session_id c, sus_signals = sigs\<rparr>"
  obtain st res c1 where call: "stub_update srv ?u t c = ((st, res), c1)" by (metis prod.exhaust)
  define e where "e = RpcUpdate ?u (rpc_deadline t) st res"
  from call obtain s where c1: "c1 = c\<lparr>fc_server := s, fc_trace := fc_trace c @ [e]\<rparr>"
    by (auto simp: stub_update_def e_def split: prod.splits)
  have un: "unauthenticated e \<longleftrightarrow> gs_code st = GrpcUnauthenticated" by (simp add: e_def unauthenticated_def)
  consider "status_ok st" | "\<not> status_ok st" "gs_code st = GrpcUnauthenticated \<and> \<not> retried"
    | "\<not> status_ok st" "\<not> (gs_code st = GrpcUnauthenticated \<and> \<not> retried)" by blast
  then show ?case
  proof cases
    case 1
    then have "\<not> unauthenticated e" by (simp add: un status_ok_def)
    with 1 Suc.prems show ?thesis
      by (auto simp: call c1 accept_tick_def invalidate_cache_def Let_def intro!: exI[of _ "[e]"])
  next
    case 2
    obtain b c3 where re: "try_reregister_session srv (c1\<lparr>registered := False, session_id := []\<rparr>) = (b, c3)" by (metis prod.exhaust)
    from reregister_outcome[OF re] obtain tr where tr: "fc_trace c3 = fc_trace c @ e # tr" "registered c3 \<longleftrightarrow> b"
      "b \<longleftrightarrow> \<not> list_all refused tr" "provider_id c \<noteq> [] \<longrightarrow> tr \<noteq> []"
      by (auto simp: c1)
    show ?thesis
    proof (cases b)
      case True
      have eq: "update_loop srv sigs t (Suc k) retried st0 c = update_loop srv sigs t k True st c3"
        using 2 re True by (simp add: call)
      obtain r c' where out: "update_loop srv sigs t k True st c3 = (r, c')" by (metis prod.exhaust)
      with Suc.IH[of c3 True st] tr(2) True obtain tr1 where "fc_trace c' = fc_trace c3 @ tr1" "registered c'" by auto
      with tr True 2 un show ?thesis unfolding eq out by (auto intro!: exI[of _ "e # tr @ tr1"])
    next
      case False
      then have "update_loop srv sigs t (Suc k) retried st0 c = (Inl (rpc_failed ''UpdateSignals'' st), c3)"
        using 2 re by (simp add: call)
      moreover have "provider_id c \<noteq> [] \<longrightarrow> refused (last (e # tr))"
        using tr(3,4) False by (auto simp: list_all_iff)
      ultimately show ?thesis using tr False 2 un by (auto intro!: exI[of _ "e # tr"])
    qed
  next
    case 3
    show ?thesis
    proof (cases "is_retryable_status st \<and> k \<noteq> 0")
      case True
      have eq: "update_loop srv sigs t (Suc k) retried st0 c = update_loop srv sigs t k retried st c1"
        by (simp only: update_loop.simps call Let_def prod.case 3 True if_False if_True simp_thms)
      obtain r c' where out: "update_loop srv sigs t k retried st c1 = (r, c')" by (metis prod.exhaust)
      with Suc.IH[of c1 retried st] Suc.prems obtain tr where "fc_trace c' = fc_trace c1 @ tr"
        "registered c' \<longleftrightarrow> retried \<or> \<not> loses_session tr" "\<not> registered c' \<longrightarrow> (\<exists>e. r = Inl e) \<and> (provider_id c \<noteq> [] \<longrightarrow> refused (last tr))"
        by (auto simp: c1)
      moreover have "loses_session tr \<Longrightarrow> tr \<noteq> []" by auto
      ultimately show ?thesis unfolding eq out using 3 un by (auto simp: c1 intro!: exI[of _ "e # tr"])
    next
      case False
      have "update_loop srv sigs t (Suc k) retried st0 c = (Inl (rpc_failed ''UpdateSignals'' st), c1)"
        by (simp only: update_loop.simps call Let_def prod.case 3 False if_False if_True simp_thms)
      with 3 un Suc.prems show ?thesis by (auto simp: c1 intro!: exI[of _ "[e]"])
    qed
  qed
qed simp

text \<open>C27. A session the server has dropped is lost for good when it is not granted again at once. An update
  loses the session exactly when its first answer \<open>UNAUTHENTICATED\<close>, on whichever attempt it comes, is
  followed by registrations none of which is granted, and one is tried whenever the client has a
  provider id; such an update throws. From then on every update throws
  without calling the server, through any number of updates, reads, drains, resets, unregistrations and reloads, until
  \<open>register_provider\<close> is called again; the ticker never calls it.\<close>

theorem flux_lost_session:
  assumes "registered c" and "update_signals srv signals unit_name timeout c = (r, c')"
  shows "\<exists>tr. fc_trace c' = fc_trace c @ tr \<and> (\<not> registered c' \<longleftrightarrow> loses_session tr) \<and>
    (loses_session tr \<longrightarrow>
       (\<exists>e. r = Inl e) \<and> (provider_id c \<noteq> [] \<longrightarrow> refused (last tr)) \<and>
       (\<forall>ops signals u t. (\<forall>provider ids. OpRegister provider ids \<notin> set ops) \<longrightarrow>
          \<not> registered (run_ops srv ops c') \<and>
          (\<exists>tr'. fc_trace (run_ops srv ops c') = fc_trace c' @ tr' \<and> list_all (\<lambda>e. \<not> is_update_rpc e) tr') \<and>
          update_signals srv signals u t (run_ops srv ops c') =
            (Inl ''FluxGraph provider session not registered'', run_ops srv ops c')))"
proof -
  obtain sigs t st0 where "update_signals srv signals unit_name timeout c = update_loop srv sigs t kMaxRpcAttempts False st0 c"
    using assms(1) by (auto simp: update_signals_def Let_def)
  with update_loop_loses[OF assms(1), where srv = srv and sigs = sigs and t = t and k = kMaxRpcAttempts and
      retried = False and ?st0.0 = st0] assms(2)
  obtain tr where tr: "fc_trace c' = fc_trace c @ tr" "\<not> registered c' \<longleftrightarrow> loses_session tr"
    "\<not> registered c' \<longrightarrow> (\<exists>e. r = Inl e) \<and> (provider_id c \<noteq> [] \<longrightarrow> refused (last tr))" by auto
  have later: "\<not> registered (run_ops srv ops c') \<and>
      (\<exists>tr'. fc_trace (run_ops srv ops c') = fc_trace c' @ tr' \<and> list_all (\<lambda>e. \<not> is_update_rpc e) tr') \<and>
      update_signals srv signals u t (run_ops srv ops c') =
        (Inl ''FluxGraph provider session not registered'', run_ops srv ops c')"
    if "loses_session tr" "\<forall>provider ids. OpRegister provider ids \<notin> set ops" for ops signals u t
    using silent_run[of c' ops srv] that tr(2) update_unregistered[of "run_ops srv ops c'"] by (simp add: silent_def)
  show ?thesis using tr later by (intro exI[of _ tr]) blast
qed

theorem flux_lost_session_witness:
  "\<not> registered (run_ops example_server [OpReset, OpUpdate [] ''u'' 500]
      (snd (update_signals example_server [(''t0/heat'', Fin 1)] ''u'' 500 (snd (update_signals example_server [] ''u'' 500 registered_client)))))"
proof -
  define c where "c = snd (update_signals example_server [] ''u'' 500 registered_client)"
  have c: "registered c" "session_id c = ''s1''" "provider_id c = ''p''" "registered_device_ids c = [''t0'']" "fc_server c = 1"
    by (simp_all add: c_def registered_client_eq update_signals_def example_defs stub_update_def accept_tick_def invalidate_cache_def)
  obtain r c' where out: "update_signals example_server [(''t0/heat'', Fin 1)] ''u'' 500 c = (r, c')" by (metis prod.exhaust)
  then have "\<not> registered c'"
    using c by (auto simp: update_signals_def stub_update_def example_defs try_reregister_session_def)
  moreover from flux_lost_session[OF c(1) out] obtain tr where "\<not> registered c' \<longleftrightarrow> loses_session tr"
    and "loses_session tr \<longrightarrow> (\<forall>ops. (\<forall>provider ids. OpRegister provider ids \<notin> set ops) \<longrightarrow>
      \<not> registered (run_ops example_server ops c'))" by blast
  moreover have "\<forall>provider ids. OpRegister provider ids \<notin> set [OpReset, OpUpdate [] ''u'' 500]" by simp
  ultimately have "\<not> registered (run_ops example_server [OpReset, OpUpdate [] ''u'' 500] c')" by blast
  then show ?thesis using out by (simp add: c_def)
qed

section \<open>The signal cache\<close>

text \<open>A signal in all three caches.\<close>

definition cached :: "string \<Rightarrow> signal_info \<Rightarrow> 's flux_client \<Rightarrow> bool" where
  "cached path i c \<longleftrightarrow> m_find path (signal_info_cache c) = Some (si_value i) \<and> m_find path (unit_cache c) = Some (si_unit i) \<and>
     m_find path (physics_driven_cache c) = Some (si_physics_driven i)"

lemma cached_read: "cached path i c \<Longrightarrow> read_signal srv path c = (Some i, c)"
  by (simp add: cached_def read_signal_def m_get_or_insert_def)

lemma read_loop_view: "tick_view (snd (read_loop srv path k retried prev c)) = tick_view c"
proof (induction k arbitrary: retried prev c)
  case (Suc k)
  obtain st res c1 where call: "stub_read srv [path] kDefaultRpcTimeout c = ((st, res), c1)" by (metis prod.exhaust)
  then have c1: "tick_view c1 = tick_view c" by (auto simp: stub_read_def tick_view_def split: prod.splits)
  obtain again c2 where re: "(if gs_code st = GrpcUnauthenticated \<and> \<not> retried \<and> registered c1
      then try_reregister_session srv c1 else (False, c1)) = (again, c2)" by (metis prod.exhaust)
  have "tick_view c2 = tick_view c1"
    using re reregister[of srv c1 again c2] by (auto simp: tick_view_def split: if_splits)
  with c1 Suc.IH[of _ _ c2] show ?case by (simp add: call re Let_def)
qed simp

lemmas read_loop_caches = read_loop_view[unfolded tick_view_def prod.inject]

lemma read_signal_pending: "pending_commands (snd (read_signal srv path c)) = pending_commands c"
  using read_loop_caches[of srv path kMaxRpcAttempts False "(\<lparr>gs_code = GrpcOk, gs_message = []\<rparr>, [])" c]
  unfolding read_signal_def
  by (simp add: case_prod_beta split: option.split list.split)

lemma read_caches_result: "read_signal srv path c = (Some i, c') \<Longrightarrow> cached path i c'"
  unfolding read_signal_def
  by (auto simp: cached_def m_get_or_insert_def split: option.splits prod.splits list.splits if_splits)

lemma read_keeps_cached:
  assumes "cached path i c"
  shows "cached path i (snd (read_signal srv path' c))"
proof (cases "path' = path")
  case True
  with cached_read[OF assms, of srv] assms show ?thesis by simp
next
  case False
  then show ?thesis
    using assms read_loop_caches[of srv path' kMaxRpcAttempts False "(\<lparr>gs_code = GrpcOk, gs_message = []\<rparr>, [])" c]
    unfolding read_signal_def cached_def
    by (simp add: case_prod_beta smap_laws split: option.split list.split)
qed

lemma reads_keep_cached: "cached path i c \<Longrightarrow> cached path i (run_ops srv (map OpRead paths) c)"
  by (induction paths arbitrary: c) (simp_all add: read_keeps_cached)

text \<open>
  The value the server gives for a signal, read off the calls: the first good answer to a read of
  that signal alone that holds one signal.
\<close>

fun good_value :: "string \<Rightarrow> rpc \<Rightarrow> double option" where
  "good_value path (RpcRead paths t st [sig]) = (if paths = [path] \<and> status_ok st then Some (si_value sig) else None)"
| "good_value path e = None"

primrec answered :: "string \<Rightarrow> rpc list \<Rightarrow> double option" where
  "answered path [] = None"
| "answered path (e # tr) = (case good_value path e of None \<Rightarrow> answered path tr | Some v \<Rightarrow> Some v)"

lemma answered_append:
  "answered path (tr @ tr') = (case answered path tr of None \<Rightarrow> answered path tr' | Some v \<Rightarrow> Some v)"
  by (induction tr) (auto split: option.split)

lemma good_value_read:
  "good_value p (RpcRead [path] t st res) =
     (if p = path \<and> status_ok st then case res of [sig] \<Rightarrow> Some (si_value sig) | _ \<Rightarrow> None else None)"
  by (cases res rule: remdups_adj.cases) auto

text \<open>The calls of a trace that read signals.\<close>

definition reads :: "rpc list \<Rightarrow> string list set" where
  "reads tr = {paths. \<exists>t st res. RpcRead paths t st res \<in> set tr}"

lemma reads_simps [simp]:
  "reads [] = {}" "reads (tr @ tr') = reads tr \<union> reads tr'"
  "reads (RpcRead paths t st res # tr) = insert paths (reads tr)"
  by (auto simp: reads_def)

lemma registers_answer:
  assumes "list_all (registers req t) tr"
  shows "answered path tr = None" and "reads tr = {}"
proof -
  have reg: "\<exists>st res. e = RpcRegister req t st res" if "e \<in> set tr" for e
    using assms that by (cases e) (auto simp: list_all_iff registers_def)
  then have "good_value path e = None" if "e \<in> set tr" for e using that by force
  then show "answered path tr = None" by (induction tr) auto
  show "reads tr = {}" using reg by (force simp: reads_def)
qed

lemma read_loop_answer:
  assumes "k \<noteq> 0 \<or> \<not> status_ok (fst prev)"
  shows "case read_loop srv path k retried prev c of (out, c') \<Rightarrow>
    \<exists>tr. fc_trace c' = fc_trace c @ tr \<and> reads tr = (if k = 0 then {} else {[path]}) \<and>
      (\<forall>p. answered p tr = (if p = path then case out of
          Some (st, res) \<Rightarrow> if status_ok st then case res of [sig] \<Rightarrow> Some (si_value sig) | _ \<Rightarrow> None else None
        | None \<Rightarrow> None else None))"
  using assms
proof (induction k arbitrary: retried prev c)
  case 0
  then show ?case by (cases prev) auto
next
  case (Suc k)
  obtain st res c1 where call: "stub_read srv [path] kDefaultRpcTimeout c = ((st, res), c1)" by (metis prod.exhaust)
  then obtain t where c1: "fc_trace c1 = fc_trace c @ [RpcRead [path] t st res]"
    by (auto simp: stub_read_def split: prod.splits)
  define unauth where "unauth \<longleftrightarrow> gs_code st = GrpcUnauthenticated \<and> \<not> retried \<and> registered c1"
  obtain again c2 where re: "(if unauth then try_reregister_session srv c1 else (False, c1)) = (again, c2)" by (metis prod.exhaust)
  have "\<exists>tr. fc_trace c2 = fc_trace c1 @ tr \<and> reads tr = {} \<and> (\<forall>p. answered p tr = None)"
  proof (cases unauth)
    case True
    with re have "try_reregister_session srv c1 = (again, c2)" by simp
    from reregister[OF this] obtain s tr sid where
      "c2 = (if again then c1\<lparr>fc_server := s, fc_trace := fc_trace c1 @ tr, session_id := sid, registered := True\<rparr>
        else c1\<lparr>fc_server := s, fc_trace := fc_trace c1 @ tr\<rparr>)"
      and "list_all (registers (own_registration c1) 2000) tr" by blast
    then show ?thesis using registers_answer by (intro exI[of _ tr]) auto
  qed (use re in \<open>auto intro: exI[of _ "[]"]\<close>)
  then obtain tr where tr: "fc_trace c2 = fc_trace c1 @ tr" "reads tr = {}" "\<And>p. answered p tr = None" by blast
  have eq: "read_loop srv path (Suc k) retried prev c =
     (if status_ok st then (Some (st, res), c1)
      else if again then read_loop srv path k (retried \<or> unauth) (st, res) c2
      else if \<not> is_retryable_status st \<or> k = 0 then (None, c2)
      else read_loop srv path k (retried \<or> unauth) (st, res) c2)"
    by (simp only: read_loop.simps call Let_def prod.case unauth_def[symmetric] re)
  show ?case
  proof (cases "status_ok st")
    case True
    then show ?thesis unfolding eq
      by (auto simp: c1 good_value_read split: option.split intro!: exI[of _ "[RpcRead [path] t st res]"])
  next
    case False
    then have bad: "good_value p (RpcRead [path] t st res) = None" for p by (simp add: good_value_read)
    let ?first = "RpcRead [path] t st res # tr"
    show ?thesis
    proof (cases "\<not> again \<and> (\<not> is_retryable_status st \<or> k = 0)")
      case True
      with False show ?thesis unfolding eq by (auto simp: tr c1 bad intro!: exI[of _ ?first])
    next
      case more: False
      obtain out c' where out: "read_loop srv path k (retried \<or> unauth) (st, res) c2 = (out, c')" by (metis prod.exhaust)
      from Suc.IH[of "(st, res)" c2 "retried \<or> unauth"] False out obtain tr1 where
        tr1: "fc_trace c' = fc_trace c2 @ tr1" "reads tr1 = (if k = 0 then {} else {[path]})"
        "\<forall>p. answered p tr1 = (if p = path then case out of
          Some (st, res) \<Rightarrow> if status_ok st then case res of [sig] \<Rightarrow> Some (si_value sig) | _ \<Rightarrow> None else None
        | None \<Rightarrow> None else None)" by auto
      have "read_loop srv path (Suc k) retried prev c = (out, c')" unfolding eq using False more out by auto
      then show ?thesis using tr tr1 by (auto simp: c1 bad answered_append intro!: exI[of _ "?first @ tr1"])
    qed
  qed
qed

text \<open>A read of a signal that is not cached asks the server, and caches what it answers.\<close>

lemma read_signal_answer:
  assumes "read_signal srv path c = (info, c')"
  shows "\<exists>tr. fc_trace c' = fc_trace c @ tr \<and>
    reads tr = (if m_find path (signal_info_cache c) = None then {[path]} else {}) \<and>
    (\<forall>p. answered p tr = (if p = path \<and> m_find path (signal_info_cache c) = None then map_option si_value info else None)) \<and>
    (\<forall>p. m_find p (signal_info_cache c') =
       (case m_find p (signal_info_cache c) of None \<Rightarrow> answered p tr | Some v \<Rightarrow> Some v)) \<and>
    map_option si_value info = m_find path (signal_info_cache c')"
proof (cases "m_find path (signal_info_cache c)")
  case (Some v)
  then show ?thesis using assms
    by (auto simp: read_signal_def split: prod.splits option.split intro!: exI[of _ "[]"])
next
  case None
  obtain out c1 where out: "read_loop srv path kMaxRpcAttempts False (\<lparr>gs_code = GrpcOk, gs_message = []\<rparr>, []) c = (out, c1)"
    by (metis prod.exhaust)
  have cache: "signal_info_cache c1 = signal_info_cache c"
    using read_loop_caches[of srv path kMaxRpcAttempts False "(\<lparr>gs_code = GrpcOk, gs_message = []\<rparr>, [])" c] by (simp add: out)
  have "kMaxRpcAttempts \<noteq> 0" by (simp add: kMaxRpcAttempts_def)
  then obtain tr where tr: "fc_trace c1 = fc_trace c @ tr" "reads tr = {[path]}"
    "\<forall>p. answered p tr = (if p = path then case out of
        Some (st, res) \<Rightarrow> if status_ok st then case res of [sig] \<Rightarrow> Some (si_value sig) | _ \<Rightarrow> None else None
      | None \<Rightarrow> None else None)"
    using read_loop_answer[where k = kMaxRpcAttempts and prev = "(\<lparr>gs_code = GrpcOk, gs_message = []\<rparr>, [])" and
        srv = srv and path = path and retried = False and c = c] by (auto simp: out)
  show ?thesis
  proof (cases "\<exists>st sig. out = Some (st, [sig]) \<and> status_ok st")
    case True
    with assms None out tr cache show ?thesis
      by (auto simp: read_signal_def split: option.split intro!: exI[of _ tr])
  next
    case False
    with assms None out have "info = None" "c' = c1"
      by (auto simp: read_signal_def split: option.splits prod.splits list.splits if_splits)
    moreover have "\<forall>p. answered p tr = None" using tr(3) False by (auto split: option.split list.split)
    ultimately show ?thesis using tr cache None by (auto split: option.split intro!: exI[of _ tr])
  qed
qed

text \<open>Between two ticks a signal has one value: once read, it is given again by every later read, whatever other signals
  were read in between and whatever the server would now answer, without calling the server.\<close>

lemma flux_reads_repeat:
  assumes "read_signal srv path c = (Some i, c')"
  shows "read_signal srv path (run_ops srv (map OpRead paths) c') = (Some i, run_ops srv (map OpRead paths) c')"
  by (rule cached_read[OF reads_keep_cached[OF read_caches_result[OF assms]]])

lemma flux_reads_repeat_example:
  "fst (read_signal example_server ''t0/temp'' (snd (read_signal example_server ''t0/temp'' example_client))) =
     Some \<lparr>si_value = Fin 20, si_unit = ''degC'', si_physics_driven = True\<rparr>"
proof -
  have "fst (read_signal example_server ''t0/temp'' example_client) =
      Some \<lparr>si_value = Fin 20, si_unit = ''degC'', si_physics_driven = True\<rparr>"
    by (simp add: read_signal_def example_defs stub_read_def)
  then have "read_signal example_server ''t0/temp'' example_client =
      (Some \<lparr>si_value = Fin 20, si_unit = ''degC'', si_physics_driven = True\<rparr>, snd (read_signal example_server ''t0/temp'' example_client))"
    by (simp add: prod_eq_iff)
  from flux_reads_repeat[OF this, where paths = "[]"] show ?thesis by simp
qed

section \<open>The hash\<close>

definition hex_value :: "char \<Rightarrow> nat" where
  "hex_value ch = (let n = of_char ch :: nat in if n < 58 then n - 48 else n - 87)"

definition from_hex :: "string \<Rightarrow> nat" where
  "from_hex s = foldl (\<lambda>acc ch. 16 * acc + hex_value ch) 0 s"

lemma hex_value_digit: "d < 16 \<Longrightarrow> hex_value (hex_digit d) = d"
  by (simp add: hex_value_def hex_digit_def of_char_of take_bit_eq_mod)

lemma from_hex_digits: "from_hex (hex_digits k n) = n mod 16 ^ k"
proof (induction k arbitrary: n)
  case (Suc k)
  have "from_hex (hex_digits (Suc k) n) = 16 * from_hex (hex_digits k (n div 16)) + n mod 16"
    by (simp add: from_hex_def hex_value_digit)
  also have "\<dots> = n mod 16 ^ Suc k" by (simp add: Suc.IH mod_mult2_eq)
  finally show ?case .
qed (simp add: from_hex_def)

lemma length_hex_digits: "length (hex_digits k n) = k"
  by (induction k arbitrary: n) simp_all

lemma set_hex_digits: "set (hex_digits k n) \<subseteq> hex_digit ` {..< 16}"
  by (induction k arbitrary: n) auto

text \<open>FNV-1a as it is published, on natural numbers: the wrap-around is a remainder.\<close>

lemma fnv_step: "unat (fnv1a_64 (s @ [c])) = (unat (fnv1a_64 s) XOR of_char c) * 1099511628211 mod 2 ^ 64"
proof -
  have "of_char c < (2 ^ 64 :: nat)" by (rule less_trans[OF of_char_less]) simp
  then have "unat (of_nat (of_char c) :: 64 word) = of_char c" by (simp add: unsigned_of_nat take_bit_eq_mod)
  then show ?thesis by (simp add: fnv1a_64_def unat_word_ariths unsigned_xor_eq)
qed

lemma fnv_vectors:
  "fnv1a_64 [] = 0xcbf29ce484222325 \<and> fnv1a_64 ''a'' = 0xaf63dc4c8601ec8c \<and> fnv1a_64 ''foobar'' = 0x85944171f73967e8"
  by code_simp

text \<open>C37. The printed hash of a configuration is sixteen lower-case hexadecimal digits and determines the
  hash: reading it back gives the number, so that the server sees equal hashes for two configurations exactly when
  their FNV-1a hashes agree. The hash is FNV-1a: it gives the published values on the test vectors, and a
  further character is mixed in before the product, which is taken modulo \<open>2 ^ 64\<close>.\<close>

theorem flux_hash_roundtrip:
  "length (to_hex_string v) = 16 \<and> set (to_hex_string v) \<subseteq> set ''0123456789abcdef'' \<and>
   from_hex (to_hex_string v) = unat v \<and>
   (to_hex_string (fnv1a_64 a) = to_hex_string (fnv1a_64 b) \<longleftrightarrow> fnv1a_64 a = fnv1a_64 b) \<and>
   unat (fnv1a_64 (a @ [ch])) = (unat (fnv1a_64 a) XOR of_char ch) * 1099511628211 mod 2 ^ 64 \<and>
   fnv1a_64 [] = 0xcbf29ce484222325 \<and> fnv1a_64 ''a'' = 0xaf63dc4c8601ec8c \<and> fnv1a_64 ''foobar'' = 0x85944171f73967e8"
proof -
  have reading: "from_hex (to_hex_string w) = unat w" for w
    using unsigned_less[of w, where ?'a = nat] by (simp add: to_hex_string_def from_hex_digits)
  have "hex_digit ` {..< 16} \<subseteq> set ''0123456789abcdef''"
  proof
    fix ch assume "ch \<in> hex_digit ` {..< 16}"
    then obtain d where "d < 16" "ch = hex_digit d" by auto
    moreover have "list_all (\<lambda>d. hex_digit d \<in> set ''0123456789abcdef'') [0..<16]" by code_simp
    ultimately show "ch \<in> set ''0123456789abcdef''" by (auto simp: list_all_iff)
  qed
  then have "set (to_hex_string v) \<subseteq> set ''0123456789abcdef''"
    using set_hex_digits[of 16 "unat v"] unfolding to_hex_string_def by (rule subset_trans[rotated])
  moreover have "to_hex_string (fnv1a_64 a) = to_hex_string (fnv1a_64 b) \<longleftrightarrow> fnv1a_64 a = fnv1a_64 b"
    using reading by (metis unsigned_word_eqI)
  moreover have "length (to_hex_string v) = 16" by (simp add: to_hex_string_def length_hex_digits)
  ultimately show ?thesis using fnv_step fnv_vectors by (simp only: reading simp_thms)
qed

end
