(* ===== verification/Engines.thy ===== *)
theory Engines
  imports Device_Manager Flux_Properties
begin

text \<open>
  \<open>src/simulation\<close>: the FluxGraph adapter (\<open>adapters/fluxgraph/fluxgraph_adapter.cpp\<close>) and the three
  engines behind the interface \<open>SimulationEngine\<close> (\<open>engines\<close>). A virtual call is a case
  over the datatype \<open>engine\<close>. A tick of the local engine works on the devices, so it takes and returns the
  process.
\<close>

section \<open>The FluxGraph adapter\<close>

record 's flux_adapter =
  fa_client :: "'s flux_client"
  fa_output_paths :: "string list"
  fa_registered_ids :: "string set"

definition new_flux_adapter :: "'s flux_server \<Rightarrow> string \<Rightarrow> 's \<Rightarrow> string + 's flux_adapter" where
  "new_flux_adapter srv server_address s =
     bindE (new_flux_client srv server_address s) (\<lambda>c.
       Inr \<lparr>fa_client = c, fa_output_paths = [], fa_registered_ids = {}\<rparr>)"

text \<open>The loop over \<open>edges\<close>: the targets found so far, with the exception that ended it, if any.\<close>

primrec collect_targets :: "'v sdk \<Rightarrow> yaml list \<Rightarrow> string set \<Rightarrow> string list \<Rightarrow> string option \<times> string list" where
  "collect_targets sdk [] dedup out = (None, out)"
| "collect_targets sdk (edge # edges) dedup out =
    (case y_sub sdk (Some edge) ''target'' of
       Inl e \<Rightarrow> (Some e, out)
     | Inr None \<Rightarrow> collect_targets sdk edges dedup out
     | Inr (Some node) \<Rightarrow>
         (case sdk_node_string sdk node of
            Inl e \<Rightarrow> (Some e, out)
          | Inr target \<Rightarrow>
              if target \<in> dedup then collect_targets sdk edges dedup out
              else collect_targets sdk edges (insert target dedup) (out @ [target])))"

definition adapter_load_config ::
  "'v sdk \<Rightarrow> 's flux_server \<Rightarrow> string \<Rightarrow> 's flux_adapter \<Rightarrow> (string + unit) \<times> 's flux_adapter" where
  "adapter_load_config sdk srv config_path a =
    (case sdk_read_file sdk config_path of
       None \<Rightarrow> (Inl (''Failed to open physics config: '' @ config_path), a)
     | Some fluxgraph_yaml \<Rightarrow>
         (case load_config_content srv fluxgraph_yaml (fa_client a) of
            (Inl e, c) \<Rightarrow> (Inl e, a\<lparr>fa_client := c\<rparr>)
          | (Inr _, c) \<Rightarrow>
              let a = a\<lparr>fa_client := c, fa_output_paths := []\<rparr> in
              (case bindE (sdk_load_file sdk config_path) (\<lambda>root. y_sub sdk (Some root) ''edges'') of
                 Inl e \<Rightarrow> (Inl e, a)
               | Inr (Some (YSequence edges)) \<Rightarrow>
                   (case collect_targets sdk edges {} [] of
                      (Some e, out) \<Rightarrow> (Inl e, a\<lparr>fa_output_paths := out\<rparr>)
                    | (None, out) \<Rightarrow> (Inr (), a\<lparr>fa_output_paths := out\<rparr>))
               | Inr _ \<Rightarrow> (Inr (), a))))"

definition adapter_register_provider ::
  "'s flux_server \<Rightarrow> string \<Rightarrow> string list \<Rightarrow> 's flux_adapter \<Rightarrow> (string + unit) \<times> 's flux_adapter" where
  "adapter_register_provider srv provider device_ids a =
    (let a = a\<lparr>fa_registered_ids := foldl (\<lambda>s i. insert i s) {} device_ids\<rparr>;
         (r, c) = register_provider srv provider device_ids (fa_client a)
     in (r, a\<lparr>fa_client := c\<rparr>))"

definition adapter_update_signals ::
  "'s flux_server \<Rightarrow> (string, double) smap \<Rightarrow> string \<Rightarrow> int \<Rightarrow> 's flux_adapter \<Rightarrow> (string + bool) \<times> 's flux_adapter" where
  "adapter_update_signals srv actuators u timeout a =
    (let (r, c) = update_signals srv actuators u timeout (fa_client a) in (r, a\<lparr>fa_client := c\<rparr>))"

definition paths_of_interest :: "'s flux_adapter \<Rightarrow> string list" where
  "paths_of_interest a =
     filter (\<lambda>path. case split_path path of None \<Rightarrow> False | Some (device_id, _) \<Rightarrow> device_id \<in> fa_registered_ids a)
       (fa_output_paths a)"

primrec read_paths ::
  "'s flux_server \<Rightarrow> string list \<Rightarrow> (string, double) smap \<Rightarrow> 's flux_client \<Rightarrow> (string, double) smap \<times> 's flux_client" where
  "read_paths srv [] sensors c = (sensors, c)"
| "read_paths srv (path # paths) sensors c =
    (let (v, c) = read_signal_value srv path c
     in read_paths srv paths (case v of Some x \<Rightarrow> m_put path x sensors | None \<Rightarrow> sensors) c)"

definition adapter_read_signals ::
  "'s flux_server \<Rightarrow> string list \<Rightarrow> 's flux_adapter \<Rightarrow> (string, double) smap \<times> 's flux_adapter" where
  "adapter_read_signals srv signal_paths a =
    (let paths_to_read = (if signal_paths = [] then paths_of_interest a else signal_paths);
         (sensors, c) = read_paths srv paths_to_read m_empty (fa_client a)
     in (sensors, a\<lparr>fa_client := c\<rparr>))"

definition engine_command :: "flux_command \<Rightarrow> command" where
  "engine_command cmd = \<lparr>cmd_device_id = fc_device_name cmd, cmd_function_name = fc_function_name cmd, cmd_args = fc_args cmd\<rparr>"

definition adapter_drain_commands :: "'s flux_adapter \<Rightarrow> command list \<times> 's flux_adapter" where
  "adapter_drain_commands a =
    (let (cmds, c) = drain_commands (fa_client a) in (map engine_command cmds, a\<lparr>fa_client := c\<rparr>))"

definition adapter_list_signals :: "'s flux_adapter \<Rightarrow> string list" where
  "adapter_list_signals a = fa_output_paths a"

section \<open>The remote engine\<close>

record 's remote_engine =
  rm_adapter :: "'s flux_adapter"
  rm_device_ids :: "string list"
  rm_tick_rate_hz :: double
  rm_provider_id :: string

definition new_remote_engine :: "'s flux_adapter \<Rightarrow> double \<Rightarrow> 's remote_engine" where
  "new_remote_engine a rate = \<lparr>rm_adapter = a, rm_device_ids = [], rm_tick_rate_hz = rate, rm_provider_id = ''provider-sim''\<rparr>"

definition failed_tick :: tick_result where
  "failed_tick = \<lparr>tr_success = False, tr_sensors = m_empty, tr_commands = []\<rparr>"

text \<open>
  The conversion of a double to a 64-bit integer: toward zero, and the smallest integer for
  a value that does not fit, as x86-64 does it.
\<close>

definition double_to_int64 :: "double \<Rightarrow> int" where
  "double_to_int64 d = (case d of
      Fin q \<Rightarrow> (let n = (if q < 0 then - \<lfloor>- q\<rfloor> else \<lfloor>q\<rfloor>) in if in_int64 n then n else - (2 ^ 63))
    | _ \<Rightarrow> - (2 ^ 63))"

definition tick_timeout :: "double \<Rightarrow> int" where
  "tick_timeout rate =
    (if dless (Fin 0) rate
     then let timeout_ms = double_to_int64 (dmul (ddiv (Fin 20) rate) (Fin 1000)) in if 0 < timeout_ms then timeout_ms else 1
     else 2000)"

definition remote_tick ::
  "'s flux_server \<Rightarrow> (string, double) smap \<Rightarrow> 's remote_engine \<Rightarrow> tick_result \<times> 's remote_engine" where
  "remote_tick srv actuators e =
    (let timeout = tick_timeout (rm_tick_rate_hz e) in
     case adapter_update_signals srv actuators ''dimensionless'' timeout (rm_adapter e) of
       (Inl exn, a) \<Rightarrow> (failed_tick, e\<lparr>rm_adapter := a\<rparr>)
     | (Inr success, a) \<Rightarrow>
         if \<not> success then (failed_tick, e\<lparr>rm_adapter := a\<rparr>)
         else
           let (sensors, a) = adapter_read_signals srv [] a;
               (commands, a) = adapter_drain_commands a
           in (\<lparr>tr_success = True, tr_sensors = sensors, tr_commands = commands\<rparr>, e\<lparr>rm_adapter := a\<rparr>))"

section \<open>The local engine\<close>

definition tempctl_kDeviceId :: string where "tempctl_kDeviceId = ''tempctl0''"

definition motorctl_kDeviceId :: string where "motorctl_kDeviceId = ''motorctl0''"

definition relayio_kDeviceId :: string where "relayio_kDeviceId = ''relayio0''"

definition analogsensor_kDeviceId :: string where "analogsensor_kDeviceId = ''analogsensor0''"

text \<open>\<open>duration<double>\<close> of a number of nanoseconds.\<close>

definition seconds_of_ns :: "int \<Rightarrow> double" where
  "seconds_of_ns ns = ddiv (fl (of_int ns)) (Fin 1000000000)"

definition update_device :: "'g lib \<Rightarrow> double \<Rightarrow> device_registry_entry \<Rightarrow> ('g, 'e) world \<Rightarrow> ('g, 'e) world" where
  "update_device lib dt dev w =
    (case sim_device_type_from_string (re_type dev) of
       None \<Rightarrow> w
     | Some t \<Rightarrow> da_update_physics (adapter_for lib t) (re_id dev) dt w)"

definition update_devices :: "'g lib \<Rightarrow> double \<Rightarrow> device_registry_entry list \<Rightarrow> ('g, 'e) world \<Rightarrow> ('g, 'e) world" where
  "update_devices lib dt devs w = foldl (\<lambda>w dev. update_device lib dt dev w) w devs"

definition successful_tick :: tick_result where
  "successful_tick = \<lparr>tr_success = True, tr_sensors = m_empty, tr_commands = []\<rparr>"

definition local_tick :: "'g lib \<Rightarrow> int \<Rightarrow> ('g, 'e) world \<Rightarrow> tick_result \<times> int \<times> ('g, 'e) world" where
  "local_tick lib last_update w =
    (let now = w_now w;
         dt = seconds_of_ns (now - last_update)
     in if dleq dt (Fin 0) then (failed_tick, last_update, w)
        else
          let dt = (if dless (Fin (1 / 4)) dt then Fin (1 / 4) else dt) in
          if w_config_loaded w
          then (successful_tick, now, update_devices lib dt (get_registered_devices w) w)
          else
            let w = w\<lparr>w_tempctl := tempctl_update_physics lib tempctl_kDeviceId dt (w_tempctl w)\<rparr>;
                w = w\<lparr>w_motorctl := motorctl_update_physics lib motorctl_kDeviceId dt (w_motorctl w)\<rparr>;
                w = w\<lparr>w_relayio := relayio_update_physics relayio_kDeviceId dt (w_relayio w)\<rparr>;
                w = w\<lparr>w_analog := analogsensor_update_physics lib analogsensor_kDeviceId dt (w_analog w)\<rparr>
            in (successful_tick, now, w))"

section \<open>The engine interface\<close>

datatype 's engine = NullEngine | LocalEngine int | RemoteEngine "'s remote_engine"

text \<open>\<open>initialize\<close>, \<open>set_provider_id\<close>, \<open>register_devices\<close>; \<open>now\<close> is the steady clock.\<close>

definition engine_initialize ::
  "'v sdk \<Rightarrow> 's flux_server \<Rightarrow> int \<Rightarrow> string \<Rightarrow> 's engine \<Rightarrow> (string + unit) \<times> 's engine" where
  "engine_initialize sdk srv now config_path e = (case e of
      NullEngine \<Rightarrow> (Inr (), NullEngine)
    | LocalEngine last_update \<Rightarrow> (Inr (), LocalEngine now)
    | RemoteEngine m \<Rightarrow>
        let (r, a) = adapter_load_config sdk srv config_path (rm_adapter m) in (r, RemoteEngine (m\<lparr>rm_adapter := a\<rparr>)))"

definition engine_set_provider_id :: "string \<Rightarrow> 's engine \<Rightarrow> 's engine" where
  "engine_set_provider_id provider e = (case e of
      RemoteEngine m \<Rightarrow> RemoteEngine (m\<lparr>rm_provider_id := (if provider = [] then ''provider-sim'' else provider)\<rparr>)
    | _ \<Rightarrow> e)"

definition engine_register_devices ::
  "'s flux_server \<Rightarrow> string list \<Rightarrow> 's engine \<Rightarrow> (string + unit) \<times> 's engine" where
  "engine_register_devices srv device_ids e = (case e of
      RemoteEngine m \<Rightarrow>
        let m = m\<lparr>rm_device_ids := device_ids\<rparr>;
            (r, a) = adapter_register_provider srv (rm_provider_id m) device_ids (rm_adapter m)
        in (r, RemoteEngine (m\<lparr>rm_adapter := a\<rparr>))
    | _ \<Rightarrow> (Inr (), e))"

definition engine_tick ::
  "'g lib \<Rightarrow> 's flux_server \<Rightarrow> (string, double) smap \<Rightarrow> 's engine \<Rightarrow> ('g, 'e) world \<Rightarrow>
   tick_result \<times> 's engine \<times> ('g, 'e) world" where
  "engine_tick lib srv actuators e w = (case e of
      NullEngine \<Rightarrow> (failed_tick, NullEngine, w)
    | LocalEngine last_update \<Rightarrow> let (r, now, w) = local_tick lib last_update w in (r, LocalEngine now, w)
    | RemoteEngine m \<Rightarrow> let (r, m) = remote_tick srv actuators m in (r, RemoteEngine m, w))"

definition engine_list_signals :: "'s engine \<Rightarrow> string list" where
  "engine_list_signals e = (case e of RemoteEngine m \<Rightarrow> adapter_list_signals (rm_adapter m) | _ \<Rightarrow> [])"

section \<open>The clock of the local engine\<close>

text \<open>A positive number of nanoseconds is a positive number of seconds, however it is rounded.\<close>

lemma seconds_pos:
  assumes "0 < n" and "in_int64 n"
  shows "\<exists>q. seconds_of_ns n = Fin q \<and> 0 < q"
proof -
  have "(of_int 1 :: rat) \<le> of_int n" and "(of_int n :: rat) \<le> of_int (2 ^ 63)"
    using assms by (subst of_int_le_iff, simp add: in_int64_def)+
  then have n: "(1 :: rat) \<le> of_int n" "(of_int n :: rat) \<le> 2 ^ 63" by simp_all
  then have "\<bar>of_int n :: rat\<bar> \<le> 2 ^ 63" by simp
  note f = fl_bounded[OF this]
  have r: "1 \<le> round53 (of_int n)" using round53_mono[OF n(1)] one_fixed by simp
  have "(1 / 2 ^ 30 :: rat) \<le> round53 (of_int n) / 1000000000" using r by (simp add: field_simps)
  moreover have "is_dbl (Fin (1 / 2 ^ 30))" using is_dbl_dyadic[of 1 30] by simp
  ultimately have lo: "1 / 2 ^ 30 \<le> round53 (round53 (of_int n) / 1000000000)"
    using round53_mono by (metis is_dbl_Fin)
  have "\<bar>round53 (of_int n) / 1000000000\<bar> \<le> 2 ^ 63" using f(2) by (simp add: field_simps)
  from fl_bounded(1)[OF this] have "fl (round53 (of_int n) / 1000000000) = Fin (round53 (round53 (of_int n) / 1000000000))" by simp
  moreover have "0 < round53 (round53 (of_int n) / 1000000000)" by (rule less_le_trans[OF _ lo]) simp
  ultimately show ?thesis using f(1) by (simp add: seconds_of_ns_def)
qed

lemma seconds_nonpos:
  assumes "n \<le> 0" and "in_int64 n"
  shows "dleq (seconds_of_ns n) (Fin 0)"
proof -
  have "(of_int n :: rat) \<le> of_int 0" and "(of_int (- (2 ^ 63)) :: rat) \<le> of_int n"
    using assms by (subst of_int_le_iff, simp add: in_int64_def)+
  then have n: "(of_int n :: rat) \<le> 0" "- (2 ^ 63) \<le> (of_int n :: rat)" by simp_all
  then have "\<bar>of_int n :: rat\<bar> \<le> 2 ^ 63" by (simp add: abs_le_iff)
  note f = fl_bounded[OF this]
  have r: "round53 (of_int n) \<le> 0" using round53_mono[OF n(1)] by simp
  then have "round53 (round53 (of_int n) / 1000000000) \<le> 0" using round53_mono[of _ 0] by (simp add: divide_nonpos_pos)
  moreover have "\<bar>round53 (of_int n) / 1000000000\<bar> \<le> 2 ^ 63" using f(2) by (simp add: field_simps)
  from fl_bounded(1)[OF this] have "fl (round53 (of_int n) / 1000000000) = Fin (round53 (round53 (of_int n) / 1000000000))" by simp
  ultimately show ?thesis using f(1) by (simp add: seconds_of_ns_def)
qed

text \<open>The length of the next step, at most a quarter of a second.\<close>

definition step_seconds :: "int \<Rightarrow> int \<Rightarrow> double" where
  "step_seconds last_update now =
    (let dt = seconds_of_ns (now - last_update) in if dless (Fin (1 / 4)) dt then Fin (1 / 4) else dt)"

lemma step_seconds_bounds:
  assumes "last_update < now" and "in_int64 (now - last_update)"
  shows "\<exists>q. step_seconds last_update now = Fin q \<and> 0 < q \<and> q \<le> 1 / 4"
proof -
  obtain q where "seconds_of_ns (now - last_update) = Fin q" "0 < q" using seconds_pos[OF _ assms(2)] assms(1) by auto
  then show ?thesis
    by (intro exI[of _ "min (1 / 4) q"]) (simp add: step_seconds_def min_def)
qed

section \<open>A step of all devices\<close>

lemma device_view_at:
  "device_view lib d w = device_view lib d w' \<longleftrightarrow>
     tempctl_at d (w_tempctl w) = tempctl_at d (w_tempctl w') \<and> motorctl_at d (w_motorctl w) = motorctl_at d (w_motorctl w') \<and>
     relayio_at d (w_relayio w) = relayio_at d (w_relayio w') \<and> analogsensor_at lib d (w_analog w) = analogsensor_at lib d (w_analog w')"
  by (simp add: device_view_def)

lemma relayio_physics_frame:
  "relayio_at d m = relayio_at d m' \<Longrightarrow>
     relayio_at d (relayio_update_physics d' dt m) = (if d = d' then relayio_at d (relayio_update_physics d dt m') else relayio_at d m)"
  by (cases "d = d'", hypsubst) (simp_all add: relayio_update_physics_def relayio_get_state Let_def)

lemma update_device_other: "d \<noteq> re_id e \<Longrightarrow> device_view lib d (update_device lib dt e w) = device_view lib d w"
  by (simp add: update_device_def adapter_for_def adapter_defs device_view_at tempctl_physics_at motorctl_physics_at
      relayio_physics_frame[OF refl] analogsensor_physics_at split: option.split sim_device_type.split)

lemma update_device_local:
  assumes "device_view lib (re_id e) w = device_view lib (re_id e) w'"
  shows "device_view lib (re_id e) (update_device lib dt e w) = device_view lib (re_id e) (update_device lib dt e w')"
  using assms
  by (simp add: update_device_def adapter_for_def adapter_defs device_view_at tempctl_physics_at motorctl_physics_at
      relayio_physics_at analogsensor_physics_at split: option.split sim_device_type.split)

lemma update_devices_simps [simp]:
  "update_devices lib dt [] w = w"
  "update_devices lib dt (e # es) w = update_devices lib dt es (update_device lib dt e w)"
  by (simp_all add: update_devices_def)

lemma update_devices_other: "d \<notin> re_id ` set es \<Longrightarrow> device_view lib d (update_devices lib dt es w) = device_view lib d w"
  by (induction es arbitrary: w) (simp_all add: update_device_other)

lemma update_devices_once:
  assumes "distinct (map re_id es)" and "e \<in> set es"
  shows "device_view lib (re_id e) (update_devices lib dt es w) = device_view lib (re_id e) (update_device lib dt e w)"
  using assms
proof (induction es arbitrary: w)
  case (Cons x es)
  show ?case
  proof (cases "x = e")
    case True
    with Cons.prems have "re_id e \<notin> re_id ` set es" by auto
    with True show ?thesis by (simp add: update_devices_other)
  next
    case False
    with Cons.prems have e: "e \<in> set es" "distinct (map re_id es)" and ne: "re_id e \<noteq> re_id x" by (auto simp: image_iff)
    from Cons.IH[OF e(2,1)] have "device_view lib (re_id e) (update_devices lib dt es (update_device lib dt x w)) =
        device_view lib (re_id e) (update_device lib dt e (update_device lib dt x w))" .
    also have "\<dots> = device_view lib (re_id e) (update_device lib dt e w)"
      by (rule update_device_local[OF update_device_other[OF ne]])
    finally show ?thesis by simp
  qed
qed simp

lemma update_device_frame: "same_frame w (update_device lib dt e w) \<and> w_faults (update_device lib dt e w) = w_faults w"
  by (simp add: update_device_def adapter_for_def adapter_defs same_frame_eq split: option.split sim_device_type.split)

lemma update_devices_frame: "same_frame w (update_devices lib dt es w) \<and> w_faults (update_devices lib dt es w) = w_faults w"
proof (induction es arbitrary: w)
  case (Cons e es)
  from Cons.IH[of "update_device lib dt e w"] update_device_frame[of w lib dt e] show ?case
    by (auto intro: same_frame_trans)
qed simp

text \<open>C19. A tick of the local engine that finds the clock unmoved fails and changes nothing. Otherwise it
  succeeds, without sensors or commands, remembers the time, and takes every configured device exactly one
  physics step, all by the same time: the time since the last tick, cut to a quarter of a second, and
  never zero or negative. The state of other devices, the faults and the
  rest of the process stay as they were.\<close>

theorem local_tick_steps_each_device_once:
  assumes "w_config_loaded w" and "distinct (map re_id (get_registered_devices w))" and "in_int64 (w_now w - last_update)"
    and "local_tick lib last_update w = (r, last', w')"
  shows "if w_now w \<le> last_update then \<not> tr_success r \<and> last' = last_update \<and> w' = w
    else tr_success r \<and> tr_sensors r = m_empty \<and> tr_commands r = [] \<and> last' = w_now w \<and>
      (\<exists>q. step_seconds last_update (w_now w) = Fin q \<and> 0 < q \<and> q \<le> 1 / 4) \<and>
      (\<forall>e \<in> set (get_registered_devices w). device_view lib (re_id e) w' =
         device_view lib (re_id e) (update_device lib (step_seconds last_update (w_now w)) e w)) \<and>
      (\<forall>d. d \<notin> re_id ` set (get_registered_devices w) \<longrightarrow> device_view lib d w' = device_view lib d w) \<and>
      same_frame w w' \<and> w_faults w' = w_faults w"
proof (cases "w_now w \<le> last_update")
  case True
  with seconds_nonpos[OF _ assms(3)] have "dleq (seconds_of_ns (w_now w - last_update)) (Fin 0)" by simp
  with assms(4) True show ?thesis by (auto simp: local_tick_def failed_tick_def)
next
  case False
  then obtain q where "seconds_of_ns (w_now w - last_update) = Fin q" "0 < q" using seconds_pos[OF _ assms(3)] by auto
  then have "\<not> dleq (seconds_of_ns (w_now w - last_update)) (Fin 0)" by simp
  with assms(1,4) have eq: "r = successful_tick" "last' = w_now w"
    "w' = update_devices lib (step_seconds last_update (w_now w)) (get_registered_devices w) w"
    by (auto simp: local_tick_def step_seconds_def Let_def)
  show ?thesis
    using False step_seconds_bounds[OF _ assms(3)] update_devices_once[OF assms(2)]
      update_devices_other[of _ "get_registered_devices w"] update_devices_frame[of w lib _ "get_registered_devices w"]
    by (simp add: eq successful_tick_def) blast
qed

theorem local_tick_steps_each_device_once_witness:
  "\<exists>r l w' q. local_tick ref_lib 0 ((initial_world 0 :: (nat, unit) world)\<lparr>w_config_loaded := True, w_now := 100000000,
       w_device_registry := [(''t0'', \<lparr>re_id = ''t0'', re_type = ''tempctl'', re_config = m_empty\<rparr>)]\<rparr>) = (r, l, w') \<and>
     tr_success r \<and> 0 < q \<and>
     device_view ref_lib ''t0'' w' = device_view ref_lib ''t0'' (da_update_physics (adapter_for ref_lib Tempctl) ''t0'' (Fin q)
       ((initial_world 0 :: (nat, unit) world)\<lparr>w_config_loaded := True, w_now := 100000000,
         w_device_registry := [(''t0'', \<lparr>re_id = ''t0'', re_type = ''tempctl'', re_config = m_empty\<rparr>)]\<rparr>))"
proof -
  let ?e = "\<lparr>re_id = ''t0'', re_type = ''tempctl'', re_config = m_empty\<rparr> :: device_registry_entry"
  let ?w = "(initial_world 0 :: (nat, unit) world)\<lparr>w_config_loaded := True, w_now := 100000000, w_device_registry := [(''t0'', ?e)]\<rparr>"
  obtain r l w' where out: "local_tick ref_lib 0 ?w = (r, l, w')" by (metis prod.exhaust)
  have devs: "get_registered_devices ?w = [?e]" by (simp add: get_registered_devices_def)
  have now: "w_now ?w = 100000000" by simp
  have prem: "w_config_loaded ?w" "distinct (map re_id (get_registered_devices ?w))" "in_int64 (w_now ?w - 0)"
    unfolding devs now by (simp_all add: in_int64_def)
  have tick: "tr_success r \<and> (\<exists>q. step_seconds 0 (w_now ?w) = Fin q \<and> 0 < q \<and> q \<le> 1 / 4) \<and>
      device_view ref_lib (re_id ?e) w' = device_view ref_lib (re_id ?e) (update_device ref_lib (step_seconds 0 (w_now ?w)) ?e ?w)"
    using local_tick_steps_each_device_once[OF prem out] unfolding devs now by simp
  then obtain q where q: "step_seconds 0 (w_now ?w) = Fin q" "0 < q" by blast
  have upd: "update_device ref_lib dt ?e v = da_update_physics (adapter_for ref_lib Tempctl) ''t0'' dt v"
    for dt and v :: "(nat, unit) world"
    by (simp add: update_device_def sim_device_type_from_string_def)
  have id: "re_id ?e = ''t0''" by simp
  from tick[unfolded upd q(1) id] have "tr_success r" and
    "device_view ref_lib ''t0'' w' = device_view ref_lib ''t0'' (da_update_physics (adapter_for ref_lib Tempctl) ''t0'' (Fin q) ?w)"
    by blast+
  with out q(2) show ?thesis by (intro exI[of _ r] exI[of _ l] exI[of _ w'] exI[of _ q] conjI)
qed

section \<open>The remote engine\<close>

lemma read_paths_run: "snd (read_paths srv paths sensors c) = run_ops srv (map OpRead paths) c"
  by (induction paths arbitrary: sensors c) (simp_all add: read_signal_value_def case_prod_beta)

lemma run_reads_pending: "pending_commands (run_ops srv (map OpRead paths) c) = pending_commands c"
  by (induction paths arbitrary: c) (simp_all add: read_signal_pending)

lemma members_split:
  assumes "\<And>p. p \<noteq> x \<Longrightarrow> N p \<longleftrightarrow> S p" and "N x \<Longrightarrow> S x"
  shows "{p \<in> set (x # xs). S p} = (if S x then {x} else {}) \<union> {p \<in> set xs. N p}"
proof (rule set_eqI)
  fix p
  show "p \<in> {p \<in> set (x # xs). S p} \<longleftrightarrow> p \<in> (if S x then {x} else {}) \<union> {p \<in> set xs. N p}"
    using assms(1)[of p] assms(2) by (cases "p = x") auto
qed

text \<open>Reading paths one after the other, from sensors that agree with the cache of the client.\<close>

lemma read_paths_answer:
  assumes "\<forall>p. m_find p sensors = m_find p (signal_info_cache c)"
  shows "case read_paths srv paths sensors c of (out, c') \<Rightarrow>
    \<exists>tr. fc_trace c' = fc_trace c @ tr \<and>
      (\<forall>p. m_find p out = (case m_find p sensors of None \<Rightarrow> answered p tr | Some v \<Rightarrow> Some v)) \<and>
      reads tr = (\<lambda>p. [p]) ` {p \<in> set paths. m_find p sensors = None}"
  using assms
proof (induction paths arbitrary: sensors c)
  case (Cons path paths)
  obtain info c1 where r: "read_signal srv path c = (info, c1)" by (metis prod.exhaust)
  from read_signal_answer[OF r] obtain tr where tr: "fc_trace c1 = fc_trace c @ tr"
    "reads tr = (if m_find path (signal_info_cache c) = None then {[path]} else {})"
    "\<forall>p. answered p tr = (if p = path \<and> m_find path (signal_info_cache c) = None then map_option si_value info else None)"
    "\<forall>p. m_find p (signal_info_cache c1) = (case m_find p (signal_info_cache c) of None \<Rightarrow> answered p tr | Some v \<Rightarrow> Some v)"
    "map_option si_value info = m_find path (signal_info_cache c1)" by blast
  let ?s = "case map_option si_value info of Some x \<Rightarrow> m_put path x sensors | None \<Rightarrow> sensors"
  have s1: "m_find p ?s = m_find p (signal_info_cache c1)" for p
  proof (cases "p = path")
    case True
    then show ?thesis using tr(4)[rule_format, of path] Cons.prems[rule_format, of path] unfolding tr(5)
      by (simp split: option.splits)
  next
    case False
    then have "m_find p (signal_info_cache c1) = m_find p sensors"
      using tr(3,4)[rule_format, of p] Cons.prems[rule_format, of p] by (simp split: option.splits)
    with False show ?thesis by (simp split: option.split)
  qed
  obtain out c' where out: "read_paths srv paths ?s c1 = (out, c')" by (metis prod.exhaust)
  from Cons.IH[of ?s c1] s1 out obtain tr1 where tr1: "fc_trace c' = fc_trace c1 @ tr1"
    "\<forall>p. m_find p out = (case m_find p ?s of None \<Rightarrow> answered p tr1 | Some v \<Rightarrow> Some v)"
    "reads tr1 = (\<lambda>p. [p]) ` {p \<in> set paths. m_find p ?s = None}" by auto
  have eq: "read_paths srv (path # paths) sensors c = (out, c')"
    using out by (simp add: read_signal_value_def r)
  have "m_find p out = (case m_find p sensors of None \<Rightarrow> answered p (tr @ tr1) | Some v \<Rightarrow> Some v)" for p
    using tr(4)[rule_format, of p] Cons.prems[rule_format, of p] tr1(2)[rule_format, of p]
    unfolding s1 answered_append by (simp split: option.splits)
  moreover have "reads (tr @ tr1) = (\<lambda>p. [p]) ` {p \<in> set (path # paths). m_find p sensors = None}"
  proof -
    have later: "m_find p (signal_info_cache c1) = None \<longleftrightarrow> m_find p sensors = None" if "p \<noteq> path" for p
      using tr(3,4)[rule_format, of p] Cons.prems[rule_format, of p] that by (simp split: option.splits)
    have "m_find path (signal_info_cache c1) = None \<Longrightarrow> m_find path sensors = None"
      using tr(4)[rule_format, of path] Cons.prems[rule_format, of path] by (simp split: option.splits)
    from members_split[of path "\<lambda>p. m_find p (signal_info_cache c1) = None" "\<lambda>p. m_find p sensors = None" paths, OF later this]
    show ?thesis using tr(2) tr1(3) Cons.prems[rule_format, of path] unfolding s1 reads_simps by (simp add: image_Un)
  qed
  ultimately show ?case using tr(1) tr1(1) unfolding eq by (auto intro!: exI[of _ "tr @ tr1"])
qed (simp split: option.split)

lemma run_ops_append: "run_ops srv (xs @ ys) c = run_ops srv ys (run_ops srv xs c)"
  by (simp add: run_ops_def)

text \<open>C20. A tick of the remote engine succeeds exactly when its update returned a tick, and never
  throws. A successful tick hands over all the commands of that answer, in order, once, and the sensors
  the server then answers: it asks for each output path whose device is registered, and for no other
  signal, and the sensors are exactly the values of the good answers, path by path; a path the server
  gives no value for is left out. An unsuccessful tick reads nothing and hands over nothing, so the
  commands of an answer without a tick are never executed: no later tick returns them. Afterwards the
  client is again in a state its own operations reach.\<close>

theorem remote_tick_outcome:
  assumes "new_flux_client srv addr s = Inr c0" and "fa_client (rm_adapter e) = run_ops srv ops c0"
    and "update_signals srv actuators ''dimensionless'' (tick_timeout (rm_tick_rate_hz e)) (run_ops srv ops c0) = (u, c1)"
    and "remote_tick srv actuators e = (r, e')"
  shows "(tr_success r \<longleftrightarrow> u = Inr True) \<and>
    (if tr_success r
     then (\<exists>v t st res. last (fc_trace c1) = RpcUpdate v t st res \<and> tkr_tick_occurred res \<and>
            tr_commands r = map (engine_command \<circ> convert_command) (tkr_commands res)) \<and>
          (\<exists>tr. fc_trace (fa_client (rm_adapter e')) = fc_trace c1 @ tr \<and>
             reads tr = (\<lambda>p. [p]) ` {p \<in> set (fa_output_paths (rm_adapter e)).
               \<exists>d sig. split_path p = Some (d, sig) \<and> d \<in> fa_registered_ids (rm_adapter e)} \<and>
             (\<forall>p. m_find p (tr_sensors r) = answered p tr)) \<and>
          pending_commands (fa_client (rm_adapter e')) = []
     else tr_sensors r = m_empty \<and> tr_commands r = [] \<and> fc_trace (fa_client (rm_adapter e')) = fc_trace c1) \<and>
    (\<exists>ops'. fa_client (rm_adapter e') = run_ops srv ops' c0)"
proof -
  let ?a = "(rm_adapter e)\<lparr>fa_client := c1\<rparr>"
  let ?up = "OpUpdate actuators ''dimensionless'' (tick_timeout (rm_tick_rate_hz e))"
  have upd: "adapter_update_signals srv actuators ''dimensionless'' (tick_timeout (rm_tick_rate_hz e)) (rm_adapter e) = (u, ?a)"
    by (simp add: adapter_update_signals_def assms(2,3))
  have c1: "c1 = run_ops srv (ops @ [?up]) c0" by (simp add: run_ops_append assms(3))
  show ?thesis
  proof (cases "u = Inr True")
    case False
    with assms(4) upd have "r = failed_tick" "e' = e\<lparr>rm_adapter := ?a\<rparr>"
      by (auto simp: remote_tick_def split: sum.splits)
    with False c1 show ?thesis by (auto simp: failed_tick_def intro!: exI[of _ "ops @ [?up]"])
  next
    case True
    let ?paths = "paths_of_interest (rm_adapter e)"
    have paths: "paths_of_interest ?a = ?paths" by (simp add: paths_of_interest_def cong: option.case_cong prod.case_cong)
    have members: "set ?paths = {p \<in> set (fa_output_paths (rm_adapter e)).
        \<exists>d sig. split_path p = Some (d, sig) \<and> d \<in> fa_registered_ids (rm_adapter e)}"
      by (auto simp: paths_of_interest_def split: option.splits)
    obtain v t st res where last: "last (fc_trace c1) = RpcUpdate v t st res" "tkr_tick_occurred res"
      "pending_commands c1 = map convert_command (tkr_commands res)" and cache: "signal_info_cache c1 = m_empty"
      using update_outcome[OF assms(1) refl assms(3)] True by (auto simp: drain_commands_def)
    obtain sensors c2 where rd: "read_paths srv ?paths m_empty c1 = (sensors, c2)" by (metis prod.exhaust)
    then have c2: "c2 = run_ops srv (map OpRead ?paths) c1" using read_paths_run[of srv ?paths m_empty c1] by simp
    from read_paths_answer[where sensors = m_empty and c = c1 and srv = srv and paths = ?paths] rd cache obtain tr where tr: "fc_trace c2 = fc_trace c1 @ tr"
      "\<forall>p. m_find p sensors = answered p tr" "reads tr = (\<lambda>p. [p]) ` set ?paths" by auto
    have r: "r = \<lparr>tr_success = True, tr_sensors = sensors, tr_commands = map engine_command (pending_commands c2)\<rparr>"
      and e': "fa_client (rm_adapter e') = c2\<lparr>pending_commands := []\<rparr>"
      using assms(4) upd True rd
      by (auto simp: remote_tick_def adapter_read_signals_def paths adapter_drain_commands_def drain_commands_def)
    let ?ops = "ops @ ?up # map OpRead ?paths @ [OpDrain]"
    have run: "run_ops srv ?ops c0 = c2\<lparr>pending_commands := []\<rparr>"
      using c1 c2 by (simp add: run_ops_append drain_commands_def)
    have pend: "pending_commands c2 = pending_commands c1" by (simp add: c2 run_reads_pending)
    have "\<exists>v t st res. last (fc_trace c1) = RpcUpdate v t st res \<and> tkr_tick_occurred res \<and>
        tr_commands r = map (engine_command \<circ> convert_command) (tkr_commands res)"
      using last by (simp add: r pend)
    moreover have "\<exists>ops'. fa_client (rm_adapter e') = run_ops srv ops' c0"
      using run by (auto simp only: e' intro!: exI[of _ ?ops])
    moreover have "\<exists>tr. fc_trace (fa_client (rm_adapter e')) = fc_trace c1 @ tr \<and> reads tr = (\<lambda>p. [p]) ` set ?paths \<and>
        (\<forall>p. m_find p (tr_sensors r) = answered p tr)"
      using tr by (intro exI[of _ tr]) (simp add: r e')
    ultimately show ?thesis
      unfolding members using True by (simp add: r e')
  qed
qed

theorem remote_tick_outcome_witness:
  "tr_commands (fst (remote_tick example_server m_empty
     \<lparr>rm_adapter = \<lparr>fa_client = registered_client, fa_output_paths = [''t0/temp'', ''x/y''], fa_registered_ids = {''t0''}\<rparr>,
      rm_device_ids = [''t0''], rm_tick_rate_hz = Fin 10, rm_provider_id = ''p''\<rparr>)) =
   [\<lparr>cmd_device_id = ''t0'', cmd_function_name = ''set_mode'', cmd_args = m_empty\<rparr>]"
proof -
  let ?e = "\<lparr>rm_adapter = \<lparr>fa_client = registered_client, fa_output_paths = [''t0/temp'', ''x/y''], fa_registered_ids = {''t0''}\<rparr>,
      rm_device_ids = [''t0''], rm_tick_rate_hz = Fin 10, rm_provider_id = ''p''\<rparr>"
  have run: "fa_client (rm_adapter ?e) = run_ops example_server [OpRegister ''p'' [''t0'']] example_client"
    by (simp add: registered_client_def)
  obtain c1 v t where out: "update_signals example_server m_empty ''dimensionless'' (tick_timeout (rm_tick_rate_hz ?e))
      (run_ops example_server [OpRegister ''p'' [''t0'']] example_client) = (Inr True, c1)"
    "last (fc_trace c1) = RpcUpdate v t good \<lparr>tkr_tick_occurred = True, tkr_sim_time_sec = Fin 1,
          tkr_commands = [\<lparr>pbc_device = ''t0'', pbc_function = ''set_mode'', pbc_args = []\<rparr>]\<rparr>"
    using example_update unfolding registered_client_run by blast
  obtain r e' where tick: "remote_tick example_server m_empty ?e = (r, e')" by (metis prod.exhaust)
  from remote_tick_outcome[OF example_client_new run out(1) tick] out(2) show ?thesis
    by (auto simp: tick engine_command_def convert_command_def convert_args_def)
qed

end
