(* ===== verification/Ticker.thy ===== *)
theory Ticker
  imports Engines Config "HOL-Library.Stream"
begin

text \<open>
  The ticker thread of \<open>src/devices/common/device_manager.cpp\<close>, \<open>ticker_thread_func\<close>: the
  work of one tick, and the loop that keeps its cadence on the steady clock. The log lines are left
  out, and with them \<open>tick_count\<close> and the clock readings only they use.

  The thread shares the process with the handlers. What they do, and the time that passes, is given
  for each round of the loop: a function on the process for the time the thread works, one for each
  turn of its catch-up loop (a stream, as the loop may take any number of turns), and one for the
  time it sleeps. Time points are unbounded integers, where the steady clock has 64 bits of nanoseconds. How the two threads' operations interleave is in the theory \<open>Interleaving\<close>.
\<close>

section \<open>One tick\<close>

definition update_controls :: "'g lib \<Rightarrow> ('g, 'e) world \<Rightarrow> ('g, 'e) world" where
  "update_controls lib w =
     foldl (\<lambda>w dev. case adapter_by_id lib (re_id dev) w of
        None \<Rightarrow> w
      | Some (adapter :: ('g, 'e) device_adapter) \<Rightarrow> adapter_update_control lib (da_update_control adapter) (re_id dev) w)
       w (get_registered_devices w)"

definition tick_actuators :: "'g lib \<Rightarrow> ('g, 'e) world \<Rightarrow> (string, double) smap \<times> ('g, 'e) world" where
  "tick_actuators lib w =
    (let (actuators, w) = collect_actuator_signals lib m_empty w
     in (case w_ambient w of
           Some (path, value) \<Rightarrow> if w_mode w = Sim then m_put path value actuators else actuators
         | None \<Rightarrow> actuators, w))"

definition write_sensors :: "(string, double) smap \<Rightarrow> ('g, 'e) world \<Rightarrow> ('g, 'e) world" where
  "write_sensors sensors w =
     w\<lparr>w_signal_registry := map_option (\<lambda>r. foldl (\<lambda>r (path, value). registry_write_signal path value r) r sensors)
        (w_signal_registry w)\<rparr>"

definition execute_commands :: "'g lib \<Rightarrow> command list \<Rightarrow> ('g, 'e) world \<Rightarrow> ('g, 'e) world" where
  "execute_commands lib cmds w = foldl (\<lambda>w cmd. snd (execute_engine_command lib cmd w)) w cmds"

text \<open>The result says whether the loop goes on; it leaves when there is no engine.\<close>

definition tick_body :: "'g lib \<Rightarrow> 's flux_server \<Rightarrow> ('g, 's engine) world \<Rightarrow> bool \<times> ('g, 's engine) world" where
  "tick_body lib srv w =
    (let w = update_controls lib w;
         (actuators, w) = tick_actuators lib w
     in case w_engine w of
          None \<Rightarrow> (False, w)
        | Some engine \<Rightarrow>
            let (result, engine, w) = engine_tick lib srv actuators engine w;
                w = w\<lparr>w_engine := Some engine\<rparr>
            in (True, if tr_success result
                      then execute_commands lib (tr_commands result) (write_sensors (tr_sensors result) w)
                      else w))"

section \<open>The loop\<close>

text \<open>\<open>duration_cast<nanoseconds>(duration<double>(1.0 / tick_rate_hz))\<close>.\<close>

definition tick_duration :: "double \<Rightarrow> int" where
  "tick_duration rate = double_to_int64 (dmul (ddiv (Fin 1) rate) (Fin 1000000000))"

type_synonym ('g, 'e) interference = "('g, 'e) world \<Rightarrow> ('g, 'e) world"

text \<open>
  \<open>while (next_tick <= now && g_ticker_running.load()) next_tick += tick_duration\<close>: \<open>now\<close> is read once,
  the flag before every turn; the other threads may run after every turn. \<open>None\<close> is a loop that
  does not end.
\<close>

partial_function (option) catch_up ::
  "int \<Rightarrow> int \<Rightarrow> ('g, 'e) interference stream \<Rightarrow> int \<Rightarrow> ('g, 'e) world \<Rightarrow> (int \<times> ('g, 'e) world) option" where
  "catch_up duration now others next_tick w =
     (if next_tick \<le> now \<and> w_ticker_running w
      then catch_up duration now (stl others) (next_tick + duration) (shd others w)
      else Some (next_tick, w))"

definition sleep_until :: "int \<Rightarrow> ('g, 'e) world \<Rightarrow> ('g, 'e) world" where
  "sleep_until t w = (let ns = max 0 (t - w_now w) in w\<lparr>w_now := w_now w + ns, w_system_now := w_system_now w + ns\<rparr>)"

type_synonym ('g, 'e) interferences = "('g, 'e) interference \<times> ('g, 'e) interference stream \<times> ('g, 'e) interference"

fun ticker_loop ::
  "'g lib \<Rightarrow> 's flux_server \<Rightarrow> int \<Rightarrow> ('g, 's engine) interferences list \<Rightarrow>
   int \<Rightarrow> ('g, 's engine) world \<Rightarrow> (int \<times> ('g, 's engine) world) option" where
  "ticker_loop lib srv duration [] next_tick w = Some (next_tick, w)"
| "ticker_loop lib srv duration ((working, spinning, sleeping) # rounds) next_tick w =
    (if \<not> w_ticker_running w then Some (next_tick, w)
     else
       let (goes_on, w) = tick_body lib srv w; w = working w in
       if \<not> goes_on then Some (next_tick, w)
       else
         case catch_up duration (w_now w) spinning (next_tick + duration) w of
           None \<Rightarrow> None
         | Some (next_tick, w) \<Rightarrow>
             ticker_loop lib srv duration rounds next_tick (sleeping (sleep_until next_tick w)))"

definition ticker_thread_func ::
  "'g lib \<Rightarrow> 's flux_server \<Rightarrow> double \<Rightarrow> ('g, 's engine) interferences list \<Rightarrow>
   ('g, 's engine) world \<Rightarrow> (int \<times> ('g, 's engine) world) option" where
  "ticker_thread_func lib srv rate rounds w =
     ticker_loop lib srv (tick_duration rate) rounds (w_now w) w"

text \<open>What \<open>stop_physics\<close> does to the thread before it joins it.\<close>

definition request_stop :: "('g, 'e) world \<Rightarrow> ('g, 'e) world" where
  "request_stop w = w\<lparr>w_ticker_running := False\<rparr>"

section \<open>Catching up\<close>

text \<open>The process after the first turns of the loop, and whether the loop takes another one.\<close>

definition after_turns :: "nat \<Rightarrow> ('g, 'e) interference stream \<Rightarrow> ('g, 'e) world \<Rightarrow> ('g, 'e) world" where
  "after_turns k others w = foldl (\<lambda>w f. f w) w (stake k others)"

lemma after_turns_simps [simp]:
  "after_turns 0 others w = w"
  "after_turns (Suc k) others w = after_turns k (stl others) (shd others w)"
  by (simp_all add: after_turns_def)

lemma after_turns_last: "after_turns (Suc k) others w = (others !! k) (after_turns k others w)"
  by (simp only: after_turns_def stake_Suc foldl_append foldl.simps)

definition takes_turn :: "int \<Rightarrow> int \<Rightarrow> ('g, 'e) interference stream \<Rightarrow> int \<Rightarrow> ('g, 'e) world \<Rightarrow> nat \<Rightarrow> bool" where
  "takes_turn d now others n w k \<longleftrightarrow> n + int k * d \<le> now \<and> w_ticker_running (after_turns k others w)"

lemma takes_turn_Suc: "takes_turn d now others n w (Suc k) = takes_turn d now (stl others) (n + d) (shd others w) k"
  by (simp add: takes_turn_def algebra_simps)

lemma catch_up_exit:
  assumes "\<And>j. j < k \<Longrightarrow> takes_turn d now others n w j" and "\<not> takes_turn d now others n w k"
  shows "catch_up d now others n w = Some (n + int k * d, after_turns k others w)"
  using assms
proof (induction k arbitrary: others n w)
  case 0
  then show ?case by (subst catch_up.simps) (auto simp: takes_turn_def)
next
  case (Suc k)
  have "catch_up d now (stl others) (n + d) (shd others w) =
      Some (n + d + int k * d, after_turns k (stl others) (shd others w))"
    using Suc.prems by (intro Suc.IH) (simp_all flip: takes_turn_Suc)
  moreover have "takes_turn d now others n w 0" using Suc.prems(1) by simp
  ultimately show ?case by (subst catch_up.simps) (simp add: takes_turn_def algebra_simps)
qed

text \<open>It never returns when every turn is followed by another.\<close>

lemma catch_up_progress:
  assumes "catch_up d now others n w = Some r"
  shows "\<exists>k. \<not> takes_turn d now others n w k"
proof (rule catch_up.raw_induct[where P = "\<lambda>d now others n w r. \<exists>k. \<not> takes_turn d now others n w k", OF _ assms])
  fix f :: "int \<Rightarrow> int \<Rightarrow> ('a, 'b) interference stream \<Rightarrow> int \<Rightarrow> ('a, 'b) world \<Rightarrow> (int \<times> ('a, 'b) world) option"
    and d now others n w r
  assume IH: "\<And>d now others n w r. f d now others n w = Some r \<Longrightarrow> \<exists>k. \<not> takes_turn d now others n w k"
    and body: "(if n \<le> now \<and> w_ticker_running w then f d now (stl others) (n + d) (shd others w) else Some (n, w)) = Some r"
  show "\<exists>k. \<not> takes_turn d now others n w k"
  proof (cases "takes_turn d now others n w 0")
    case True
    with body have "f d now (stl others) (n + d) (shd others w) = Some r" by (simp add: takes_turn_def)
    from IH[OF this] show ?thesis by (auto simp flip: takes_turn_Suc)
  qed blast
qed

text \<open>Which leaves two cases: the loop ends before the first turn it does not take, or not at all.\<close>

lemma catch_up_cases:
  obtains (exits) k where "\<And>j. j < k \<Longrightarrow> takes_turn d now others n w j" "\<not> takes_turn d now others n w k"
      "catch_up d now others n w = Some (n + int k * d, after_turns k others w)"
  | (spins) "\<forall>k. takes_turn d now others n w k" "catch_up d now others n w = None"
proof (cases "\<forall>k. takes_turn d now others n w k")
  case True
  with catch_up_progress[of d now others n w] spins show ?thesis by (cases "catch_up d now others n w") auto
next
  case False
  then obtain k where "\<not> takes_turn d now others n w k" "\<And>j. j < k \<Longrightarrow> takes_turn d now others n w j"
    using exists_least_iff[of "\<lambda>k. \<not> takes_turn d now others n w k"] by auto
  with exits catch_up_exit show ?thesis by blast
qed

text \<open>With a positive period it ends, within a period after now.\<close>

lemma catch_up_returns:
  assumes "0 < d"
  obtains k where "\<And>j. j < k \<Longrightarrow> takes_turn d now others n w j" "\<not> takes_turn d now others n w k"
    "catch_up d now others n w = Some (n + int k * d, after_turns k others w)"
proof -
  have "now < n + int (nat (now - n) + 1) * d"
  proof -
    have "(now - n) + 1 \<le> int (nat (now - n) + 1) * 1" by simp
    also have "\<dots> \<le> int (nat (now - n) + 1) * d" using assms by (intro mult_left_mono) simp_all
    finally show ?thesis by simp
  qed
  then have "\<not> takes_turn d now others n w (nat (now - n) + 1)" by (simp add: takes_turn_def)
  then show thesis using that by (cases rule: catch_up_cases[of d now others n w]) blast+
qed

text \<open>Unless it is stopped, it ends at the first tick of the schedule after now.\<close>

lemma first_tick_after:
  assumes "0 < d" and "n + int k * d \<le> now + d" and "now < n + int k * d" and "n \<le> now"
  shows "n + int k * d = n + ((now - n) div d + 1) * d"
proof -
  have "(now - n) div d = int k - 1"
    by (rule int_div_pos_eq[where r = "now - n - (int k - 1) * d"]) (use assms in \<open>auto simp: algebra_simps\<close>)
  then show ?thesis by simp
qed

end
