(* ===== verification/Interleaving.thy ===== *)
theory Interleaving
  imports Ticker
begin

text \<open>
  How the ticker thread and the request handlers share the process. Every module holds its mutex
  for one access to its own state at a time, so the two threads interleave at the grain of such
  accesses: \<open>atomic_step\<close> lists them. The operations of the manager, the physics step of the local
  engine and the whole tick are shown to be sequences of atomic steps, so what every atomic step
  keeps holds however the operations interleave; the locale \<open>process_invariant\<close> states that once.
\<close>

section \<open>The accesses\<close>

text \<open>
  The fault table and the clocks may change in any way, the steady clock only forward: the first
  covers the chaos device and the expiry of faults, the second the environment and the injected
  latency.
\<close>

inductive atomic_step :: "'g lib \<Rightarrow> ('g, 'e) world \<Rightarrow> ('g, 'e) world \<Rightarrow> bool" for lib where
  faults: "atomic_step lib w (w\<lparr>w_faults := f\<rparr>)"
| time: "w_now w \<le> t \<Longrightarrow> atomic_step lib w (w\<lparr>w_now := t, w_system_now := u\<rparr>)"
| call: "wf_args as \<Longrightarrow> atomic_step lib w (snd (da_call_function (adapter_for lib ty) d f as w))"
| reading: "atomic_step lib w (snd (da_read_signals (adapter_for lib ty) d ids w))"
| physics: "0 < t \<Longrightarrow> t \<le> 1 / 4 \<Longrightarrow> atomic_step lib w (da_update_physics (adapter_for lib ty) d (Fin t) w)"
| control_check: "atomic_step lib w (w\<lparr>w_tempctl := snd (tempctl_control_enabled d (w_tempctl w))\<rparr>)"
| control_apply: "atomic_step lib w (w\<lparr>w_tempctl := tempctl_control_apply d T (w_tempctl w)\<rparr>)"
| registry: "atomic_step lib w (w\<lparr>w_signal_registry := map_option (registry_write_signal p v) (w_signal_registry w)\<rparr>)"
| engine: "w_engine w \<noteq> None \<Longrightarrow> atomic_step lib w (w\<lparr>w_engine := Some e\<rparr>)"

text \<open>
  A read looks into the registry after, or during, its access to the module, path by path. That is
  still one access for what it leaves behind, which does not depend on the registry or on the wall clock: the analog
  sensor draws its noise for a channel whether the registry overrides it or not.
\<close>

lemma analogsensor_loop_state:
  "snd (analogsensor_read_loop lib registry ts d ids s) = snd (analogsensor_read_loop lib registry' ts' d ids s)"
  by (induction ids arbitrary: s)
    (simp_all add: analogsensor_read_one_def analogsensor_read_channel_def case_prod_beta Let_def)

lemma reading_state:
  "snd (da_read_signals (adapter_for lib ty) d ids (w\<lparr>w_signal_registry := registry, w_system_now := u\<rparr>)) =
     (snd (da_read_signals (adapter_for lib ty) d ids w))\<lparr>w_signal_registry := registry, w_system_now := u\<rparr>"
  using analogsensor_loop_state[of lib registry u d _ _ "w_signal_registry w" "w_system_now w"]
  by (cases ty)
    (simp_all add: adapter_for_def adapter_defs tempctl_read_signals_def motorctl_read_signals_def relayio_read_signals_def
      analogsensor_read_signals_def case_prod_beta Let_def)

inductive_cases atomic_stepE: "atomic_step lib w w'"

abbreviation atomic_steps :: "'g lib \<Rightarrow> ('g, 'e) world \<Rightarrow> ('g, 'e) world \<Rightarrow> bool" where
  "atomic_steps lib \<equiv> rtranclp (atomic_step lib)"

lemma atomic_steps_faults [simp, intro]: "atomic_steps lib w (w\<lparr>w_faults := f\<rparr>)"
  by (rule r_into_rtranclp) (rule atomic_step.faults)

lemma atomic_steps_time: "w_now w \<le> t \<Longrightarrow> atomic_steps lib w (w\<lparr>w_now := t, w_system_now := u\<rparr>)"
  by (rule r_into_rtranclp) (rule atomic_step.time)

text \<open>What no access changes: what start-up has set, and whether there are an engine and a registry.\<close>

definition set_up :: "('g, 'e) world \<Rightarrow>
    (string, device_registry_entry) smap \<times> bool \<times> (string, (string, uint32) smap) smap \<times> string list \<times>
    (string \<times> double) option \<times> simulation_mode \<times> double \<times> bool \<times> bool \<times> bool" where
  "set_up w = (w_device_registry w, w_config_loaded w, w_function_ids w, w_output_paths w, w_ambient w, w_mode w,
     w_tick_rate w, w_ticker_running w, w_engine w = None, w_signal_registry w = None)"

lemma adapter_for_frame [simp]:
  "same_frame w (snd (da_read_signals (adapter_for lib ty) d ids w))"
  "same_frame w (snd (da_call_function (adapter_for lib ty) d f as w))"
  "same_frame w (da_update_physics (adapter_for lib ty) d dt w)"
  by (cases ty; simp add: adapter_for_def adapter_defs same_frame_eq case_prod_beta)+

lemma same_frame_set_up: "same_frame w w' \<Longrightarrow> set_up w' = set_up w \<and> w_now w' = w_now w"
  by (simp add: set_up_def same_frame_eq)

lemma atomic_step_frame: "atomic_step lib w w' \<Longrightarrow> set_up w' = set_up w \<and> w_now w \<le> w_now w'"
proof (induction rule: atomic_step.induct)
  case (call as w ty d f)
  show ?case using same_frame_set_up[OF adapter_for_frame(2), of lib ty d f as w] by simp
next
  case (reading w ty d ids)
  show ?case using same_frame_set_up[OF adapter_for_frame(1), of lib ty d ids w] by simp
next
  case (physics t w ty d)
  show ?case using same_frame_set_up[OF adapter_for_frame(3), of lib ty d "Fin t" w] by simp
qed (simp_all add: set_up_def)

lemma atomic_steps_frame: "atomic_steps lib w w' \<Longrightarrow> set_up w' = set_up w \<and> w_now w \<le> w_now w'"
  by (induction rule: rtranclp_induct) (auto dest: atomic_step_frame)

text \<open>A function applied to the elements of a list in turn.\<close>

lemma atomic_steps_foldl:
  "(\<And>x w. x \<in> set xs \<Longrightarrow> atomic_steps lib w (f w x)) \<Longrightarrow> atomic_steps lib w (foldl f w xs)"
proof (induction xs arbitrary: w)
  case (Cons x xs)
  have "atomic_steps lib w (f w x)" and "atomic_steps lib (f w x) (foldl f (f w x) xs)" using Cons by simp_all
  then show ?case using rtranclp_trans by fastforce
qed simp

section \<open>The operations of the manager\<close>

lemma adapter_call_steps:
  assumes "adapter_by_id lib d0 w0 = Some a" and "wf_args as"
  shows "atomic_steps lib w (snd (da_call_function a d f as w))"
  using assms(1)
proof (cases rule: adapter_by_id_cases)
  case 1
  then show ?thesis by (simp add: kChaos_def case_prod_beta)
next
  case (2 t)
  then show ?thesis using assms(2) by (auto intro: atomic_step.call)
qed

lemma adapter_read_steps:
  assumes "adapter_by_id lib d0 w0 = Some a"
  shows "atomic_steps lib w (snd (da_read_signals a d ids w))"
  using assms
proof (cases rule: adapter_by_id_cases)
  case 1
  then show ?thesis by (simp add: kChaos_def)
next
  case (2 t)
  then show ?thesis by (auto intro: atomic_step.reading)
qed

lemma fault_queries [simp]:
  "w_is_device_unavailable d w = (b, w1) \<Longrightarrow> atomic_steps lib w w1"
  "w_is_device_unreachable d w = (b, w1) \<Longrightarrow> atomic_steps lib w w1"
  "w_is_signal_faulted d sg w = (b, w1) \<Longrightarrow> atomic_steps lib w w1"
  "w_should_call_fail lib' d g w = (b, w1) \<Longrightarrow> atomic_steps lib w w1"
  by (auto simp: w_is_device_unavailable_def w_is_device_unreachable_def w_is_signal_faulted_def w_should_call_fail_def
      split: prod.splits)

lemma admitted_steps: "atomic_steps lib w (admitted lib d f w)"
proof -
  define w1 where "w1 = w\<lparr>w_faults := snd (is_device_unavailable d (w_now w) (w_faults w))\<rparr>"
  define w2 where "w2 = (if 0 < injected_latency d w1 then w_sleep_ms (injected_latency d w1) w1 else w1)"
  have "atomic_steps lib w w1" by (simp add: w1_def)
  moreover have "atomic_steps lib w1 w2" by (auto simp: w2_def w_sleep_ms_def intro: atomic_steps_time)
  moreover have "admitted lib d f w = w2\<lparr>w_faults := snd (should_call_fail lib d (to_string_nat (unat f)) (w_faults w2))\<rparr>"
    by (simp add: admitted_def Let_def w1_def w2_def)
  then have "atomic_steps lib w2 (admitted lib d f w)" by simp
  ultimately show ?thesis by (meson rtranclp_trans)
qed

lemma call_function_steps: "wf_args as \<Longrightarrow> atomic_steps lib w (snd (call_function lib d f as w))"
  using admitted_steps[of lib w d f]
  by (auto simp: call_function_eq split: option.split intro: rtranclp_trans[OF admitted_steps adapter_call_steps])

lemma mark_faulted_steps: "atomic_steps lib w (snd (mark_faulted d sigs w))"
proof (induction sigs arbitrary: w)
  case (Cons sg sigs)
  obtain b w1 where q: "w_is_signal_faulted d (sv_signal_id sg) w = (b, w1)" by (metis prod.exhaust)
  from rtranclp_trans[OF fault_queries(3)[OF q] Cons.IH] show ?case by (simp add: q case_prod_beta Let_def)
qed simp

lemma read_signals_steps: "atomic_steps lib w (snd (read_signals lib d ids w))"
proof -
  obtain b w1 where q: "w_is_device_unavailable d w = (b, w1)" by (metis prod.exhaust)
  note s = fault_queries(1)[OF q]
  show ?thesis
  proof (cases "b \<or> adapter_by_id lib d w1 = None")
    case True
    with s show ?thesis by (auto simp: read_signals_def q)
  next
    case False
    then obtain a where a: "adapter_by_id lib d w1 = Some a" "\<not> b" by auto
    from rtranclp_trans[OF s rtranclp_trans[OF adapter_read_steps[OF a(1)] mark_faulted_steps]] show ?thesis
      by (simp add: read_signals_def q a case_prod_beta Let_def)
  qed
qed

lemma run_device_reader_steps: "atomic_steps lib w (snd (run_device_reader lib reader path w))"
  using read_signals_steps
  by (auto simp: run_device_reader_def Let_def case_prod_beta split: option.split list.split)

lemma list_loop_steps: "atomic_steps lib w (snd (list_loop lib h entries w))"
proof (induction entries arbitrary: w)
  case (Cons e entries)
  obtain b w1 where q: "w_is_device_unavailable (re_id e) w = (b, w1)" by (metis prod.exhaust)
  from rtranclp_trans[OF fault_queries(1)[OF q] Cons.IH] show ?case
    by (simp add: q case_prod_beta Let_def split: option.split)
qed simp

lemma list_devices_steps: "atomic_steps lib w (snd (list_devices lib h w))"
  using list_loop_steps by (auto simp: list_devices_def case_prod_beta Let_def)

lemma describe_device_steps: "atomic_steps lib w (snd (describe_device lib d w))"
  using fault_queries(1)[OF prod.collapse[symmetric]] by (auto simp: describe_device_def case_prod_beta Let_def)

lemma resolve_function_id_steps: "atomic_steps lib w (snd (resolve_function_id lib d n w))"
  using describe_device_steps by (auto simp: resolve_function_id_def case_prod_beta Let_def split: option.split)

section \<open>A tick\<close>

text \<open>
  The control loop is two critical sections with a read between them. The argument the tick hands to
  \<open>tempctl_update_control\<close> runs the reader on the process.
\<close>

lemma registry_read_state:
  "snd (registry_read_signal run p r x) = x \<or> (\<exists>reader. snd (registry_read_signal run p r x) = snd (run reader p x))"
  by (auto simp: registry_read_signal_def split: option.split)

lemma adapter_update_control_steps:
  fixes w :: "('a, 'b) world"
  shows "atomic_steps lib w (adapter_update_control lib slot d w)"
proof (cases "slot = NoUpdateControl \<or> w_signal_registry w = None")
  case True
  then show ?thesis by (auto simp: adapter_update_control_def tempctl_update_control_def split: control_slot.split)
next
  case False
  then obtain r where r: "w_signal_registry w = Some r" and slot: "slot = TempctlUpdateControl" by (cases slot) auto
  obtain closed m1 where en: "tempctl_control_enabled d (w_tempctl w) = (closed, m1)" by (metis prod.exhaust)
  let ?w1 = "w\<lparr>w_tempctl := m1\<rparr>"
  have check: "atomic_steps lib w ?w1" using atomic_step.control_check[of lib w d] by (simp add: en r_into_rtranclp)
  show ?thesis
  proof (cases closed)
    case False
    with check show ?thesis by (simp add: adapter_update_control_def slot tempctl_update_control_def r en)
  next
    case True
    define run :: "device_reader \<Rightarrow> string \<Rightarrow> tempctl_states \<times> ('a, 'b) world \<Rightarrow> double option \<times> tempctl_states \<times> ('a, 'b) world" where
      "run = (\<lambda>reader path (m, w). let (v, w) = run_device_reader lib reader path (w\<lparr>w_tempctl := m\<rparr>) in (v, w_tempctl w, w))"
    have ctl: "adapter_update_control lib slot d w =
        (let (m, w) = tempctl_update_control run (w_signal_registry w) d (w_tempctl w, w) in w\<lparr>w_tempctl := m\<rparr>)"
      by (simp add: adapter_update_control_def slot run_def)
    obtain T m2 w2 where rd: "registry_read_signal run (d @ ''/tc1_temp'') r (m1, w) = (T, m2, w2)" by (rule prod_cases3)
    have "(m2 = m1 \<and> w2 = w) \<or> (\<exists>reader. w2 = snd (run_device_reader lib reader (d @ ''/tc1_temp'') ?w1) \<and> m2 = w_tempctl w2)"
      using registry_read_state[of run "d @ ''/tc1_temp''" r "(m1, w)"] unfolding rd snd_conv
      by (simp add: run_def case_prod_beta Let_def) blast
    then have "atomic_steps lib ?w1 (w2\<lparr>w_tempctl := m2\<rparr>)"
    proof
      assume "m2 = m1 \<and> w2 = w"
      then show ?thesis by simp
    next
      assume "\<exists>reader. w2 = snd (run_device_reader lib reader (d @ ''/tc1_temp'') ?w1) \<and> m2 = w_tempctl w2"
      then obtain reader where w2: "w2 = snd (run_device_reader lib reader (d @ ''/tc1_temp'') ?w1)" and m2: "m2 = w_tempctl w2"
        by blast
      have "w2\<lparr>w_tempctl := m2\<rparr> = w2" by (simp add: m2)
      then show ?thesis using run_device_reader_steps[of lib ?w1 reader "d @ ''/tc1_temp''"] by (simp only: w2)
    qed
    with check have read: "atomic_steps lib w (w2\<lparr>w_tempctl := m2\<rparr>)" by (rule rtranclp_trans)
    show ?thesis
    proof (cases T)
      case None
      with read show ?thesis by (simp add: ctl tempctl_update_control_def r en True rd)
    next
      case (Some t)
      have "atomic_step lib (w2\<lparr>w_tempctl := m2\<rparr>) (w2\<lparr>w_tempctl := tempctl_control_apply d t m2\<rparr>)"
        using atomic_step.control_apply[of lib "w2\<lparr>w_tempctl := m2\<rparr>" d t] by simp
      with read Some show ?thesis
        by (simp add: ctl tempctl_update_control_def r en True rd)
    qed
  qed
qed

lemma update_controls_steps: "atomic_steps lib w (update_controls lib w)"
  unfolding update_controls_def
  by (rule atomic_steps_foldl) (auto simp: adapter_update_control_steps split: option.split)

lemma maybe_collect_signal_steps: "atomic_steps lib w (snd (maybe_collect_signal lib path out w))"
  using run_device_reader_steps
  by (auto simp: maybe_collect_signal_def registry_read_signal_def case_prod_beta Let_def split: option.split)

lemma collect_loop_steps: "atomic_steps lib w (snd (collect_loop lib paths out w))"
proof (induction paths arbitrary: out w)
  case (Cons path paths)
  from rtranclp_trans[OF maybe_collect_signal_steps Cons.IH] show ?case by (simp add: case_prod_beta Let_def)
qed simp

lemma tick_actuators_steps: "atomic_steps lib w (snd (tick_actuators lib w))"
  using collect_loop_steps by (auto simp: tick_actuators_def collect_actuator_signals_def case_prod_beta Let_def)

lemma write_sensors_steps: "atomic_steps lib w (write_sensors sensors w)"
proof (induction sensors arbitrary: w)
  case (Cons pv sensors)
  obtain p v where pv: "pv = (p, v)" by (cases pv)
  let ?w1 = "w\<lparr>w_signal_registry := map_option (registry_write_signal p v) (w_signal_registry w)\<rparr>"
  have "atomic_step lib w ?w1" by (rule atomic_step.registry)
  moreover have "write_sensors (pv # sensors) w = write_sensors sensors ?w1"
    by (simp add: write_sensors_def pv option.map_comp comp_def)
  ultimately show ?case using Cons.IH[of ?w1] by (metis converse_rtranclp_into_rtranclp)
qed (simp add: write_sensors_def option.map_ident)

text \<open>A command whose floating-point arguments are doubles.\<close>

definition wf_command :: "command \<Rightarrow> bool" where
  "wf_command cmd \<longleftrightarrow> (\<forall>(k, v) \<in> set (cmd_args cmd). case v of CvDouble x \<Rightarrow> is_dbl x | _ \<Rightarrow> True)"

lemma wf_command_args: "wf_command cmd \<Longrightarrow> wf_args (command_args (cmd_args cmd))"
proof -
  have "wf_args pb \<Longrightarrow> \<forall>(k, v) \<in> set as. case v of CvDouble x \<Rightarrow> is_dbl x | _ \<Rightarrow> True \<Longrightarrow>
      wf_args (foldl (\<lambda>pb (k, v). m_put k (pb_of_command_value v) pb) pb as)" for as :: "(string, command_value) smap" and pb
  proof (induction as arbitrary: pb)
    case (Cons a as)
    obtain k v where a: "a = (k, v)" by (cases a)
    from Cons.prems(2) have "is_dbl (double_value (pb_of_command_value v))"
      by (cases v) (auto simp: a make_defs empty_value_def)
    with Cons show ?case by (simp add: a wf_args_put)
  qed simp
  then show "wf_command cmd \<Longrightarrow> wf_args (command_args (cmd_args cmd))"
    by (simp add: wf_command_def command_args_def)
qed

lemma execute_engine_command_steps: "wf_command cmd \<Longrightarrow> atomic_steps lib w (snd (execute_engine_command lib cmd w))"
  by (auto simp: execute_engine_command_def case_prod_beta Let_def wf_command_args call_function_steps split: option.split)

lemma execute_commands_steps: "\<forall>cmd \<in> set cmds. wf_command cmd \<Longrightarrow> atomic_steps lib w (execute_commands lib cmds w)"
  unfolding execute_commands_def by (rule atomic_steps_foldl) (simp add: execute_engine_command_steps)

text \<open>
  A server whose floating-point numbers are doubles, as the wire format has it. Then so are those of
  the commands the engine hands to the tick.
\<close>

definition wf_server :: "'s flux_server \<Rightarrow> bool" where
  "wf_server srv \<longleftrightarrow> (\<forall>req t s. \<forall>pb \<in> set (tkr_commands (snd (fst (fx_update srv req t s)))).
     \<forall>(k, a) \<in> set (pbc_args pb). case a of ArgDouble x \<Rightarrow> is_dbl x | _ \<Rightarrow> True)"

definition cv_ok :: "command_value \<Rightarrow> bool" where
  "cv_ok v \<longleftrightarrow> (case v of CvDouble x \<Rightarrow> is_dbl x | _ \<Rightarrow> True)"

lemma wf_command_m_all: "wf_command cmd \<longleftrightarrow> m_all cv_ok (cmd_args cmd)"
  by (simp add: wf_command_def m_all_def cv_ok_def)

lemma convert_args_ok:
  assumes "\<forall>(k, a) \<in> set args. case a of ArgDouble x \<Rightarrow> is_dbl x | _ \<Rightarrow> True"
  shows "m_all cv_ok (convert_args args)"
proof -
  have "m_all cv_ok out \<Longrightarrow> \<forall>(k, a) \<in> set as. case a of ArgDouble x \<Rightarrow> is_dbl x | _ \<Rightarrow> True \<Longrightarrow>
      m_all cv_ok (foldl (\<lambda>out (key, arg). case arg of
        ArgDouble d \<Rightarrow> m_put key (CvDouble d) out
      | ArgInt i \<Rightarrow> m_put key (CvInt i) out
      | ArgBool b \<Rightarrow> m_put key (CvBool b) out
      | ArgString s \<Rightarrow> m_put key (CvString s) out
      | ArgNotSet \<Rightarrow> out) out as)" for out and as :: "(string, command_arg) smap"
    by (induction as arbitrary: out)
      (auto simp: m_all_put cv_ok_def split: command_arg.split prod.split command_arg.split_asm)
  from this[of m_empty args] assms show ?thesis by (simp add: convert_args_def)
qed

lemma update_loop_commands:
  "wf_server srv \<Longrightarrow> update_loop srv sigs t k retried st c = (Inr b, c') \<Longrightarrow>
     \<forall>cmd \<in> set (pending_commands c'). m_all cv_ok (fc_args cmd)"
proof (induction srv sigs t k retried st c arbitrary: c' rule: update_loop.induct)
  case (2 srv sigs t k retried st0 c)
  let ?req = "\<lparr>sus_session_id = session_id c, sus_signals = sigs\<rparr>"
  obtain status res c1 where up: "stub_update srv ?req t c = ((status, res), c1)" by (metis prod.exhaust)
  have res: "res = snd (fst (fx_update srv ?req (rpc_deadline t) (fc_server c)))"
    using up by (simp add: stub_update_def case_prod_beta Let_def)
  show ?case
  proof (cases "status_ok status")
    case True
    then have "pending_commands c' = map convert_command (tkr_commands res)"
      using "2.prems"(2) up by (auto simp: accept_tick_def invalidate_cache_def Let_def split: if_splits)
    moreover have "\<forall>pb \<in> set (tkr_commands res). m_all cv_ok (convert_args (pbc_args pb))"
    proof
      fix pb
      assume "pb \<in> set (tkr_commands res)"
      then have "\<forall>(k, a) \<in> set (pbc_args pb). case a of ArgDouble x \<Rightarrow> is_dbl x | _ \<Rightarrow> True"
        using "2.prems"(1) unfolding wf_server_def res by blast
      then show "m_all cv_ok (convert_args (pbc_args pb))" by (rule convert_args_ok)
    qed
    ultimately show ?thesis by (auto simp: convert_command_def)
  next
    case False
    obtain again c2 where re: "try_reregister_session srv (c1\<lparr>registered := False, session_id := []\<rparr>) = (again, c2)"
      by (metis prod.exhaust)
    note IH = "2.IH"(1)[OF up[symmetric] refl refl False] "2.IH"(2)[OF up[symmetric] refl refl False]
    show ?thesis
    proof (cases "gs_code status = GrpcUnauthenticated \<and> \<not> retried")
      case True
      with False "2.prems"(2) up re have "again" "update_loop srv sigs t k True status c2 = (Inr b, c')"
        by (simp_all split: if_splits)
      with IH(1)[OF True re[symmetric] refl _ "2.prems"(1)] show ?thesis by blast
    next
      case other: False
      with False "2.prems"(2) up have "is_retryable_status status \<and> k \<noteq> 0" "update_loop srv sigs t k retried status c1 = (Inr b, c')"
        by (auto split: if_splits)
      with IH(2)[OF other _ "2.prems"(1)] show ?thesis by blast
    qed
  qed
qed simp

lemma update_signals_commands:
  "wf_server srv \<Longrightarrow> update_signals srv signals u t c = (Inr b, c') \<Longrightarrow>
     \<forall>cmd \<in> set (pending_commands c'). m_all cv_ok (fc_args cmd)"
  unfolding update_signals_def Let_def by (auto dest!: update_loop_commands split: if_splits)

lemma remote_tick_commands:
  assumes "wf_server srv" and "remote_tick srv actuators e = (r, e')"
  shows "\<forall>cmd \<in> set (tr_commands r). wf_command cmd"
proof -
  obtain u a where up: "adapter_update_signals srv actuators ''dimensionless'' (tick_timeout (rm_tick_rate_hz e)) (rm_adapter e) = (u, a)"
    by (metis prod.exhaust)
  show ?thesis
  proof (cases "u = Inr True")
    case False
    with assms(2) up show ?thesis by (auto simp: remote_tick_def failed_tick_def split: sum.splits)
  next
    case True
    have a: "\<forall>cmd \<in> set (pending_commands (fa_client a)). m_all cv_ok (fc_args cmd)"
      using up True update_signals_commands[OF assms(1)]
      by (auto simp: adapter_update_signals_def Let_def split: prod.splits)
    obtain sensors c2 where rd: "read_paths srv (paths_of_interest a) m_empty (fa_client a) = (sensors, c2)" by (metis prod.exhaust)
    have "pending_commands c2 = pending_commands (fa_client a)"
      using read_paths_run[of srv "paths_of_interest a" m_empty "fa_client a"] by (simp add: rd run_reads_pending)
    then have "tr_commands r = map engine_command (pending_commands (fa_client a))"
      using assms(2) up True rd
      by (auto simp: remote_tick_def adapter_read_signals_def adapter_drain_commands_def drain_commands_def)
    with a show ?thesis by (auto simp: wf_command_m_all engine_command_def)
  qed
qed

lemma step_in_range:
  assumes "\<not> dleq (seconds_of_ns n) (Fin 0)"
  shows "\<exists>t. (if dless (Fin (1 / 4)) (seconds_of_ns n) then Fin (1 / 4) else seconds_of_ns n) = Fin t \<and> 0 < t \<and> t \<le> 1 / 4"
proof -
  have "seconds_of_ns n \<noteq> NaN" by (auto simp: seconds_of_ns_def fl_def Let_def)
  with assms consider "dless (Fin (1 / 4)) (seconds_of_ns n)"
    | q where "seconds_of_ns n = Fin q" "0 < q" "q \<le> 1 / 4" "\<not> dless (Fin (1 / 4)) (seconds_of_ns n)"
    by (cases "seconds_of_ns n") force+
  then show ?thesis
  proof cases
    case 1
    then show ?thesis by (intro exI[of _ "1 / 4"]) simp
  next
    case (2 q)
    then show ?thesis by (intro exI[of _ q]) simp
  qed
qed

lemma update_devices_steps: "0 < t \<Longrightarrow> t \<le> 1 / 4 \<Longrightarrow> atomic_steps lib w (update_devices lib (Fin t) devs w)"
  unfolding update_devices_def
  by (rule atomic_steps_foldl) (simp add: update_device_def atomic_step.physics r_into_rtranclp split: option.split)

lemma local_tick_steps: "atomic_steps lib w (snd (snd (local_tick lib last_update w)))"
proof (cases "dleq (seconds_of_ns (w_now w - last_update)) (Fin 0)")
  case False
  then obtain t where t: "(if dless (Fin (1 / 4)) (seconds_of_ns (w_now w - last_update)) then Fin (1 / 4)
      else seconds_of_ns (w_now w - last_update)) = Fin t" "0 < t" "t \<le> 1 / 4"
    using step_in_range by blast
  note p = atomic_step.physics[OF t(2,3), of lib]
  show ?thesis
  proof (cases "w_config_loaded w")
    case True
    with False show ?thesis using update_devices_steps[OF t(2,3), of lib w "get_registered_devices w"]
      unfolding local_tick_def Let_def t(1) by simp
  next
    case fallback: False
    let ?w1 = "w\<lparr>w_tempctl := tempctl_update_physics lib tempctl_kDeviceId (Fin t) (w_tempctl w)\<rparr>"
    let ?w2 = "?w1\<lparr>w_motorctl := motorctl_update_physics lib motorctl_kDeviceId (Fin t) (w_motorctl w)\<rparr>"
    let ?w3 = "?w2\<lparr>w_relayio := relayio_update_physics relayio_kDeviceId (Fin t) (w_relayio w)\<rparr>"
    let ?w4 = "?w3\<lparr>w_analog := analogsensor_update_physics lib analogsensor_kDeviceId (Fin t) (w_analog w)\<rparr>"
    have "atomic_step lib w ?w1" using p[of w Tempctl] by (simp add: adapter_for_def kTempctl_def)
    moreover have "atomic_step lib ?w1 ?w2" using p[of ?w1 Motorctl] by (simp add: adapter_for_def kMotorctl_def)
    moreover have "atomic_step lib ?w2 ?w3" using p[of ?w2 Relayio] by (simp add: adapter_for_def kRelayio_def)
    moreover have "atomic_step lib ?w3 ?w4" using p[of ?w3 Analogsensor] by (simp add: adapter_for_def kAnalogsensor_def)
    ultimately have "atomic_steps lib w ?w4" by (meson converse_rtranclp_into_rtranclp r_into_rtranclp)
    moreover have "snd (snd (local_tick lib last_update w)) = ?w4"
      using False fallback unfolding local_tick_def Let_def t(1) by simp
    ultimately show ?thesis by simp
  qed
qed (simp add: local_tick_def)

lemma engine_tick_steps:
  assumes "engine_tick lib srv actuators e w = (r, e', w')" and "wf_server srv"
  shows "atomic_steps lib w w'" and "\<forall>cmd \<in> set (tr_commands r). wf_command cmd"
proof -
  show "atomic_steps lib w w'"
    using assms(1) local_tick_steps[of lib w] by (auto simp: engine_tick_def split: engine.splits prod.splits) (metis snd_conv)
  show "\<forall>cmd \<in> set (tr_commands r). wf_command cmd"
    using assms remote_tick_commands
    by (auto simp: engine_tick_def failed_tick_def local_tick_def successful_tick_def Let_def
        split: engine.splits prod.splits if_splits) blast
qed

lemma tick_body_steps:
  assumes "wf_server srv"
  shows "atomic_steps lib w (snd (tick_body lib srv w))"
proof -
  obtain acts w1 where w1: "tick_actuators lib (update_controls lib w) = (acts, w1)" by (metis prod.exhaust)
  have s1: "atomic_steps lib w w1"
    using rtranclp_trans[OF update_controls_steps tick_actuators_steps, of lib w] by (simp add: w1)
  show ?thesis
  proof (cases "w_engine w1")
    case None
    with s1 show ?thesis by (simp add: tick_body_def w1)
  next
    case (Some e)
    obtain r e' w2 where t: "engine_tick lib srv acts e w1 = (r, e', w2)" by (rule prod_cases3)
    note et = engine_tick_steps[OF t assms]
    have "w_engine w2 \<noteq> None"
      using atomic_steps_frame[OF et(1)] Some by (simp add: set_up_def)
    then have "atomic_steps lib w1 (w2\<lparr>w_engine := Some e'\<rparr>)"
      using et(1) atomic_step.engine[of w2 lib e'] by simp
    with s1 have "atomic_steps lib w (w2\<lparr>w_engine := Some e'\<rparr>)" by (rule rtranclp_trans)
    with rtranclp_trans[OF write_sensors_steps execute_commands_steps[OF et(2)], of lib "w2\<lparr>w_engine := Some e'\<rparr>" "tr_sensors r"]
    show ?thesis by (simp add: tick_body_def w1 Some t Let_def) (auto intro: rtranclp_trans)
  qed
qed

section \<open>The thread\<close>

text \<open>The other thread, while the ticker works or sleeps, does atomic steps of its own.\<close>

definition interferes :: "'g lib \<Rightarrow> ('g, 'e) interference \<Rightarrow> bool" where
  "interferes lib f \<longleftrightarrow> (\<forall>w. atomic_steps lib w (f w))"

lemma sleep_until_steps: "atomic_steps lib w (sleep_until t w)"
  unfolding sleep_until_def Let_def by (rule atomic_steps_time) simp

section \<open>Invariants of the process\<close>

locale process_invariant =
  fixes lib :: "'g lib" and inv :: "('g, 'e) world \<Rightarrow> bool"
  assumes kept: "inv w \<Longrightarrow> atomic_step lib w w' \<Longrightarrow> inv w'"
begin

lemma steps: "inv w \<Longrightarrow> atomic_steps lib w w' \<Longrightarrow> inv w'"
  by (rotate_tac, induction rule: rtranclp_induct) (auto intro: kept)

lemma call: "inv w \<Longrightarrow> wf_args as \<Longrightarrow> inv (snd (call_function lib d f as w))"
  by (rule steps[OF _ call_function_steps])

lemma reading: "inv w \<Longrightarrow> inv (snd (read_signals lib d ids w))"
  by (rule steps[OF _ read_signals_steps])

lemma listing: "inv w \<Longrightarrow> inv (snd (list_devices lib h w))"
  by (rule steps[OF _ list_devices_steps])

lemma describing: "inv w \<Longrightarrow> inv (snd (describe_device lib d w))"
  by (rule steps[OF _ describe_device_steps])

lemma resolving: "inv w \<Longrightarrow> inv (snd (resolve_function_id lib d n w))"
  by (rule steps[OF _ resolve_function_id_steps])

end

end
