(* ===== verification/Process.thy ===== *)
theory Process
  imports Interleaving
begin

text \<open>
  The process as a whole: from start-up on, through any interleaving of the request handlers and
  the ticker thread, which states it reaches, what stays as start-up left it, and the cadence of the
  ticker.
\<close>

section \<open>What stays as it was set up\<close>

interpretation fixed: process_invariant lib "\<lambda>w. set_up w = s" for lib s
  by unfold_locales (auto dest: atomic_step_frame)

interpretation clock: process_invariant lib "\<lambda>w. t \<le> w_now w" for lib t
  by unfold_locales (auto dest: atomic_step_frame)

lemma set_up_addressable:
  assumes "set_up w' = set_up w"
  shows "adapter_by_id lib d w' = adapter_by_id lib d w" and "get_registered_devices w' = get_registered_devices w"
  using assms by (simp_all add: set_up_def adapter_by_id_def is_device_registered_def get_device_type_def get_registered_devices_def)

section \<open>The cadence of the ticker\<close>

lemma round53_tenth: "round53 (1 / 10) = 3602879701896397 / 36028797018963968"
  by (simp add: fl_eval)

lemma round53_thousandth: "round53 (1 / 1000) = 1152921504606847 / 1152921504606846976"
  by (simp add: fl_eval)

lemma round53_int_bounds:
  assumes "of_int a \<le> x" and "x \<le> of_int b" and "\<bar>a\<bar> \<le> 2 ^ 53" and "\<bar>b\<bar> \<le> 2 ^ 53"
  shows "fl x = Fin (round53 x) \<and> of_int a \<le> round53 x \<and> round53 x \<le> of_int b"
  using fl_between[OF is_dbl_int[OF assms(3)] is_dbl_int[OF assms(4)] assms(1,2)] by simp

text \<open>A tick rate the configuration accepts gives a period between a millisecond and ten seconds.\<close>

lemma tick_duration_bounds:
  assumes "tick_rate_ok (Some rate)"
  shows "1000000 \<le> tick_duration rate" and "tick_duration rate \<le> 10000000000"
proof -
  have "fl (1 / 10) = Fin (3602879701896397 / 36028797018963968)"
    using round53_int_bounds[of 0 "1 / 10" 1] by (simp add: round53_tenth)
  then obtain r where rate: "rate = Fin r" and lo: "3602879701896397 / 36028797018963968 \<le> r" and hi: "r \<le> 1000"
    using assms by (cases rate) (auto simp: tick_rate_ok_def)
  have "0 < r" using lo by linarith
  then have q: "1 / 1000 \<le> 1 / r" "1 / r \<le> 10" using lo hi by (simp_all add: field_simps)
  have f1: "fl (1 / r) = Fin (round53 (1 / r))" "round53 (1 / r) \<le> 10"
    using round53_int_bounds[of 0 "1 / r" 10] q \<open>0 < r\<close> by auto
  have "1000000 \<le> round53 (1 / r) * 1000000000"
    using round53_mono[OF q(1)] by (simp add: round53_thousandth)
  moreover have "round53 (1 / r) * 1000000000 \<le> 10000000000" using f1(2) by simp
  ultimately have f2: "fl (round53 (1 / r) * 1000000000) = Fin (round53 (round53 (1 / r) * 1000000000))"
    "1000000 \<le> round53 (round53 (1 / r) * 1000000000)" "round53 (round53 (1 / r) * 1000000000) \<le> 10000000000"
    using round53_int_bounds[of 1000000 "round53 (1 / r) * 1000000000" 10000000000] by auto
  define n where "n = \<lfloor>round53 (round53 (1 / r) * 1000000000)\<rfloor>"
  have n: "1000000 \<le> n" "n \<le> 10000000000" using f2(2,3) unfolding n_def by (simp_all add: le_floor_iff floor_le_iff)
  then have "tick_duration rate = n"
    using f2 \<open>0 < r\<close> by (simp add: tick_duration_def double_to_int64_def rate f1 Let_def in_int64_def flip: n_def)
  with n show "1000000 \<le> tick_duration rate" and "tick_duration rate \<le> 10000000000" by simp_all
qed

text \<open>The other threads during the turns of the catch-up loop, and what a round needs of the loop.\<close>

lemma after_turns_steps:
  "\<forall>f \<in> sset others. interferes lib f \<Longrightarrow> atomic_steps lib w (after_turns k others w)"
proof (induction k arbitrary: others w)
  case (Suc k)
  have "atomic_steps lib w (shd others w)" using Suc.prems by (simp add: interferes_def shd_sset)
  moreover have "\<forall>f \<in> sset (stl others). interferes lib f" using Suc.prems by (auto dest: stl_sset)
  ultimately show ?case using Suc.IH rtranclp_trans[of "atomic_step lib" w] by simp
qed simp

lemma catch_up_next:
  assumes "0 < d"
  obtains k j where "1 \<le> k" "catch_up d now others (n + d) w = Some (n + int k * d, after_turns j others w)"
    "\<And>i. i < j \<Longrightarrow> takes_turn d now others (n + d) w i" "n \<le> now \<Longrightarrow> n + int k * d \<le> now + d"
proof -
  obtain j where j: "\<And>i. i < j \<Longrightarrow> takes_turn d now others (n + d) w i"
    "catch_up d now others (n + d) w = Some (n + d + int j * d, after_turns j others w)"
    using catch_up_returns[OF assms, of now others "n + d" w] by blast
  have "n + d + int j * d \<le> now + d" if "n \<le> now"
  proof (cases j)
    case (Suc i)
    with j(1)[of i] show ?thesis by (simp add: takes_turn_def algebra_simps)
  qed (use that in simp)
  with j show thesis using that[of "Suc j" j] by (simp add: algebra_simps)
qed

lemma sleep_until_clock: "t \<le> w_now (sleep_until t w)"
  by (simp add: sleep_until_def Let_def)

lemma tick_body_goes_on:
  assumes "w_engine w \<noteq> None"
  shows "fst (tick_body lib srv w)"
proof -
  obtain acts w1 where w1: "tick_actuators lib (update_controls lib w) = (acts, w1)" by (metis prod.exhaust)
  have "atomic_steps lib w w1"
    using rtranclp_trans[OF update_controls_steps tick_actuators_steps, of lib w] by (simp add: w1)
  then have "w_engine w1 \<noteq> None" using atomic_steps_frame[of lib w w1] assms by (simp add: set_up_def)
  then show ?thesis by (auto simp: tick_body_def w1 case_prod_beta Let_def)
qed

text \<open>Rounds in which the ticker is not stopped lead to a later state on the schedule, from where the rest runs.\<close>

lemma ticker_loop_prefix:
  assumes "wf_server srv" and "0 < d"
  shows "w_ticker_running w \<Longrightarrow> w_engine w \<noteq> None \<Longrightarrow> \<forall>(f, sp, g) \<in> set rounds. interferes lib f \<and> (\<forall>h \<in> sset sp. interferes lib h) \<and> interferes lib g \<Longrightarrow>
     n \<le> w_now w \<Longrightarrow>
     \<exists>k w'. ticker_loop lib srv d (rounds @ later) n w = ticker_loop lib srv d later (n + int k * d) w' \<and>
       length rounds \<le> k \<and> n + int k * d \<le> w_now w' \<and> atomic_steps lib w w'"
proof (induction rounds arbitrary: n w)
  case (Cons fg rounds)
  obtain f sp g where fg: "fg = (f, sp, g)" by (cases fg)
  obtain goes_on w1 where t: "tick_body lib srv w = (goes_on, w1)" by (metis prod.exhaust)
  have s1: "atomic_steps lib w w1" using tick_body_steps[OF assms(1), of lib w] by (simp add: t)
  have "atomic_steps lib w1 (f w1)" using Cons.prems(3) by (simp add: fg interferes_def)
  with s1 have s2: "atomic_steps lib w (f w1)" by (rule rtranclp_trans)
  have goes_on using t Cons.prems(2) tick_body_goes_on[of w lib srv] by simp
  obtain k j where k: "1 \<le> k" "catch_up d (w_now (f w1)) sp (n + d) (f w1) = Some (n + int k * d, after_turns j sp (f w1))"
    using catch_up_next[OF assms(2)] .
  let ?w2 = "after_turns j sp (f w1)"
  let ?n = "n + int k * d" and ?w = "g (sleep_until (n + int k * d) ?w2)"
  have "atomic_steps lib (f w1) ?w2" using Cons.prems(3) by (intro after_turns_steps) (simp add: fg)
  with s2 have s2': "atomic_steps lib w ?w2" by (rule rtranclp_trans)
  have sl: "atomic_steps lib (sleep_until ?n ?w2) ?w" using Cons.prems(3) by (simp add: fg interferes_def)
  from rtranclp_trans[OF s2' rtranclp_trans[OF sleep_until_steps sl]] have s3: "atomic_steps lib w ?w" .
  have "w_ticker_running ?w" "w_engine ?w \<noteq> None"
    using atomic_steps_frame[OF s3] Cons.prems(1,2) by (simp_all add: set_up_def)
  moreover have "?n \<le> w_now ?w" using atomic_steps_frame[OF sl] sleep_until_clock[of ?n ?w2] by simp
  ultimately obtain k' w' where rest: "ticker_loop lib srv d (rounds @ later) ?n ?w = ticker_loop lib srv d later (?n + int k' * d) w'"
    "length rounds \<le> k'" "?n + int k' * d \<le> w_now w'" "atomic_steps lib ?w w'"
    using Cons.IH[of ?w ?n] Cons.prems(3) by (auto simp: fg)
  have "ticker_loop lib srv d ((fg # rounds) @ later) n w = ticker_loop lib srv d later (n + int (k + k') * d) w'"
    using rest(1) k \<open>goes_on\<close> Cons.prems(1) by (simp add: fg t Let_def algebra_simps)
  moreover have "length (fg # rounds) \<le> k + k'" using rest(2) k(1) by simp
  moreover have "n + int (k + k') * d \<le> w_now w'" using rest(3) by (simp add: algebra_simps)
  ultimately show ?case using rtranclp_trans[OF s3 rest(4)] by blast
next
  case Nil
  then show ?case by (intro exI[of _ 0] exI[of _ w]) simp
qed


section \<open>The devices stay in range\<close>

definition devices_safe :: "'g lib \<Rightarrow> ('g, 'e) world \<Rightarrow> bool" where
  "devices_safe lib w \<longleftrightarrow> (\<forall>d. tempctl_safe (tempctl_at d (w_tempctl w)) \<and> motorctl_safe (motorctl_at d (w_motorctl w)) \<and>
     analogsensor_wf (analogsensor_at lib d (w_analog w)))"

lemma devices_safe_cong:
  "w_tempctl w' = w_tempctl w \<Longrightarrow> w_motorctl w' = w_motorctl w \<Longrightarrow> w_analog w' = w_analog w \<Longrightarrow>
     devices_safe lib w' = devices_safe lib w"
  by (simp add: devices_safe_def)

text \<open>A step of a device module, from the process's step.\<close>

lemma module_call_safe:
  assumes "exp_law lib" and "wf_args as" and "devices_safe lib w"
  shows "devices_safe lib (snd (da_call_function (adapter_for lib ty) d f as w))"
  using assms(3) tempctl_step_safe[OF tempctl_step.call[OF assms(2)] assms(1)]
    motorctl_step_safe[OF motorctl_step.call[OF assms(2)] assms(1)] analogsensor.all_wf_call[OF _ assms(2), of lib "w_analog w" d f]
  by (cases ty) (auto simp: adapter_for_def adapter_defs case_prod_beta devices_safe_def analogsensor.all_wf_def)

lemma module_read_safe:
  assumes "exp_law lib" and "devices_safe lib w"
  shows "devices_safe lib (snd (da_read_signals (adapter_for lib ty) d ids w))"
  using assms(2) tempctl_step_safe[OF tempctl_step.reading assms(1)] motorctl_step_safe[OF motorctl_step.reading assms(1)]
    analogsensor.all_wf_read[of lib "w_analog w" "w_signal_registry w" "w_system_now w" d ids]
  by (cases ty) (auto simp: adapter_for_def adapter_defs case_prod_beta devices_safe_def analogsensor.all_wf_def)

lemma analogsensor_physics_wf:
  "analogsensor_wf (analogsensor_at lib d' m) \<Longrightarrow> analogsensor_wf (analogsensor_at lib d m) \<Longrightarrow>
     analogsensor_wf (analogsensor_at lib d' (analogsensor_update_physics lib d dt m))"
  by (simp add: analogsensor_wf_def analogsensor_physics_at tick_rank)

lemma module_physics_safe:
  assumes "exp_law lib" and "0 < t" and "t \<le> 1 / 4" and "devices_safe lib w"
  shows "devices_safe lib (da_update_physics (adapter_for lib ty) d (Fin t) w)"
proof -
  have t: "0 \<le> t" "t \<le> 24" "t \<le> 192" using assms(2,3) by simp_all
  show ?thesis
    using assms(4) tempctl_physics_safe[OF assms(1) t(1,3)] motorctl_physics_safe[OF assms(1) t(1,2)]
      analogsensor_physics_wf[of lib _ "w_analog w" d "Fin t"]
    by (cases ty) (auto simp: adapter_for_def adapter_defs devices_safe_def)
qed

lemma atomic_step_safe:
  "atomic_step lib w w' \<Longrightarrow> exp_law lib \<Longrightarrow> devices_safe lib w \<Longrightarrow> devices_safe lib w'"
proof (induction rule: atomic_step.induct)
  case (control_check w d)
  then show ?case using tempctl_step_safe[OF tempctl_step.control_check control_check(1)] by (simp add: devices_safe_def)
next
  case (control_apply w d T)
  then show ?case by (simp add: devices_safe_def tempctl_control_safe)
qed (auto simp: module_call_safe module_read_safe module_physics_safe intro: devices_safe_cong[THEN iffD1, rotated -1])

interpretation safe: process_invariant lib "\<lambda>w. exp_law lib \<longrightarrow> devices_safe lib w" for lib
  by unfold_locales (auto dest: atomic_step_safe)

section \<open>Start-up\<close>

text \<open>Configured values in the range the modules are meant for.\<close>

definition spec_in_range :: "'g lib \<Rightarrow> device_spec \<Rightarrow> bool" where
  "spec_in_range lib spec \<longleftrightarrow>
     (\<forall>t. cfg_double lib (ds_config spec) ''initial_temp'' = Inr (Some t) \<longrightarrow> temp_ok t) \<and>
     (\<forall>v. cfg_double lib (ds_config spec) ''max_speed'' = Inr (Some v) \<longrightarrow> is_dbl v \<and> v \<noteq> NaN)"

lemma initialize_device_safe:
  assumes "initialize_device lib spec w = Inr w'" and "spec_in_range lib spec" and "exp_law lib" and "devices_safe lib w"
  shows "devices_safe lib w'"
proof -
  obtain ty w1 where ty: "da_init (adapter_for lib ty) (ds_id spec) (ds_config spec) w = Inr w1"
    and w': "devices_safe lib w' = devices_safe lib w1"
    using assms(1) by (fastforce simp: initialize_device_def Let_def devices_safe_def split: option.splits sum.splits)
  have "devices_safe lib w1"
  proof (cases ty)
    case Tempctl
    then obtain t r m where t: "cfg_double lib (ds_config spec) ''initial_temp'' = Inr t"
      "tempctl_init (ds_id spec) \<lparr>initial_temp = t, temp_range = r\<rparr> (w_tempctl w) = Inr m" "w1 = w\<lparr>w_tempctl := m\<rparr>"
      using ty by (auto simp: adapter_for_def kTempctl_def adapter_tempctl_init_def split: sum.splits)
    have "tempctl_step lib (w_tempctl w) m"
      using tempctl_step.init[OF t(2)] t(1) assms(2) by (auto simp: spec_in_range_def)
    then show ?thesis using assms(4) tempctl_step_safe[OF _ assms(3)] by (auto simp: t(3) devices_safe_def)
  next
    case Motorctl
    then obtain v m where v: "cfg_double lib (ds_config spec) ''max_speed'' = Inr v"
      "motorctl_init (ds_id spec) \<lparr>max_speed = v\<rparr> (w_motorctl w) = Inr m" "w1 = w\<lparr>w_motorctl := m\<rparr>"
      using ty by (auto simp: adapter_for_def kMotorctl_def adapter_motorctl_init_def split: sum.splits)
    have "motorctl_step lib (w_motorctl w) m"
      using motorctl_step.init[OF v(2)] v(1) assms(2) by (auto simp: spec_in_range_def)
    then show ?thesis using assms(4) motorctl_step_safe[OF _ assms(3)] by (auto simp: v(3) devices_safe_def)
  next
    case Relayio
    with ty assms(4) show ?thesis by (auto simp: adapter_for_def kRelayio_def adapter_relayio_init_def devices_safe_def)
  next
    case Analogsensor
    with ty assms(4) show ?thesis
      by (auto simp: adapter_for_def kAnalogsensor_def adapter_analogsensor_init_def devices_safe_def analogsensor_init_def)
  qed
  with w' show ?thesis by simp
qed

lemma initialize_loop_safe:
  "\<forall>spec \<in> set specs. spec_in_range lib spec \<Longrightarrow> exp_law lib \<Longrightarrow> devices_safe lib w \<Longrightarrow>
     devices_safe lib (snd (initialize_loop lib policy specs report w))"
proof (induction specs arbitrary: report w)
  case (Cons spec specs)
  show ?case
  proof (cases "initialize_device lib spec w")
    case (Inl e)
    have "devices_safe lib (w\<lparr>w_device_registry := m_empty\<rparr>) = devices_safe lib w" by (rule devices_safe_cong) simp_all
    with Inl Cons show ?thesis by (simp add: Let_def)
  next
    case (Inr w1)
    with Cons initialize_device_safe[OF Inr] show ?thesis by simp
  qed
qed simp

lemma initialize_from_config_safe:
  assumes "\<forall>spec \<in> set (config_devices config). spec_in_range lib spec" and "exp_law lib" and "devices_safe lib w"
  shows "devices_safe lib (snd (initialize_from_config lib config w))"
proof -
  have "devices_safe lib (w\<lparr>w_device_registry := m_empty, w_config_loaded := False\<rparr>)"
    using assms(3) by (simp add: devices_safe_def)
  from initialize_loop_safe[OF assms(1,2) this] show ?thesis
    by (auto simp: initialize_from_config_def Let_def devices_safe_def split: prod.splits sum.splits) (metis snd_conv)+
qed

lemma cache_loop_safe: "exp_law lib \<Longrightarrow> devices_safe lib w \<Longrightarrow> devices_safe lib (cache_loop lib devs w)"
proof (induction devs arbitrary: w)
  case (Cons dev devs)
  have "devices_safe lib (snd (describe_device lib (d_device_id dev) w))" using safe.describing[of lib w] Cons.prems by simp
  then show ?case using Cons.IH Cons.prems(1) by (simp add: Let_def case_prod_beta devices_safe_def)
qed simp

lemma cache_device_capabilities_safe:
  assumes "exp_law lib" and "devices_safe lib w"
  shows "devices_safe lib (cache_device_capabilities lib w)"
proof -
  have "devices_safe lib (w\<lparr>w_function_ids := m_empty\<rparr>)" using assms(2) by (simp add: devices_safe_def)
  with assms(1) have "devices_safe lib (snd (list_devices lib False (w\<lparr>w_function_ids := m_empty\<rparr>)))"
    using safe.listing[of lib "w\<lparr>w_function_ids := m_empty\<rparr>" False] by simp
  with assms(1) show ?thesis by (simp add: cache_device_capabilities_def Let_def case_prod_beta cache_loop_safe)
qed

lemma foldl_keeps: "(\<And>w x. I w \<Longrightarrow> I (f w x)) \<Longrightarrow> I w \<Longrightarrow> I (foldl f w xs)"
  by (induction xs arbitrary: w) auto

lemma devices_safe_updates [simp]:
  "devices_safe lib (w\<lparr>w_output_paths := ps\<rparr>) = devices_safe lib w"
  "devices_safe lib (w\<lparr>w_signal_registry := r\<rparr>) = devices_safe lib w"
  by (simp_all add: devices_safe_def)

lemma rebuild_safe: "devices_safe lib w \<Longrightarrow> devices_safe lib (rebuild_physics_output_paths ls config ids w)"
  unfolding rebuild_physics_output_paths_def Let_def
  by (auto split: option.split intro!: foldl_keeps[of "devices_safe lib"])

lemma initialize_physics_safe:
  assumes "exp_law lib" and "devices_safe lib w"
  shows "devices_safe lib (snd (initialize_physics lib ls config ids w))"
proof -
  let ?w = "w\<lparr>w_mode := simulation_mode config, w_tick_rate := value_or (tick_rate_hz config) (Fin 10)\<rparr>"
  obtain exn w1 where c: "configure_simulation_inputs config ?w = (exn, w1)" by (metis prod.exhaust)
  have w1: "devices_safe lib w1"
    using c assms(2) by (auto simp: configure_simulation_inputs_def Let_def devices_safe_def split: if_splits option.splits)
  let ?w2 = "w1\<lparr>w_signal_registry := Some (set_device_reader (Some DeviceSignalReader) empty_registry)\<rparr>"
  have "devices_safe lib ?w2" using w1 by (simp add: devices_safe_def)
  then have "devices_safe lib (rebuild_physics_output_paths ls config ids (cache_device_capabilities lib ?w2))"
    by (rule rebuild_safe[OF cache_device_capabilities_safe[OF assms(1)]])
  with w1 show ?thesis by (simp add: initialize_physics_def c Let_def split: option.split)
qed

text \<open>
  The states the process reaches: from the state before \<open>main\<close>, by the start-up and shut-down
  operations and by atomic steps, in any order. The simulation engine is arbitrary.
\<close>

inductive process_reachable :: "'g lib \<Rightarrow> ('g, 'e) world \<Rightarrow> bool" for lib where
  before_main: "process_reachable lib (initial_world g)"
| running: "process_reachable lib w \<Longrightarrow> atomic_step lib w w' \<Longrightarrow> process_reachable lib w'"
| devices: "process_reachable lib w \<Longrightarrow> \<forall>spec \<in> set (config_devices config). spec_in_range lib spec \<Longrightarrow>
    process_reachable lib (snd (initialize_from_config lib config w))"
| engine: "process_reachable lib w \<Longrightarrow> process_reachable lib (set_simulation_engine e w)"
| physics: "process_reachable lib w \<Longrightarrow> process_reachable lib (snd (initialize_physics lib ls config ids w))"
| started: "process_reachable lib w \<Longrightarrow> process_reachable lib (start_physics w)"
| stopped: "process_reachable lib w \<Longrightarrow> process_reachable lib (stop_physics w)"
| forgotten: "process_reachable lib w \<Longrightarrow> process_reachable lib (factory_reset w)"

lemma initial_world_safe: "devices_safe lib (initial_world g)"
  by (simp add: devices_safe_def initial_world_def tempctl_default_safe motorctl_default_safe)

lemma reachable_safe:
  "process_reachable lib w \<Longrightarrow> exp_law lib \<Longrightarrow> devices_safe lib w"
proof (induction rule: process_reachable.induct)
  case (running w w')
  then show ?case using safe.kept[of lib w w'] by simp
next
  case (started w)
  then show ?case by (simp add: devices_safe_def start_physics_def)
next
  case (engine w e)
  then show ?case by (simp add: devices_safe_def set_simulation_engine_def)
next
  case (stopped w)
  then show ?case by (simp add: devices_safe_def stop_physics_def)
next
  case (forgotten w)
  then show ?case by (simp add: devices_safe_def factory_reset_def)
qed (simp_all add: initial_world_safe initialize_from_config_safe initialize_physics_safe)

lemma reachable_steps: "process_reachable lib w \<Longrightarrow> atomic_steps lib w w' \<Longrightarrow> process_reachable lib w'"
  by (rotate_tac, induction rule: rtranclp_induct) (auto intro: process_reachable.running)

lemma reachable_in_range:
  assumes "exp_law lib" and "process_reachable lib w"
  shows "tempctl_safe (tempctl_at d (w_tempctl w)) \<and> motorctl_safe (motorctl_at d (w_motorctl w)) \<and>
    sensor_quality (analogsensor_at lib d (w_analog w)) \<in> {''GOOD'', ''NOISY'', ''FAULT''}"
  using reachable_safe[OF assms(2,1)] by (auto simp: devices_safe_def analogsensor_wf_def quality_rank_def split: if_splits)

section \<open>Properties\<close>

definition example_physics_config :: provider_config where
  "example_physics_config = \<lparr>config_file_path = ''c'', provider_name = None, startup_policy = Strict, config_devices = [],
     simulation_mode = NonInteracting, tick_rate_hz = Some (Fin 10), physics_config_path = None, ambient_temp_c = None,
     ambient_signal_path = None\<rparr>"

text \<open>C2. The whole process keeps its devices in range. From the state before \<open>main\<close>, through any
  sequence of start-up, shut-down, request handling and ticking, with the handlers and the ticker
  interleaved access by access and with any faults injected, every temperature stays a finite
  number between -51.5 and 400 degrees, every setpoint inside its bounds, every motor speed between
  zero and the motor's positive maximum of at most 10000, every duty in the unit interval and every
  sensor quality one of the three, provided the configured initial values are in range.\<close>

theorem process_devices_stay_safe:
  assumes "exp_law lib" and "process_reachable lib w"
  shows "tempctl_safe (tempctl_at d (w_tempctl w)) \<and> motorctl_safe (motorctl_at d (w_motorctl w)) \<and>
    sensor_quality (analogsensor_at lib d (w_analog w)) \<in> {''GOOD'', ''NOISY'', ''FAULT''}"
  by (rule reachable_in_range[OF assms])

theorem process_devices_stay_safe_witness:
  "tempctl_safe (tempctl_at ''tempctl0'' (w_tempctl (snd (tick_body ref_lib example_server
     (set_simulation_engine (LocalEngine 0) (snd (initialize_physics ref_lib engine_list_signals example_physics_config []
       ((initial_world 0 :: (nat, nat engine) world)\<lparr>w_now := 100000000, w_system_now := 0\<rparr>))))))))"
  (is "tempctl_safe (tempctl_at _ (w_tempctl (snd (tick_body _ _ ?w))))")
proof (rule process_devices_stay_safe[OF exp_law_ref, THEN conjunct1])
  have "process_reachable ref_lib ?w"
    by (intro process_reachable.engine process_reachable.physics
        process_reachable.running[OF process_reachable.before_main atomic_step.time]) (simp add: initial_world_def)
  moreover have "wf_server example_server" by (simp add: wf_server_def example_server_def)
  ultimately show "process_reachable ref_lib (snd (tick_body ref_lib example_server ?w))"
    using tick_body_steps reachable_steps by blast
qed

text \<open>C14. The operations of the two threads interleave at the grain of the modules' own accesses: a call,
  a read, an inventory, a description, a resolution and one whole tick of the ticker, with the
  physics step, the sensor values and the commands of the engine, are each a sequence of such
  accesses. In particular a tick moves no device by more than a quarter of a second at a time, and
  whatever one access keeps, they keep.\<close>

theorem operations_are_access_sequences:
  assumes "wf_server srv" and "wf_args as"
  shows "atomic_steps lib w (snd (tick_body lib srv w)) \<and>
    atomic_steps lib u (snd (call_function lib d f as u)) \<and>
    atomic_steps lib u (snd (read_signals lib d ids u)) \<and>
    atomic_steps lib u (snd (list_devices lib h u)) \<and>
    atomic_steps lib u (snd (describe_device lib d u)) \<and>
    atomic_steps lib u (snd (resolve_function_id lib d n u))"
  by (simp add: tick_body_steps[OF assms(1)] call_function_steps[OF assms(2)] read_signals_steps list_devices_steps
      describe_device_steps resolve_function_id_steps)

theorem operations_are_access_sequences_witness:
  "atomic_steps ref_lib (initial_world 0 :: (nat, nat engine) world) (snd (tick_body ref_lib example_server (initial_world 0)))"
  using operations_are_access_sequences[where srv = example_server and as = m_empty and lib = ref_lib
      and w = "initial_world 0 :: (nat, nat engine) world" and u = "initial_world 0 :: (nat, nat engine) world"]
  by (simp add: wf_server_def example_server_def)

text \<open>C29. The catch-up loop of the ticker, which reads the flag before every turn while the other threads
  go on. It leaves the schedule at a whole number of periods further on, at the first turn that
  finds the schedule ahead of now or the ticker stopped, the other threads having run once per turn;
  it does not return exactly when no turn ever finds that. With a positive period it always returns,
  and unless the ticker is stopped meanwhile it leaves the first tick of the schedule after now. With a period
  that is not positive, once behind, only a stop ends it.\<close>

theorem ticker_catch_up:
  "(case catch_up d now others n w of
      None \<Rightarrow> \<forall>k. n + int k * d \<le> now \<and> w_ticker_running (after_turns k others w)
    | Some (m, w') \<Rightarrow>
        (\<exists>k. m = n + int k * d \<and> w' = after_turns k others w \<and> (now < m \<or> \<not> w_ticker_running w') \<and>
          (\<forall>j < k. n + int j * d \<le> now \<and> w_ticker_running (after_turns j others w)))) \<and>
   (0 < d \<longrightarrow> catch_up d now others n w \<noteq> None) \<and>
   (0 < d \<and> (\<forall>k. w_ticker_running (after_turns k others w)) \<longrightarrow>
      map_option fst (catch_up d now others n w) =
        Some (if now < n then n else n + ((now - n) div d + 1) * d)) \<and>
   (d \<le> 0 \<longrightarrow>
      (catch_up d now others n w = None \<longleftrightarrow> n \<le> now \<and> (\<forall>k. w_ticker_running (after_turns k others w))))"
proof (intro conjI impI)
  show "case catch_up d now others n w of
      None \<Rightarrow> \<forall>k. n + int k * d \<le> now \<and> w_ticker_running (after_turns k others w)
    | Some (m, w') \<Rightarrow>
        (\<exists>k. m = n + int k * d \<and> w' = after_turns k others w \<and> (now < m \<or> \<not> w_ticker_running w') \<and>
          (\<forall>j < k. n + int j * d \<le> now \<and> w_ticker_running (after_turns j others w)))"
    by (cases rule: catch_up_cases[of d now others n w]) (auto simp: takes_turn_def not_le)
next
  assume "0 < d"
  then show "catch_up d now others n w \<noteq> None"
    using catch_up_returns[of d now others n w] by (metis option.distinct(1))
next
  assume d: "0 < d \<and> (\<forall>k. w_ticker_running (after_turns k others w))"
  then obtain k where k: "\<And>j. j < k \<Longrightarrow> takes_turn d now others n w j" "\<not> takes_turn d now others n w k"
    "catch_up d now others n w = Some (n + int k * d, after_turns k others w)"
    using catch_up_returns[of d now others n w] by metis
  then have after: "now < n + int k * d" using d by (simp add: takes_turn_def)
  show "map_option fst (catch_up d now others n w) = Some (if now < n then n else n + ((now - n) div d + 1) * d)"
  proof (cases "now < n")
    case True
    then have "k = 0" using k(1)[of 0] by (cases k) (auto simp: takes_turn_def)
    with True k(3) show ?thesis by simp
  next
    case False
    with after obtain i where i: "k = Suc i" by (cases k) auto
    then have "n + int k * d \<le> now + d" using k(1)[of i] by (simp add: takes_turn_def algebra_simps)
    with first_tick_after[of d n k now] d after False k(3) show ?thesis by simp
  qed
next
  assume d: "d \<le> 0"
  have down: "n + int k * d \<le> now" if "n \<le> now" for k
  proof -
    have "int k * d \<le> 0" using d by (simp add: mult_nonneg_nonpos)
    with that show ?thesis by linarith
  qed
  show "catch_up d now others n w = None \<longleftrightarrow> n \<le> now \<and> (\<forall>k. w_ticker_running (after_turns k others w))"
  proof (cases rule: catch_up_cases[of d now others n w])
    case (exits k)
    with down show ?thesis by (auto simp: takes_turn_def)
  next
    case spins
    then show ?thesis using spins(1)[rule_format, of 0] by (auto simp: takes_turn_def)
  qed
qed

theorem ticker_catch_up_witness:
  "map_option fst (catch_up 10 35 (sconst (\<lambda>w. w)) 0 ((initial_world 0 :: (nat, nat engine) world)\<lparr>w_ticker_running := True\<rparr>)) =
     Some 40"
proof -
  have "after_turns k (sconst (\<lambda>w. w)) v = v" for k and v :: "(nat, nat engine) world"
    by (induction k) simp_all
  then show ?thesis
    using ticker_catch_up[where d = 10 and now = 35 and others = "sconst (\<lambda>w. w)" and n = 0 and
        w = "(initial_world 0 :: (nat, nat engine) world)\<lparr>w_ticker_running := True\<rparr>"]
    by simp
qed

definition quiet :: "(nat, nat engine) interferences" where
  "quiet = (\<lambda>w. w, sconst (\<lambda>w. w), \<lambda>w. w)"

text \<open>C5. The ticker keeps its cadence. At every tick rate the configuration accepts the period is
  between a millisecond and ten seconds, and the thread gets through any number of rounds, whatever
  the handlers do and however long a round takes: every wake-up is a whole number of periods after
  the thread started, at least one per round, and never before its time. The devices that can be
  addressed, the mode and the inputs stay as start-up left them.\<close>

theorem ticker_keeps_cadence:
  assumes "wf_server srv" and "tick_rate_ok (Some rate)" and "w_ticker_running w" and "w_engine w \<noteq> None"
    and "\<forall>(f, sp, g) \<in> set rounds. interferes lib f \<and> (\<forall>h \<in> sset sp. interferes lib h) \<and> interferes lib g"
  shows "1000000 \<le> tick_duration rate \<and> tick_duration rate \<le> 10000000000 \<and>
    (\<exists>k w'. ticker_thread_func lib srv rate rounds w = Some (w_now w + int k * tick_duration rate, w') \<and>
       length rounds \<le> k \<and> w_now w + int k * tick_duration rate \<le> w_now w' \<and>
       (\<forall>d. adapter_by_id lib d w' = adapter_by_id lib d w) \<and> w_mode w' = w_mode w \<and> w_ambient w' = w_ambient w)"
proof -
  note d = tick_duration_bounds[OF assms(2)]
  then have "0 < tick_duration rate" by simp
  from ticker_loop_prefix[OF assms(1) this assms(3,4,5) order_refl, of "[]"]
  obtain k w' where run: "ticker_loop lib srv (tick_duration rate) rounds (w_now w) w = Some (w_now w + int k * tick_duration rate, w')"
    "length rounds \<le> k" "w_now w + int k * tick_duration rate \<le> w_now w'" "atomic_steps lib w w'" by auto
  have "set_up w' = set_up w" using atomic_steps_frame[OF run(4)] by simp
  then show ?thesis
    using run d set_up_addressable(1)[of w' w lib]
    by (intro conjI exI[of _ k] exI[of _ w']) (simp_all add: ticker_thread_func_def set_up_def)
qed

theorem ticker_keeps_cadence_witness:
  "\<exists>k w'. ticker_thread_func ref_lib example_server (Fin 10) [quiet, quiet]
     ((initial_world 0 :: (nat, nat engine) world)\<lparr>w_engine := Some (LocalEngine 0), w_ticker_running := True\<rparr>) =
       Some (int k * tick_duration (Fin 10), w') \<and> Suc (Suc 0) \<le> k"
proof -
  let ?w = "(initial_world 0 :: (nat, nat engine) world)\<lparr>w_engine := Some (LocalEngine 0), w_ticker_running := True\<rparr>"
  have "wf_server example_server" by (simp add: wf_server_def example_server_def)
  moreover have "tick_rate_ok (Some (Fin 10))"
    using round53_int_bounds[of 0 "1 / 10" 1] by (simp add: tick_rate_ok_def round53_tenth)
  moreover have "\<forall>(f, sp, g) \<in> set [quiet, quiet]. interferes ref_lib f \<and> (\<forall>h \<in> sset sp. interferes ref_lib h) \<and> interferes ref_lib g"
    by (simp add: interferes_def quiet_def)
  ultimately show ?thesis
    using ticker_keeps_cadence[where srv = example_server and rate = "Fin 10" and w = ?w and lib = ref_lib and
        rounds = "[quiet, quiet]"]
    by (simp add: initial_world_def) blast
qed







end
