(* ===== verification/Runtime.thy ===== *)
theory Runtime
  imports Device_Manager
begin

text \<open>
  \<open>src/core/sim_provider_runtime.hpp\<close> and \<open>.cpp\<close>: what the provider SDK asks of this
  provider, answered by the manager, the fault table and the start-up report. The records whose
  fields the code fills are the SDK's; a field the code leaves at its default is left out.
\<close>

section \<open>The records of the SDK\<close>

type_synonym int32 = "32 word"

record provider_metadata =
  meta_name :: string
  meta_version :: string
  meta_protocol_version :: string
  meta_hello_extra :: "(string, string) smap"

record readiness_report =
  rr_ready :: bool
  rr_configured_device_count :: int32
  rr_successful_device_ids :: "string list"
  rr_failed_devices :: "(string \<times> string \<times> string) list"   \<comment> \<open>id, type and reason\<close>
  rr_startup_policy :: string
  rr_provider_impl :: string
  rr_extra_diagnostics :: "(string, string) smap"

record device_health_extra =
  dhe_metrics :: "(string, string) smap"

record adapter_read_result =
  arr_ok :: bool
  arr_error_code :: status_code
  arr_error_message :: string
  arr_values :: "signal_value list"

record adapter_call_result =
  acr_ok :: bool
  acr_error_code :: status_code
  acr_error_message :: string

section \<open>Identity and readiness\<close>

text \<open>\<open>version\<close> is the macro the build sets.\<close>

definition rt_metadata :: "string \<Rightarrow> provider_metadata" where
  "rt_metadata version = \<lparr>meta_name = ''anolis-provider-sim'', meta_version = version, meta_protocol_version = ''v1'',
     meta_hello_extra = m_put ''supports_wait_ready'' ''true'' m_empty\<rparr>"

definition rt_readiness :: "initialization_report \<Rightarrow> readiness_report" where
  "rt_readiness report = \<lparr>rr_ready = True,
     rr_configured_device_count = of_nat (configured_device_count report),
     rr_successful_device_ids = successful_device_ids report,
     rr_failed_devices = map (\<lambda>failure. (dif_device_id failure, dif_type failure,
        ''startup initialization failed: '' @ dif_reason failure)) (failed_devices report),
     rr_startup_policy = (if report_startup_policy report = Strict then ''strict'' else ''degraded''),
     rr_provider_impl = ''sim'',
     rr_extra_diagnostics = m_put ''init_time_ms'' ''0'' m_empty\<rparr>"

definition rt_device_health :: "initialization_report \<Rightarrow> string \<Rightarrow> device_health_extra" where
  "rt_device_health report device_id =
    (let metrics = m_put ''impl'' ''sim'' m_empty in
     case find (\<lambda>failure. dif_device_id failure = device_id) (failed_devices report) of
       None \<Rightarrow> \<lparr>dhe_metrics = metrics\<rparr>
     | Some failure \<Rightarrow>
         \<lparr>dhe_metrics = m_put ''device_type'' (dif_type failure) (m_put ''startup_failure'' ''true'' metrics)\<rparr>)"

section \<open>Inventory\<close>

definition rt_list_device_ids :: "'g lib \<Rightarrow> ('g, 'e) world \<Rightarrow> string list \<times> ('g, 'e) world" where
  "rt_list_device_ids lib w = (let (devs, w) = list_devices lib False w in (map d_device_id devs, w))"

definition rt_has_device :: "'g lib \<Rightarrow> string \<Rightarrow> ('g, 'e) world \<Rightarrow> bool \<times> ('g, 'e) world" where
  "rt_has_device lib device_id w =
    (let (unavailable, w) = w_is_device_unavailable device_id w in
     if unavailable then (False, w) else (adapter_by_id lib device_id w \<noteq> None, w))"

definition rt_device_info :: "'g lib \<Rightarrow> string \<Rightarrow> ('g, 'e) world \<Rightarrow> device" where
  "rt_device_info lib device_id w =
    (case adapter_by_id lib device_id w of
       None \<Rightarrow> empty_device
     | Some adapter \<Rightarrow> da_get_device_info adapter device_id False)"

definition rt_capabilities :: "'g lib \<Rightarrow> string \<Rightarrow> ('g, 'e) world \<Rightarrow> capability_set \<times> ('g, 'e) world" where
  "rt_capabilities lib device_id w = describe_device lib device_id w"

section \<open>Reads and calls\<close>

definition rt_read :: "'g lib \<Rightarrow> string \<Rightarrow> string list \<Rightarrow> ('g, 'e) world \<Rightarrow> adapter_read_result \<times> ('g, 'e) world" where
  "rt_read lib device_id sids w =
    (let (unreachable, w) = w_is_device_unreachable device_id w in
     if unreachable
     then (\<lparr>arr_ok = False, arr_error_code = CODE_UNAVAILABLE, arr_error_message = ''device unreachable (injected fault)'',
            arr_values = []\<rparr>, w)
     else let (values, w) = read_signals lib device_id sids w
          in (\<lparr>arr_ok = True, arr_error_code = CODE_OK, arr_error_message = [], arr_values = values\<rparr>, w))"

text \<open>The entries of the SDK's \<open>ValueMap\<close> in the order of its iteration; \<open>emplace\<close> keeps what is there.\<close>

definition arg_map :: "(string \<times> pb_value) list \<Rightarrow> args" where
  "arg_map args = foldl (\<lambda>m (key, value). if m_mem key m then m else m_put key value m) m_empty args"

definition rt_call ::
  "'g lib \<Rightarrow> string \<Rightarrow> uint32 \<Rightarrow> (string \<times> pb_value) list \<Rightarrow> ('g, 'e) world \<Rightarrow> adapter_call_result \<times> ('g, 'e) world" where
  "rt_call lib device_id function_id args w =
    (let (unreachable, w) = w_is_device_unreachable device_id w in
     if unreachable
     then (\<lparr>acr_ok = False, acr_error_code = CODE_UNAVAILABLE, acr_error_message = ''device unreachable (injected fault)''\<rparr>, w)
     else let (result, w) = call_function lib device_id function_id (arg_map args) w
          in (\<lparr>acr_ok = (cr_code result = CODE_OK), acr_error_code = cr_code result, acr_error_message = cr_message result\<rparr>, w))"

definition rt_resolve_function_id ::
  "'g lib \<Rightarrow> string \<Rightarrow> string \<Rightarrow> ('g, 'e) world \<Rightarrow> uint32 option \<times> ('g, 'e) world" where
  "rt_resolve_function_id lib device_id function_name w = resolve_function_id lib device_id function_name w"

section \<open>Queries of the fault table\<close>

text \<open>A query drops what has expired and changes no answer of another.\<close>

definition after_unavailable :: "string \<Rightarrow> ('g, 'e) world \<Rightarrow> ('g, 'e) world" where
  "after_unavailable d w = w\<lparr>w_faults := snd (is_device_unavailable d (w_now w) (w_faults w))\<rparr>"

definition after_unreachable :: "string \<Rightarrow> ('g, 'e) world \<Rightarrow> ('g, 'e) world" where
  "after_unreachable d w = w\<lparr>w_faults := snd (is_device_unreachable d (w_now w) (w_faults w))\<rparr>"

lemma query_unavailable: "w_is_device_unavailable d w = (unavailable_now d w, after_unavailable d w)"
  by (simp add: unavailable_state after_unavailable_def)

lemma query_unreachable: "w_is_device_unreachable d w = (unreachable_now d w, after_unreachable d w)"
  by (simp add: w_is_device_unreachable_def unreachable_now_def after_unreachable_def case_prod_beta)

lemma after_unavailable_simps [simp]:
  "unavailable_now d' (after_unavailable d w) = unavailable_now d' w"
  "faulted_now d' sg (after_unavailable d w) = faulted_now d' sg w"
  "adapter_by_id lib d' (after_unavailable d w) = adapter_by_id lib d' w"
  "device_view lib d' (after_unavailable d w) = device_view lib d' w"
  "w_now (after_unavailable d w) = w_now w"
  using unavailable.query_stable[of d "w_now w" "w_faults w"] unavailable.query_other_device[of d' d "w_now w" "w_now w" "w_faults w"]
  by (cases "d' = d") (simp_all add: after_unavailable_def unavailable_now_def faulted_now_def signal_fault_active_def)

lemma after_unreachable_simps [simp]:
  "unavailable_now d' (after_unreachable d w) = unavailable_now d' w"
  "faulted_now d' sg (after_unreachable d w) = faulted_now d' sg w"
  "adapter_by_id lib d' (after_unreachable d w) = adapter_by_id lib d' w"
  "device_view lib d' (after_unreachable d w) = device_view lib d' w"
  "w_now (after_unreachable d w) = w_now w"
  by (simp_all add: after_unreachable_def unavailable_now_def faulted_now_def signal_fault_active_def unavailable_value
      unavailable_deadline_def)

lemma fails_after_unreachable [simp]: "fails_now lib d' f (after_unreachable d w) = fails_now lib d' f w"
proof -
  have "failure_rate_of d' g (w_faults (after_unreachable d w)) = failure_rate_of d' g (w_faults w)" for g
    by (simp add: after_unreachable_def failure_rate_of_def)
  moreover have "fault_rng (w_faults (after_unreachable d w)) = fault_rng (w_faults w)"
    by (simp add: after_unreachable_def)
  ultimately show ?thesis unfolding fails_now_def by (simp split: option.split)
qed

lemma faulted_after_query:
  "faulted_now d' sg' (w\<lparr>w_faults := snd (is_signal_faulted d sg (w_now w) (w_faults w))\<rparr>) = faulted_now d' sg' w"
  by (simp add: faulted_now_def is_signal_faulted_purge)

lemma mark_faulted_fst:
  "fst (mark_faulted d sigs w) =
     map (\<lambda>v. if faulted_now d (sv_signal_id v) w then v\<lparr>sv_quality := QUALITY_FAULT\<rparr> else v) sigs"
proof (induction sigs arbitrary: w)
  case (Cons v sigs)
  let ?w = "w\<lparr>w_faults := snd (is_signal_faulted d (sv_signal_id v) (w_now w) (w_faults w))\<rparr>"
  have "w_is_signal_faulted d (sv_signal_id v) w = (faulted_now d (sv_signal_id v) w, ?w)"
    by (simp add: w_is_signal_faulted_def faulted_now_def case_prod_beta flip: is_signal_faulted_iff)
  then show ?case using Cons.IH[of ?w] by (simp add: case_prod_beta Let_def faulted_after_query)
qed simp

lemma mark_faulted_view: "device_view lib d' (snd (mark_faulted d sigs w)) = device_view lib d' w"
  by (induction sigs arbitrary: w) (simp_all add: case_prod_beta Let_def w_is_signal_faulted_def)

lemma adapter_read_faults:
  assumes "adapter_by_id lib d0 w0 = Some a"
  shows "faulted_now d' sg (snd (da_read_signals a d ids w)) = faulted_now d' sg w"
  by (cases rule: adapter_cases[OF assms]) (simp_all add: adapter_defs case_prod_beta faulted_now_def)

text \<open>What a read of the manager returns.\<close>

lemma read_signals_values:
  "fst (read_signals lib d ids w) =
     (if unavailable_now d w then []
      else case adapter_by_id lib d w of
             None \<Rightarrow> []
           | Some a \<Rightarrow> map (\<lambda>v. if faulted_now d (sv_signal_id v) w then v\<lparr>sv_quality := QUALITY_FAULT\<rparr> else v)
               (fst (da_read_signals a d ids (after_unavailable d w))))"
  by (auto simp: read_signals_def query_unavailable case_prod_beta Let_def mark_faulted_fst adapter_read_faults split: option.split)

lemma read_signals_view: "d' \<noteq> d \<Longrightarrow> device_view lib d' (snd (read_signals lib d ids w)) = device_view lib d' w"
  by (auto simp: mark_faulted_view adapter_read_view read_signals_def query_unavailable case_prod_beta Let_def split: option.split)

section \<open>The inventory\<close>

lemma device_info_id: "d_device_id (da_get_device_info (adapter_for lib ty) d h) = d"
  by (cases ty) (simp_all add: adapter_for_def adapter_defs tempctl_get_device_info_def motorctl_get_device_info_def
      relayio_get_device_info_def analogsensor_get_device_info_def)

lemma adapter_info_id:
  "adapter_by_id lib d w = Some a \<Longrightarrow> d \<noteq> chaos_kDeviceId \<Longrightarrow> d_device_id (da_get_device_info a d h) = d"
  by (auto elim!: adapter_by_id_cases simp: device_info_id)

lemma list_loop_ids:
  "\<forall>e \<in> set es. re_id e \<noteq> chaos_kDeviceId \<Longrightarrow>
     map d_device_id (fst (list_loop lib h es w)) =
       filter (\<lambda>d. \<not> unavailable_now d w \<and> adapter_by_id lib d w \<noteq> None) (map re_id es)"
proof (induction es arbitrary: w)
  case (Cons e es)
  have "map d_device_id (fst (list_loop lib h es (after_unavailable (re_id e) w))) =
      filter (\<lambda>d. \<not> unavailable_now d w \<and> adapter_by_id lib d w \<noteq> None) (map re_id es)"
    using Cons.IH[of "after_unavailable (re_id e) w"] Cons.prems by simp
  then show ?case
    using Cons.prems by (auto simp: query_unavailable case_prod_beta Let_def adapter_info_id split: option.split)
qed simp

lemma registered_iff_key: "is_device_registered d w \<longleftrightarrow> d \<in> set (m_keys (w_device_registry w))"
  by (simp only: is_device_registered_def m_mem_def m_mem_iff[symmetric])

lemma registered_ids: "registry_ok w \<Longrightarrow> map re_id (get_registered_devices w) = m_keys (w_device_registry w)"
  by (auto simp: registry_ok_def get_registered_devices_def m_keys_def dest!: m_find_of_member)

lemma list_device_ids:
  assumes "registry_ok w" and "w_config_loaded w" and "\<not> is_device_registered chaos_kDeviceId w"
  shows "fst (rt_list_device_ids lib w) = filter (\<lambda>d. \<not> unavailable_now d w) (m_keys (w_device_registry w)) @ [chaos_kDeviceId]"
proof -
  note reg = registered_iff_key
  have "\<forall>e \<in> set (get_registered_devices w). re_id e \<noteq> chaos_kDeviceId"
    using assms(3) unfolding reg registered_ids[OF assms(1), symmetric] by force
  moreover have "filter (\<lambda>d. \<not> unavailable_now d w \<and> adapter_by_id lib d w \<noteq> None) (m_keys (w_device_registry w)) =
      filter (\<lambda>d. \<not> unavailable_now d w) (m_keys (w_device_registry w))"
  proof (rule filter_cong[OF refl])
    fix d
    assume "d \<in> set (m_keys (w_device_registry w))"
    then have "adapter_by_id lib d w \<noteq> None" using adapter_of_registered[OF assms(1,2), of lib d] unfolding reg by blast
    then show "(\<not> unavailable_now d w \<and> adapter_by_id lib d w \<noteq> None) = (\<not> unavailable_now d w)" by simp
  qed
  ultimately show ?thesis
    using assms(2) list_loop_ids[of "get_registered_devices w" lib False w]
    by (simp add: rt_list_device_ids_def list_devices_def case_prod_beta Let_def registered_ids[OF assms(1)] chaos_get_device_info_def)
qed

section \<open>Properties\<close>

text \<open>C18. The inventory and the gate of the provider agree. The inventory lists, in order and without
  repetition, the registered devices that are not made unavailable, and the chaos device last; the
  gate admits exactly the devices that are listed and not unavailable, so the two differ only on a
  chaos device that has been made unavailable itself. A device that is admitted describes itself
  under its own id, with the signals and functions its adapter advertises.\<close>

theorem runtime_inventory_and_gate:
  assumes "registry_ok w" and "w_config_loaded w" and "\<not> is_device_registered chaos_kDeviceId w"
  shows "fst (rt_list_device_ids lib w) = filter (\<lambda>d. \<not> unavailable_now d w) (m_keys (w_device_registry w)) @ [chaos_kDeviceId] \<and>
    distinct (fst (rt_list_device_ids lib w)) \<and>
    (fst (rt_has_device lib d w) \<longleftrightarrow> d \<in> set (fst (rt_list_device_ids lib w)) \<and> \<not> unavailable_now d w) \<and>
    (fst (rt_has_device lib d w) \<longrightarrow> d_device_id (rt_device_info lib d w) = d \<and>
       (\<exists>a. adapter_by_id lib d w = Some a \<and>
          signal_ids (fst (rt_capabilities lib d w)) = signal_ids (da_get_capabilities a) \<and>
          function_ids (fst (rt_capabilities lib d w)) = function_ids (da_get_capabilities a)))"
proof (intro conjI)
  note ids = list_device_ids[OF assms, of lib]
  note reg = registered_iff_key
  show "fst (rt_list_device_ids lib w) = filter (\<lambda>d. \<not> unavailable_now d w) (m_keys (w_device_registry w)) @ [chaos_kDeviceId]"
    by (rule ids)
  show "distinct (fst (rt_list_device_ids lib w))"
    using assms(1,3) by (simp add: ids reg registry_ok_def m_ok_distinct)
  have has: "fst (rt_has_device lib d w) \<longleftrightarrow> \<not> unavailable_now d w \<and> adapter_by_id lib d w \<noteq> None"
    by (simp add: rt_has_device_def query_unavailable)
  then show "fst (rt_has_device lib d w) \<longleftrightarrow> d \<in> set (fst (rt_list_device_ids lib w)) \<and> \<not> unavailable_now d w"
    using adapter_of_registered[OF assms(1,2), of lib d] unfolding ids reg by auto
  show "fst (rt_has_device lib d w) \<longrightarrow> d_device_id (rt_device_info lib d w) = d \<and>
       (\<exists>a. adapter_by_id lib d w = Some a \<and>
          signal_ids (fst (rt_capabilities lib d w)) = signal_ids (da_get_capabilities a) \<and>
          function_ids (fst (rt_capabilities lib d w)) = function_ids (da_get_capabilities a))"
  proof
    assume "fst (rt_has_device lib d w)"
    then obtain a where a: "adapter_by_id lib d w = Some a" "\<not> unavailable_now d w" using has by auto
    have "d_device_id (da_get_device_info a d False) = d"
      using a(1) adapter_info_id[OF a(1)] by (cases "d = chaos_kDeviceId") (auto simp: adapter_by_id_def kChaos_def chaos_get_device_info_def)
    with a show "d_device_id (rt_device_info lib d w) = d \<and>
       (\<exists>a. adapter_by_id lib d w = Some a \<and>
          signal_ids (fst (rt_capabilities lib d w)) = signal_ids (da_get_capabilities a) \<and>
          function_ids (fst (rt_capabilities lib d w)) = function_ids (da_get_capabilities a))"
      by (simp add: rt_device_info_def rt_capabilities_def describe_device_def query_unavailable signal_ids_def function_ids_def comp_def Let_def)
  qed
qed

definition example_process :: "(nat, unit) world" where
  "example_process = (initial_world 0)\<lparr>w_config_loaded := True,
     w_device_registry := m_put ''m0'' \<lparr>re_id = ''m0'', re_type = ''motorctl'', re_config = m_empty\<rparr> m_empty\<rparr>"

lemma example_process_ok:
  "registry_ok example_process" "w_config_loaded example_process" "\<not> is_device_registered chaos_kDeviceId example_process"
  by (auto simp: example_process_def registry_ok_def sim_device_type_from_string_def is_device_registered_def chaos_kDeviceId_def)

theorem runtime_inventory_and_gate_witness:
  "fst (rt_list_device_ids ref_lib example_process) = [''m0'', ''chaos_control'']"
proof -
  have "unavailable_now ''m0'' example_process = False"
    by (simp add: unavailable_now_def is_device_unavailable_def example_process_def initial_world_def init_fault_state_def)
  then show ?thesis
    using runtime_inventory_and_gate[OF example_process_ok, where lib = ref_lib and d = "''m0''", THEN conjunct1]
    by (simp add: example_process_def chaos_kDeviceId_def m_empty_def)
qed

text \<open>C16. What a read answers. A device made unreachable fails the read as a whole, with the code
  \<open>UNAVAILABLE\<close> and no value; otherwise the read succeeds. It then returns nothing for an unavailable or unknown
  device, and else the requested signals the device advertises, in order, each with the quality
  \<open>FAULT\<close> exactly while a fault is injected for it. No read changes the state of another device.\<close>

theorem runtime_read_contract:
  assumes "ids \<noteq> []" and "rt_read lib d ids w = (r, w')"
  shows "(unreachable_now d w \<longrightarrow> \<not> arr_ok r \<and> arr_error_code r = CODE_UNAVAILABLE \<and> arr_values r = []) \<and>
    (\<not> unreachable_now d w \<longrightarrow> arr_ok r \<and> arr_error_code r = CODE_OK \<and>
       map sv_signal_id (arr_values r) =
         (if unavailable_now d w then []
          else case adapter_by_id lib d w of
                 None \<Rightarrow> []
               | Some a \<Rightarrow> filter (\<lambda>i. i \<in> set (signal_ids (da_get_capabilities a))) ids)) \<and>
    (\<forall>v \<in> set (arr_values r). sv_quality v = QUALITY_FAULT \<longleftrightarrow> faulted_now d (sv_signal_id v) w) \<and>
    (d' \<noteq> d \<longrightarrow> device_view lib d' w' = device_view lib d' w)"
proof (cases "unreachable_now d w")
  case True
  with assms(2) show ?thesis by (auto simp: rt_read_def query_unreachable)
next
  case False
  let ?w = "after_unreachable d w"
  have r: "r = \<lparr>arr_ok = True, arr_error_code = CODE_OK, arr_error_message = [], arr_values = fst (read_signals lib d ids ?w)\<rparr>"
    and w': "w' = snd (read_signals lib d ids ?w)"
    using assms(2) False by (auto simp: rt_read_def query_unreachable case_prod_beta Let_def)
  have frame: "d' \<noteq> d \<longrightarrow> device_view lib d' w' = device_view lib d' w"
    using read_signals_view[of d' d lib ids ?w] by (simp add: w')
  show ?thesis
  proof (cases "unavailable_now d w \<or> adapter_by_id lib d w = None")
    case True
    then show ?thesis using False frame by (auto simp: r read_signals_values)
  next
    case avail: False
    then obtain a where a: "adapter_by_id lib d w = Some a" "\<not> unavailable_now d w" by auto
    let ?vs = "fst (da_read_signals a d ids (after_unavailable d ?w))"
    have vs: "fst (read_signals lib d ids ?w) =
        map (\<lambda>v. if faulted_now d (sv_signal_id v) w then v\<lparr>sv_quality := QUALITY_FAULT\<rparr> else v) ?vs"
      using a by (simp add: read_signals_values)
    have "map sv_signal_id (fst (read_signals lib d ids ?w)) = map sv_signal_id ?vs"
      by (simp add: vs)
    moreover have "\<forall>v \<in> set ?vs. sv_quality v = QUALITY_OK"
      using adapter_read_advertised[OF a(1)] by (auto simp: advertised_value_def)
    then have "\<forall>v \<in> set (fst (read_signals lib d ids ?w)). sv_quality v = QUALITY_FAULT \<longleftrightarrow> faulted_now d (sv_signal_id v) w"
      by (auto simp: vs)
    ultimately show ?thesis using False frame a adapter_read_ids[OF a(1) assms(1)] by (simp add: r)
  qed
qed

theorem runtime_read_contract_witness:
  "map sv_signal_id (arr_values (fst (rt_read ref_lib ''m0'' [''motor1_speed'', ''nothing''] example_process))) = [''motor1_speed'']"
proof -
  have "unavailable_now ''m0'' example_process = False" "unreachable_now ''m0'' example_process = False"
    by (simp_all add: unavailable_now_def is_device_unavailable_def unreachable_now_def is_device_unreachable_def
        example_process_def initial_world_def init_fault_state_def)
  moreover have "adapter_by_id ref_lib ''m0'' example_process = Some (kMotorctl ref_lib)"
    by (simp add: adapter_by_id_def example_process_def chaos_kDeviceId_def is_device_registered_def get_device_type_def
        sim_device_type_from_string_def adapter_for_def)
  moreover have "set (signal_ids motorctl_get_capabilities) = {''motor1_speed'', ''motor2_speed'', ''motor1_duty'', ''motor2_duty''}"
    by (auto simp: signal_ids_def motorctl_get_capabilities_def mk_signal_def kSigMotor1Speed_def kSigMotor2Speed_def
        kSigMotor1Duty_def kSigMotor2Duty_def)
  ultimately show ?thesis
    using runtime_read_contract[OF _ prod.collapse[symmetric], where ids = "[''motor1_speed'', ''nothing'']" and lib = ref_lib and
        d = "''m0''" and w = example_process]
    by simp
qed

text \<open>C15. What a call answers. It is accepted exactly when its code is \<open>OK\<close>, and then no fault of any of
  the three kinds stands in the way (the device is neither unreachable nor unavailable, and no failure
  rule strikes this call) and the call, with the arguments as the SDK hands them over, conforms to the
  capabilities of an existing device; a device made unreachable answers \<open>UNAVAILABLE\<close> before any other
  fault, latency included, takes effect; one made unavailable and a call struck by a failure rule are
  rejected with the message of that fault, and a device that is not registered is not found; a call that
  is not accepted changes the state of no device, and one that is changes no other device's.\<close>

theorem runtime_call_contract:
  assumes "rt_call lib d f as w = (r, w')"
  shows "(acr_ok r \<longleftrightarrow> acr_error_code r = CODE_OK) \<and>
    (unreachable_now d w \<longrightarrow> acr_error_code r = CODE_UNAVAILABLE \<and> w_now w' = w_now w) \<and>
    (\<not> unreachable_now d w \<and> unavailable_now d w \<longrightarrow>
       acr_error_code r = CODE_INVALID_ARGUMENT \<and> acr_error_message r = ''device unavailable (injected fault)'' \<and>
       w_now w' = w_now w) \<and>
    (\<not> unreachable_now d w \<and> \<not> unavailable_now d w \<and> fails_now lib d f w \<longrightarrow>
       acr_error_code r = CODE_INVALID_ARGUMENT \<and> acr_error_message r = ''function call failed (injected fault)'') \<and>
    (\<not> unreachable_now d w \<and> \<not> unavailable_now d w \<and> \<not> fails_now lib d f w \<and> adapter_by_id lib d w = None \<longrightarrow>
       acr_error_code r = CODE_NOT_FOUND) \<and>
    (acr_ok r \<longrightarrow> \<not> unreachable_now d w \<and> \<not> unavailable_now d w \<and> \<not> fails_now lib d f w \<and>
       (\<exists>a. adapter_by_id lib d w = Some a \<and> call_conforms (da_get_capabilities a) f (arg_map as))) \<and>
    (d' \<noteq> d \<or> \<not> acr_ok r \<longrightarrow> device_view lib d' w' = device_view lib d' w)"
proof (cases "unreachable_now d w")
  case True
  with assms show ?thesis by (auto simp: rt_call_def query_unreachable)
next
  case False
  obtain c w1 where c: "call_function lib d f (arg_map as) (after_unreachable d w) = (c, w1)" by (metis prod.exhaust)
  have r: "acr_ok r \<longleftrightarrow> cr_code c = CODE_OK" "acr_error_code r = cr_code c" "acr_error_message r = cr_message c" "w' = w1"
    using assms False c by (auto simp: rt_call_def query_unreachable)
  note gates = call_gates[OF c, of d', unfolded after_unreachable_simps fails_after_unreachable]
  have bad: "unavailable_now d w \<longrightarrow> c = bad ''device unavailable (injected fault)''"
    and f: "\<not> unavailable_now d w \<longrightarrow> fails_now lib d f w \<longrightarrow> c = bad ''function call failed (injected fault)''"
    and found: "\<not> unavailable_now d w \<longrightarrow> \<not> fails_now lib d f w \<longrightarrow> (cr_code c = CODE_NOT_FOUND \<longleftrightarrow>
      (case adapter_by_id lib d w of None \<Rightarrow> True | Some a \<Rightarrow> f \<notin> set (function_ids (da_get_capabilities a))))"
    and ok: "cr_code c = CODE_OK \<longrightarrow> \<not> unavailable_now d w \<and> \<not> fails_now lib d f w \<and>
      (\<exists>a. adapter_by_id lib d w = Some a \<and> call_conforms (da_get_capabilities a) f (arg_map as))"
    and view: "d' \<noteq> d \<or> cr_code c \<noteq> CODE_OK \<longrightarrow> device_view lib d' w1 = device_view lib d' w"
    and clock: "w_now w1 = w_now w + (if unavailable_now d w then 0 else injected_latency d (after_unreachable d w) * 1000000)"
    using gates by (blast+)
  have n: "\<not> unavailable_now d w \<and> \<not> fails_now lib d f w \<and> adapter_by_id lib d w = None \<longrightarrow> cr_code c = CODE_NOT_FOUND"
    using found by (metis option.simps(4))
  show ?thesis unfolding r
  proof (intro conjI)
    show "\<not> unreachable_now d w \<and> unavailable_now d w \<longrightarrow>
       cr_code c = CODE_INVALID_ARGUMENT \<and> cr_message c = ''device unavailable (injected fault)'' \<and> w_now w1 = w_now w"
      using bad clock by (simp add: bad_def)
    show "\<not> unreachable_now d w \<and> \<not> unavailable_now d w \<and> fails_now lib d f w \<longrightarrow>
       cr_code c = CODE_INVALID_ARGUMENT \<and> cr_message c = ''function call failed (injected fault)''"
      using f by (simp add: bad_def)
  qed (use False ok view n in blast)+
qed

theorem runtime_call_contract_witness:
  "acr_error_code (fst (rt_call ref_lib ''m0'' kFnSetDuty [] (example_process\<lparr>w_faults := inject_device_unreachable ''m0'' 50 0 (init_fault_state 0)\<rparr>)))
    = CODE_UNAVAILABLE"
proof -
  let ?w = "example_process\<lparr>w_faults := inject_device_unreachable ''m0'' 50 0 (init_fault_state 0)\<rparr>"
  have "unreachable_now ''m0'' ?w"
    by (simp add: unreachable_now_def unreachable.active_after_inject expires_at_def wrap64_def example_process_def initial_world_def)
  moreover have "unreachable_now ''m0'' ?w \<longrightarrow>
      acr_error_code (fst (rt_call ref_lib ''m0'' kFnSetDuty [] ?w)) = CODE_UNAVAILABLE \<and>
      w_now (snd (rt_call ref_lib ''m0'' kFnSetDuty [] ?w)) = w_now ?w"
    using runtime_call_contract[OF prod.collapse[symmetric], of ref_lib "''m0''" kFnSetDuty "[]" ?w "''m0''"]
    by (elim conjE)
  ultimately show ?thesis by (elim mp[THEN conjunct1])
qed

end
