(* ===== verification/Main_Program.thy ===== *)
theory Main_Program
  imports Process Runtime
begin

text \<open>
  \<open>src/core/main.cpp\<close>: the command line, the choice of the simulation engine and start-up, up to
  the run loop of the provider SDK, which \<open>main\<close> hands the runtime and two hooks. The log lines are
  left out. \<open>argv\<close> without the program's name is a list of strings.
\<close>

section \<open>What the build and the libraries provide\<close>

record build =
  be_version :: string                                  \<comment> \<open>\<open>ANOLIS_PROVIDER_SIM_VERSION\<close>\<close>
  be_have_fluxgraph :: bool                             \<comment> \<open>\<open>HAVE_FLUXGRAPH\<close>\<close>
  be_stod :: "string \<Rightarrow> double option"                   \<comment> \<open>\<open>std::stod\<close>, \<open>None\<close> when it throws\<close>
  be_envelope :: "cfg_schema \<Rightarrow> string \<Rightarrow> (string \<times> string) list \<Rightarrow> string"
    \<comment> \<open>what \<open>write_config_schema_envelope\<close> of the SDK writes\<close>

text \<open>
  \<open>parent_path\<close> and \<open>operator/\<close> of \<open>std::filesystem::path\<close> on POSIX, on the text of the path.
\<close>

definition parent_path :: "string \<Rightarrow> string" where
  "parent_path p =
    (let dir = rev (dropWhile (\<lambda>c. c \<noteq> CHR ''/'') (rev p));
         stripped = rev (dropWhile (\<lambda>c. c = CHR ''/'') (rev dir))
     in if stripped = [] then (if dir = [] then [] else ''/'') else stripped)"

definition path_append :: "string \<Rightarrow> string \<Rightarrow> string" where
  "path_append a b =
    (if b \<noteq> [] \<and> hd b = CHR ''/'' then b
     else if a = [] \<or> List.last a = CHR ''/'' then a @ b
     else a @ ''/'' @ b)"

section \<open>The command line\<close>

record main_args =
  ma_config_path :: "string option"
  ma_sim_server_address :: "string option"
  ma_crash_after_sec :: double
  ma_check_config_only :: bool

definition no_args :: main_args where
  "no_args = \<lparr>ma_config_path = None, ma_sim_server_address = None, ma_crash_after_sec = Fin (- 1), ma_check_config_only = False\<rparr>"

text \<open>The loop either reads all arguments or returns from \<open>main\<close>, with what it wrote to \<open>cout\<close>.\<close>

datatype parsed_args = ParsedArgs main_args | EarlyReturn int string

fun parse_args :: "build \<Rightarrow> string list \<Rightarrow> main_args \<Rightarrow> parsed_args" where
  "parse_args b [] a = ParsedArgs a"
| "parse_args b (arg # rest) a =
    (if arg = ''--version'' then EarlyReturn 0 (be_version b @ [CHR 0x0A])
     else if arg = ''--config-schema''
     then EarlyReturn 0 (be_envelope b provider_schema ''anolis-provider-sim'' [(''provider_version'', be_version b)])
     else case rest of
            [] \<Rightarrow> EarlyReturn 1 []
          | value # rest \<Rightarrow>
              if arg = ''--config'' then parse_args b rest (a\<lparr>ma_config_path := Some value\<rparr>)
              else if arg = ''--check-config''
              then parse_args b rest (a\<lparr>ma_config_path := Some value, ma_check_config_only := True\<rparr>)
              else if arg = ''--crash-after''
              then (case be_stod b value of
                      None \<Rightarrow> EarlyReturn 1 []
                    | Some sec \<Rightarrow> parse_args b rest (a\<lparr>ma_crash_after_sec := sec\<rparr>))
              else if arg = ''--sim-server'' then parse_args b rest (a\<lparr>ma_sim_server_address := Some value\<rparr>)
              else EarlyReturn 1 [])"

section \<open>The engine\<close>

text \<open>\<open>s\<close> is the state of the server when the channel is made; \<open>now\<close> the steady clock.\<close>

definition create_engine ::
  "build \<Rightarrow> 's flux_server \<Rightarrow> 's \<Rightarrow> int \<Rightarrow> provider_config \<Rightarrow> string \<Rightarrow> string + 's engine" where
  "create_engine b srv s now config sim_server_address =
    (case simulation_mode config of
       Inert \<Rightarrow> Inr NullEngine
     | NonInteracting \<Rightarrow> Inr (LocalEngine now)
     | Sim \<Rightarrow>
         if be_have_fluxgraph b
         then if sim_server_address = [] then Inl ''mode=sim requires --sim-server <host:port>''
              else bindE (new_flux_adapter srv sim_server_address s) (\<lambda>adapter.
                     Inr (RemoteEngine (new_remote_engine adapter (value_or (tick_rate_hz config) (Fin 10)))))
         else Inl ''mode=sim requires FluxGraph support. Rebuild with -DENABLE_FLUXGRAPH=ON'')"

text \<open>
  The engine made, told its provider, initialized and given its devices. The physics file is
  dereferenced unchecked: \<open>None\<close> is the undefined behaviour of an empty optional.
\<close>

definition prepare_engine ::
  "'v sdk \<Rightarrow> build \<Rightarrow> 's flux_server \<Rightarrow> 's \<Rightarrow> int \<Rightarrow> provider_config \<Rightarrow> string \<Rightarrow> string list \<Rightarrow> (string + 's engine) option" where
  "prepare_engine sdk b srv s now config sim_server_address device_ids =
    (case create_engine b srv s now config sim_server_address of
       Inl e \<Rightarrow> Some (Inl e)
     | Inr engine \<Rightarrow>
         let engine = engine_set_provider_id (value_or (provider_name config) ''provider-sim'') engine in
         case (if simulation_mode config = Sim
               then map_option (path_append (parent_path (config_file_path config))) (physics_config_path config)
               else Some []) of
           None \<Rightarrow> None
         | Some physics_path \<Rightarrow>
             (case engine_initialize sdk srv now physics_path engine of
                (Inl e, engine) \<Rightarrow> Some (Inl e)
              | (Inr u, engine) \<Rightarrow>
                  (case engine_register_devices srv device_ids engine of
                     (Inl e, engine) \<Rightarrow> Some (Inl e)
                   | (Inr u, engine) \<Rightarrow> Some (Inr engine))))"

section \<open>Start-up\<close>

text \<open>
  \<open>main\<close> returns an exit code, or enters the run loop with the runtime's report and, in chaos
  mode, the number of milliseconds after which the process exits with code 42.
\<close>

datatype main_outcome =
    Returns int string
  | Serves initialization_report "int option"
  | UndefinedBehaviour

definition crash_timer :: "double \<Rightarrow> int option" where
  "crash_timer sec = (if dless (Fin 0) sec then Some (double_to_int64 (dmul sec (Fin 1000))) else None)"

definition start_up ::
  "'g lib \<Rightarrow> 'v sdk \<Rightarrow> build \<Rightarrow> 's flux_server \<Rightarrow> 's \<Rightarrow> simulation_mode \<Rightarrow> main_args \<Rightarrow> string \<Rightarrow>
   ('g, 's engine) world \<Rightarrow> main_outcome \<times> ('g, 's engine) world" where
  "start_up lib sdk b srv s uninit a path w =
    (case load_config sdk uninit path of
       Inl e \<Rightarrow> (Returns 1 [], w)
     | Inr config \<Rightarrow>
    (case initialize_from_config lib config w of
       (Inl e, w) \<Rightarrow> (Returns 1 [], w)
     | (Inr report, w) \<Rightarrow>
         if ma_check_config_only a then (Returns 0 [], w)
         else
           case prepare_engine sdk b srv s (w_now w) config (value_or (ma_sim_server_address a) [])
                  (successful_device_ids report) of
             None \<Rightarrow> (UndefinedBehaviour, w)
           | Some (Inl e) \<Rightarrow> (Returns 1 [], w)
           | Some (Inr engine) \<Rightarrow>
               let w = set_simulation_engine engine w in
               case initialize_physics lib engine_list_signals config (successful_device_ids report) w of
                 (Some e, w) \<Rightarrow> (Returns 1 [], w)
               | (None, w) \<Rightarrow>
                   (Serves report (crash_timer (ma_crash_after_sec a)),
                    if simulation_mode config = NonInteracting then start_physics w else w)))"

definition main_program ::
  "'g lib \<Rightarrow> 'v sdk \<Rightarrow> build \<Rightarrow> 's flux_server \<Rightarrow> 's \<Rightarrow> simulation_mode \<Rightarrow> string list \<Rightarrow>
   ('g, 's engine) world \<Rightarrow> main_outcome \<times> ('g, 's engine) world" where
  "main_program lib sdk b srv s uninit argv w =
    (case parse_args b argv no_args of
       EarlyReturn code out \<Rightarrow> (Returns code out, w)
     | ParsedArgs a \<Rightarrow>
         (case ma_config_path a of
            None \<Rightarrow> (Returns 1 [], w)
          | Some path \<Rightarrow> start_up lib sdk b srv s uninit a path w))"

text \<open>The hooks of the run loop.\<close>

definition on_wait_ready :: "('g, 'e) world \<Rightarrow> ('g, 'e) world" where
  "on_wait_ready w = start_physics w"

definition on_shutdown :: "('g, 'e) world \<Rightarrow> ('g, 'e) world" where
  "on_shutdown w = stop_physics w"

section \<open>Facts\<close>

lemma parse_args_codes: "parse_args b argv a = EarlyReturn code out \<Longrightarrow> code = 0 \<or> (code = 1 \<and> out = [])"
  by (induction b argv a rule: parse_args.induct) (auto split: if_splits list.splits option.splits)

lemma parse_args_early:
  "parse_args b argv a = EarlyReturn code out \<Longrightarrow> out \<noteq> [] \<Longrightarrow> ''--version'' \<in> set argv \<or> ''--config-schema'' \<in> set argv"
  by (induction b argv a rule: parse_args.induct) (auto split: if_splits list.splits option.splits)

text \<open>The arguments of a run that serves are pairs of an option and its value, and the last path counts.\<close>

lemma parse_args_options:
  assumes "parse_args b argv a = ParsedArgs a'" and "\<not> ma_check_config_only a'"
  shows "\<exists>opts. argv = concat (map (\<lambda>(k, v). [k, v]) opts) \<and>
    set (map fst opts) \<subseteq> {''--config'', ''--crash-after'', ''--sim-server''} \<and>
    ma_config_path a' = (case map_of (rev opts) ''--config'' of None \<Rightarrow> ma_config_path a | Some p \<Rightarrow> Some p)"
  using assms
proof (induction b argv a rule: parse_args.induct)
  case (1 b a)
  then show ?case by (intro exI[of _ "[]"]) simp
next
  case (2 b arg rest a)
  have stays: "ma_check_config_only a'" if "parse_args b xs x = ParsedArgs a'" "ma_check_config_only x" for xs x
    using that by (induction b xs x rule: parse_args.induct) (auto split: if_splits list.splits option.splits)
  have no: "parse_args b xs (x\<lparr>ma_check_config_only := True\<rparr>) \<noteq> ParsedArgs a'" for xs x
    using stays[of xs "x\<lparr>ma_check_config_only := True\<rparr>"] 2(6) by auto
  from 2(5,6) obtain v tl where rest: "rest = v # tl" and arg: "arg \<in> {''--config'', ''--crash-after'', ''--sim-server''}"
    by (auto simp: no split: if_splits list.splits option.splits)
  with 2 obtain a1 where step: "parse_args b tl a1 = ParsedArgs a'"
    and path: "ma_config_path a1 = (if arg = ''--config'' then Some v else ma_config_path a)"
    and ih: "\<exists>opts. tl = concat (map (\<lambda>(k, v). [k, v]) opts) \<and>
      set (map fst opts) \<subseteq> {''--config'', ''--crash-after'', ''--sim-server''} \<and>
      ma_config_path a' = (case map_of (rev opts) ''--config'' of None \<Rightarrow> ma_config_path a1 | Some p \<Rightarrow> Some p)"
    by (auto split: option.splits)
  from ih obtain opts where "tl = concat (map (\<lambda>(k, v). [k, v]) opts)"
    "set (map fst opts) \<subseteq> {''--config'', ''--crash-after'', ''--sim-server''}"
    "ma_config_path a' = (case map_of (rev opts) ''--config'' of None \<Rightarrow> ma_config_path a1 | Some p \<Rightarrow> Some p)" by blast
  with rest arg path show ?case
    by (intro exI[of _ "(arg, v) # opts"]) (auto simp: map_add_def split: option.splits)
qed

lemma parse_args_append:
  "parse_args b xs a = ParsedArgs a' \<Longrightarrow> parse_args b (xs @ ys) a = parse_args b ys a'"
  by (induction b xs a rule: parse_args.induct) (auto split: if_splits list.splits option.splits)

fun engine_for :: "simulation_mode \<Rightarrow> 's engine \<Rightarrow> bool" where
  "engine_for Inert NullEngine = True"
| "engine_for NonInteracting (LocalEngine t) = True"
| "engine_for Sim (RemoteEngine m) = True"
| "engine_for _ _ = False"

lemma engine_for_kinds [simp]:
  "engine_for m (engine_set_provider_id p e) = engine_for m e"
  "engine_for m (snd (engine_initialize sdk srv now path e)) = engine_for m e"
  "engine_for m (snd (engine_register_devices srv ids e)) = engine_for m e"
  by (cases m; cases e; simp add: engine_set_provider_id_def engine_initialize_def engine_register_devices_def Let_def case_prod_beta)+

lemma create_engine_kind: "create_engine b srv s now config addr = Inr e \<Longrightarrow> engine_for (simulation_mode config) e"
  by (auto simp: create_engine_def bindE_Inr_iff split: simulation_mode.splits if_splits)

lemma prepare_engine_kind:
  assumes "prepare_engine sdk b srv s now config addr ids = Some (Inr e)"
  shows "engine_for (simulation_mode config) e"
proof -
  obtain e0 path u e1 v where "create_engine b srv s now config addr = Inr e0"
    and i: "engine_initialize sdk srv now path (engine_set_provider_id (value_or (provider_name config) ''provider-sim'') e0) = (Inr u, e1)"
    and r: "engine_register_devices srv ids e1 = (Inr v, e)"
    using assms by (auto simp: prepare_engine_def Let_def split: sum.splits option.splits prod.splits)
  then have "engine_for (simulation_mode config) e0" by (simp add: create_engine_kind)
  with engine_for_kinds(2)[of "simulation_mode config" sdk srv now path "engine_set_provider_id (value_or (provider_name config) ''provider-sim'') e0"]
    engine_for_kinds(3)[of "simulation_mode config" srv ids e1]
  show ?thesis by (simp add: i r)
qed

lemma prepare_engine_local:
  assumes "simulation_mode config \<noteq> Sim"
  shows "\<exists>e. prepare_engine sdk b srv s now config addr ids = Some (Inr e)"
  using assms
  by (cases "simulation_mode config")
    (simp_all add: prepare_engine_def create_engine_def engine_set_provider_id_def engine_initialize_def engine_register_devices_def)

lemma prepare_engine_defined: "mode_fields_ok config \<Longrightarrow> prepare_engine sdk b srv s now config addr ids \<noteq> None"
  by (auto simp: prepare_engine_def mode_fields_ok_def Let_def split: sum.splits option.splits prod.splits simulation_mode.splits)

section \<open>What start-up leaves behind\<close>

text \<open>The part of the process that the operations of start-up set or keep.\<close>

definition start_view :: "('g, 'e) world \<Rightarrow>
    (string, device_registry_entry) smap \<times> bool \<times> 'e option \<times> bool \<times> simulation_mode \<times> double \<times> bool" where
  "start_view w = (w_device_registry w, w_config_loaded w, w_engine w, w_ticker_running w, w_mode w, w_tick_rate w,
     w_signal_registry w = None)"

lemma start_view_updates [simp]:
  "start_view (w\<lparr>w_faults := f\<rparr>) = start_view w"
  "start_view (w\<lparr>w_function_ids := i\<rparr>) = start_view w"
  "start_view (w\<lparr>w_output_paths := ps\<rparr>) = start_view w"
  "start_view (w\<lparr>w_ambient := a\<rparr>) = start_view w"
  "start_view (w\<lparr>w_signal_registry := map_option g (w_signal_registry w)\<rparr>) = start_view w"
  "start_view (w\<lparr>w_output_paths := ps, w_signal_registry := map_option g (w_signal_registry w)\<rparr>) = start_view w"
  by (simp_all add: start_view_def)

lemma start_view_query [simp]:
  "start_view (snd (w_is_device_unavailable d w)) = start_view w"
  "start_view (after_unavailable d w) = start_view w"
  by (simp_all add: query_unavailable after_unavailable_def)

lemma describe_view: "start_view (snd (describe_device lib d w)) = start_view w"
  by (simp add: describe_device_def query_unavailable Let_def)

lemma list_loop_view: "start_view (snd (list_loop lib h es w)) = start_view w"
  by (induction es arbitrary: w) (simp_all add: query_unavailable case_prod_beta Let_def split: option.split)

lemma list_devices_view: "start_view (snd (list_devices lib h w)) = start_view w"
  by (simp add: list_devices_def case_prod_beta Let_def list_loop_view)

lemma cache_loop_view: "start_view (cache_loop lib devs w) = start_view w"
  by (induction devs arbitrary: w) (simp_all add: case_prod_beta Let_def describe_view)

lemma cache_view: "start_view (cache_device_capabilities lib w) = start_view w"
  by (simp add: cache_device_capabilities_def case_prod_beta Let_def cache_loop_view list_devices_view)

lemma rebuild_view: "start_view (rebuild_physics_output_paths ls config ids w) = start_view w"
  unfolding rebuild_physics_output_paths_def Let_def
  by (auto split: option.split intro!: foldl_keeps[of "\<lambda>w'. start_view w' = start_view w"])

lemma initialize_physics_view:
  assumes "initialize_physics lib ls config ids w = (None, w')"
  shows "start_view w' = (w_device_registry w, w_config_loaded w, w_engine w, w_ticker_running w, simulation_mode config,
     value_or (tick_rate_hz config) (Fin 10), False)"
proof -
  let ?w = "w\<lparr>w_mode := simulation_mode config, w_tick_rate := value_or (tick_rate_hz config) (Fin 10)\<rparr>"
  obtain exn w1 where c: "configure_simulation_inputs config ?w = (exn, w1)" by (metis prod.exhaust)
  have v: "start_view w1 = start_view ?w"
    using c by (auto simp: configure_simulation_inputs_def Let_def split: if_splits option.splits)
  have "start_view w' = start_view (w1\<lparr>w_signal_registry := Some (set_device_reader (Some DeviceSignalReader) empty_registry)\<rparr>)"
    using assms c by (auto simp: initialize_physics_def Let_def rebuild_view cache_view split: option.splits)
  with v show ?thesis by (simp add: start_view_def)
qed

lemma initialize_physics_exn:
  "simulation_mode config \<noteq> Sim \<Longrightarrow> fst (initialize_physics lib ls config ids w) = None"
  by (simp add: initialize_physics_def configure_simulation_inputs_def Let_def)

lemma initialize_physics_running:
  "w_ticker_running (snd (initialize_physics lib ls config ids w)) = w_ticker_running w"
proof -
  let ?w = "w\<lparr>w_mode := simulation_mode config, w_tick_rate := value_or (tick_rate_hz config) (Fin 10)\<rparr>"
  obtain exn w1 where c: "configure_simulation_inputs config ?w = (exn, w1)" by (metis prod.exhaust)
  then have "w_ticker_running w1 = w_ticker_running w"
    by (auto simp: configure_simulation_inputs_def Let_def split: if_splits option.splits)
  then show ?thesis
    using initialize_physics_view[of lib ls config ids w] c
    by (cases exn) (auto simp: initialize_physics_def Let_def start_view_def)
qed

text \<open>The device factory.\<close>

lemma initialize_device_running: "initialize_device lib spec w = Inr w' \<Longrightarrow> w_ticker_running w' = w_ticker_running w"
  by (auto simp: initialize_device_def Let_def adapter_for_def adapter_defs adapter_tempctl_init_def adapter_motorctl_init_def
      adapter_relayio_init_def adapter_analogsensor_init_def split: option.splits sum.splits sim_device_type.splits)

lemma initialize_loop_running: "w_ticker_running (snd (initialize_loop lib policy specs report w)) = w_ticker_running w"
  by (induction lib policy specs report w rule: initialize_loop.induct)
    (auto simp: Let_def initialize_device_running split: sum.split)

lemma initialize_running: "w_ticker_running (snd (initialize_from_config lib config w)) = w_ticker_running w"
  using initialize_loop_running[of lib "startup_policy config" "config_devices config" _ "w\<lparr>w_device_registry := m_empty, w_config_loaded := False\<rparr>"]
  by (auto simp: initialize_from_config_def Let_def case_prod_beta split: sum.split)

lemma initialized:
  assumes "initialize_from_config lib config w = (Inr report, w')"
  shows "registry_ok w'" and "w_config_loaded w'" and "is_device_registered d w' \<longleftrightarrow> d \<in> set (successful_device_ids report)"
    and "set (successful_device_ids report) \<subseteq> ds_id ` set (config_devices config)"
proof -
  let ?w = "w\<lparr>w_device_registry := m_empty, w_config_loaded := False\<rparr>"
  let ?r = "\<lparr>configured_device_count = length (config_devices config), report_startup_policy = startup_policy config,
     configured_device_ids = map ds_id (config_devices config), successful_device_ids = [], failed_devices = []\<rparr>"
  obtain w1 where w1: "initialize_loop lib (startup_policy config) (config_devices config) ?r ?w = (Inr report, w1)"
    and w': "w' = w1\<lparr>w_config_loaded := True\<rparr>"
    using assms by (auto simp: initialize_from_config_def Let_def split: prod.splits sum.splits)
  have "startup_policy config = Degraded \<or> (\<forall>s \<in> set (config_devices config). succeeds lib s)"
    using initialize_loop_strict_fails[of "config_devices config" lib ?r ?w] w1 by (cases "startup_policy config") fastforce+
  from initialize_loop_completes[OF this, of ?r ?w] w1
  have r: "successful_device_ids report = map ds_id (filter (succeeds lib) (config_devices config))"
    and ok: "registry_ok w1"
    and reg: "\<forall>d. is_device_registered d w1 \<longleftrightarrow> d \<in> ds_id ` {s \<in> set (config_devices config). succeeds lib s}"
    using empty_registry_ok[of w] by (auto simp: is_device_registered_def)
  show "registry_ok w'" using ok by (simp add: w' registry_ok_def)
  show "w_config_loaded w'" by (simp add: w')
  show "is_device_registered d w' \<longleftrightarrow> d \<in> set (successful_device_ids report)"
    using reg by (auto simp: w' is_device_registered_def r)
  show "set (successful_device_ids report) \<subseteq> ds_id ` set (config_devices config)" by (auto simp: r)
qed

section \<open>The cases of start-up\<close>

lemma start_up_serves:
  assumes "start_up lib sdk b srv s u a path w = (Serves report crash, w')"
  obtains c w1 e w2 where "load_config sdk u path = Inr c" "initialize_from_config lib c w = (Inr report, w1)"
    "\<not> ma_check_config_only a"
    "prepare_engine sdk b srv s (w_now w1) c (value_or (ma_sim_server_address a) []) (successful_device_ids report) = Some (Inr e)"
    "initialize_physics lib engine_list_signals c (successful_device_ids report) (set_simulation_engine e w1) = (None, w2)"
    "w' = (if simulation_mode c = NonInteracting then start_physics w2 else w2)"
  using assms unfolding start_up_def
  by (auto simp: Let_def split: sum.splits prod.splits if_splits option.splits)

lemma start_up_returns:
  assumes "start_up lib sdk b srv s u a path w = (Returns code out, w')"
  shows "w_ticker_running w' = w_ticker_running w" and "out = []" and "code = 0 \<or> code = 1"
proof -
  have i: "w_ticker_running w1 = w_ticker_running w" if "initialize_from_config lib c w = (x, w1)" for c x w1
    using initialize_running[of lib c w] that by simp
  have p: "w_ticker_running w2 = w_ticker_running w1"
    if "initialize_physics lib engine_list_signals c ids (set_simulation_engine e w1) = (x, w2)" for c ids e w1 x w2
    using initialize_physics_running[of lib engine_list_signals c ids "set_simulation_engine e w1"] that
    by (simp add: set_simulation_engine_def)
  show "w_ticker_running w' = w_ticker_running w" and "out = []" and "code = 0 \<or> code = 1"
    using assms unfolding start_up_def
    by (auto simp: Let_def i dest!: p split: sum.splits prod.splits if_splits option.splits)
qed

lemma start_up_defined:
  assumes "validate_law sdk"
  shows "fst (start_up lib sdk b srv s u a path w) \<noteq> UndefinedBehaviour"
proof (cases "load_config sdk u path")
  case (Inr c)
  have defined: "prepare_engine sdk b srv s now c addr ids = None \<Longrightarrow> False" for now addr ids
    by (rule notE[OF prepare_engine_defined[OF loaded_config(1)[OF assms Inr]]])
  show ?thesis by (auto simp: start_up_def Inr Let_def dest: defined split: sum.split prod.split option.split)
qed (simp add: start_up_def)

text \<open>Without an external simulation nothing after the devices can fail.\<close>

lemma start_up_local:
  assumes "load_config sdk u path = Inr c" and "initialize_from_config lib c w = (Inr report, w1)"
    and "simulation_mode c \<noteq> Sim" and "\<not> ma_check_config_only a"
  shows "\<exists>w'. start_up lib sdk b srv s u a path w = (Serves report (crash_timer (ma_crash_after_sec a)), w')"
proof -
  obtain e where e: "prepare_engine sdk b srv s (w_now w1) c (value_or (ma_sim_server_address a) []) (successful_device_ids report) = Some (Inr e)"
    by (rule exE[OF prepare_engine_local[OF assms(3)]])
  obtain x w2 where w2: "initialize_physics lib engine_list_signals c (successful_device_ids report) (set_simulation_engine e w1) = (x, w2)"
    by (metis prod.exhaust)
  then have "x = None"
    using initialize_physics_exn[OF assms(3), of lib engine_list_signals "successful_device_ids report" "set_simulation_engine e w1"]
    by simp
  then show ?thesis using assms(1,2,4) e w2 by (simp add: start_up_def Let_def)
qed

lemma spec_ids_not_chaos: "list_all spec_ok specs \<Longrightarrow> chaos_kDeviceId \<notin> ds_id ` set specs"
  by (auto simp: spec_ok_def chaos_kDeviceId_def list_all_iff)

lemma started_process:
  assumes "validate_law sdk" and "\<not> w_ticker_running w"
    and "start_up lib sdk b srv s u a path w = (Serves report crash, w')" and "load_config sdk u path = Inr c"
  shows "registry_ok w'" and "w_config_loaded w'" and "\<not> is_device_registered chaos_kDeviceId w'"
    and "adapter_by_id lib d w' \<noteq> None \<longleftrightarrow> d = chaos_kDeviceId \<or> d \<in> set (successful_device_ids report)"
    and "w_mode w' = simulation_mode c" and "\<exists>e. w_engine w' = Some e \<and> engine_for (simulation_mode c) e"
    and "w_ticker_running w' \<longleftrightarrow> simulation_mode c = NonInteracting" and "w_signal_registry w' \<noteq> None"
    and "w_tick_rate w' = value_or (tick_rate_hz c) (Fin 10)"
proof -
  obtain w1 e w2 where w1: "initialize_from_config lib c w = (Inr report, w1)"
    and e: "prepare_engine sdk b srv s (w_now w1) c (value_or (ma_sim_server_address a) []) (successful_device_ids report) = Some (Inr e)"
    and w2: "initialize_physics lib engine_list_signals c (successful_device_ids report) (set_simulation_engine e w1) = (None, w2)"
    and w': "w' = (if simulation_mode c = NonInteracting then start_physics w2 else w2)"
    by (rule start_up_serves[OF assms(3)]) (simp add: assms(4))
  have view: "start_view w2 = (w_device_registry w1, w_config_loaded w1, Some e, False, simulation_mode c,
      value_or (tick_rate_hz c) (Fin 10), False)"
    using initialize_physics_view[OF w2] initialize_running[of lib c w] w1 assms(2) by (simp add: set_simulation_engine_def)
  then have view': "start_view w' = (w_device_registry w1, w_config_loaded w1, Some e, simulation_mode c = NonInteracting,
      simulation_mode c, value_or (tick_rate_hz c) (Fin 10), False)"
    by (simp add: w' start_physics_def start_view_def)
  then have reg: "w_device_registry w' = w_device_registry w1" and loaded: "w_config_loaded w' = w_config_loaded w1"
    by (simp_all add: start_view_def)
  note init = initialized[OF w1]
  show ok: "registry_ok w'" and l: "w_config_loaded w'" using init(1,2) by (simp_all add: registry_ok_def reg loaded)
  have r: "is_device_registered d w' \<longleftrightarrow> d \<in> set (successful_device_ids report)" for d
    using init(3) by (simp add: is_device_registered_def reg)
  show "\<not> is_device_registered chaos_kDeviceId w'"
    using init(4) spec_ids_not_chaos[OF loaded_config(2)[OF assms(1,4)]] unfolding r by blast
  show "adapter_by_id lib d w' \<noteq> None \<longleftrightarrow> d = chaos_kDeviceId \<or> d \<in> set (successful_device_ids report)"
    using adapter_of_registered[OF ok l, of lib d] unfolding r .
  show "w_mode w' = simulation_mode c" "\<exists>e. w_engine w' = Some e \<and> engine_for (simulation_mode c) e"
    "w_ticker_running w' \<longleftrightarrow> simulation_mode c = NonInteracting" "w_signal_registry w' \<noteq> None"
    "w_tick_rate w' = value_or (tick_rate_hz c) (Fin 10)"
    using view' prepare_engine_kind[OF e] by (simp_all add: start_view_def)
qed

section \<open>A concrete start-up\<close>

definition example_build :: build where
  "example_build = \<lparr>be_version = ''1.0'', be_have_fluxgraph = False, be_stod = (\<lambda>s. None), be_envelope = (\<lambda>sc n es. n)\<rparr>"

lemma example_check:
  "\<exists>c report w1. load_config (ref_sdk example_files) u ''sim.yaml'' = Inr c \<and> simulation_mode c = NonInteracting \<and>
     initialize_from_config ref_lib c (initial_world 0 :: (nat, nat engine) world) = (Inr report, w1)"
proof -
  obtain c where c: "load_config (ref_sdk example_files) u ''sim.yaml'' = Inr c" "simulation_mode c = NonInteracting"
    "startup_policy c = Strict" "config_devices c = [\<lparr>ds_id = ''t0'', ds_type = ''tempctl'', ds_config = []\<rparr>]"
    using example_loads by blast
  have "\<exists>report w1. initialize_from_config ref_lib c (initial_world 0 :: (nat, nat engine) world) = (Inr report, w1)"
    by (simp add: initialize_from_config_def c(3,4) initialize_device_def sim_device_type_from_string_def adapter_for_def kTempctl_def
        adapter_tempctl_init_def cfg_double_def cfg_range_def tempctl_init_def Let_def)
  with c show ?thesis by blast
qed

lemma example_serves:
  "\<exists>report w'. main_program ref_lib (ref_sdk example_files) example_build example_server 0 u [''--config'', ''sim.yaml'']
     (initial_world 0) = (Serves report None, w')"
proof -
  obtain c report w1 where c: "load_config (ref_sdk example_files) u ''sim.yaml'' = Inr c" "simulation_mode c = NonInteracting"
    "initialize_from_config ref_lib c (initial_world 0 :: (nat, nat engine) world) = (Inr report, w1)"
    using example_check by blast
  then have "simulation_mode c \<noteq> Sim" by simp
  from start_up_local[OF c(1,3) this, of "no_args\<lparr>ma_config_path := Some ''sim.yaml''\<rparr>" example_build example_server 0]
  show ?thesis by (auto simp: main_program_def no_args_def crash_timer_def)
qed

section \<open>Properties\<close>

text \<open>C3. When \<open>main\<close> enters its run loop, the process is one the rest of the program can serve: the
  configuration was loaded from the path given last (the arguments being pairs of an option and its
  value) and is valid, the devices that can be addressed
  are those the report calls successful and the chaos device, none of them configured under its name,
  the signal registry is there and the engine is the one of the configured mode, the ticker runs in
  the mode \<open>non_interacting\<close> alone, and at a rate the configuration accepts unless the mode is
  \<open>inert\<close>.\<close>

theorem main_serves:
  assumes "validate_law sdk" and "\<not> w_ticker_running w"
    and "main_program lib sdk b srv s u argv w = (Serves report crash, w')"
  shows "\<exists>a path c. parse_args b argv no_args = ParsedArgs a \<and> ma_config_path a = Some path \<and> \<not> ma_check_config_only a \<and>
    (\<exists>opts. argv = concat (map (\<lambda>(k, v). [k, v]) opts) \<and> map_of (rev opts) ''--config'' = Some path) \<and>
    load_config sdk u path = Inr c \<and> fst (initialize_from_config lib c w) = Inr report \<and>
    registry_ok w' \<and> w_config_loaded w' \<and> \<not> is_device_registered chaos_kDeviceId w' \<and>
    (\<forall>d. adapter_by_id lib d w' \<noteq> None \<longleftrightarrow> d = chaos_kDeviceId \<or> d \<in> set (successful_device_ids report)) \<and>
    w_signal_registry w' \<noteq> None \<and> w_mode w' = simulation_mode c \<and>
    (\<exists>e. w_engine w' = Some e \<and> engine_for (simulation_mode c) e) \<and>
    (w_ticker_running w' \<longleftrightarrow> simulation_mode c = NonInteracting) \<and>
    (simulation_mode c \<noteq> Inert \<longrightarrow> tick_rate_ok (Some (w_tick_rate w')))"
proof -
  obtain a path where a: "parse_args b argv no_args = ParsedArgs a" "ma_config_path a = Some path"
    and run: "start_up lib sdk b srv s u a path w = (Serves report crash, w')"
    using assms(3) by (auto simp: main_program_def split: parsed_args.splits option.splits)
  obtain c w1 where c: "load_config sdk u path = Inr c" "initialize_from_config lib c w = (Inr report, w1)" "\<not> ma_check_config_only a"
    by (rule start_up_serves[OF run])
  note p = started_process[OF assms(1,2) run c(1)]
  have "simulation_mode c \<noteq> Inert \<longrightarrow> tick_rate_ok (Some (w_tick_rate w'))"
    using loaded_config(1)[OF assms(1) c(1)] unfolding p(9)
    by (auto simp: mode_fields_ok_def tick_rate_ok_def split: simulation_mode.splits)
  moreover have "\<exists>opts. argv = concat (map (\<lambda>(k, v). [k, v]) opts) \<and> map_of (rev opts) ''--config'' = Some path"
    using parse_args_options[OF a(1) c(3)] a(2) by (auto simp: no_args_def split: option.splits)
  ultimately show ?thesis using a c p by (intro exI[of _ a] exI[of _ path] exI[of _ c]) simp
qed

theorem main_serves_witness:
  "\<exists>w'. snd (main_program ref_lib (ref_sdk example_files) example_build example_server 0 Inert [''--config'', ''sim.yaml''] (initial_world 0)) = w' \<and>
     registry_ok w' \<and> w_signal_registry w' \<noteq> None"
proof -
  obtain report w' where run: "main_program ref_lib (ref_sdk example_files) example_build example_server 0 Inert [''--config'', ''sim.yaml'']
      (initial_world 0) = (Serves report None, w')"
    using example_serves by blast
  have "\<not> w_ticker_running (initial_world 0 :: (nat, nat engine) world)" by (simp add: initial_world_def)
  from main_serves[OF validate_law_ref this run] show ?thesis by (auto simp: run)
qed

text \<open>C30. \<open>main\<close> that does not serve returns 0 or 1, and does not start the ticker. It writes to the
  standard output for \<open>--version\<close> and \<open>--config-schema\<close> alone, and then returns 0 and has touched
  nothing; no argument list and no configuration file makes it dereference the missing path of the
  physics file.\<close>

theorem main_returns:
  assumes "validate_law sdk" and "main_program lib sdk b srv s u argv w = (r, w')"
  shows "r \<noteq> UndefinedBehaviour \<and>
    (\<forall>code out. r = Returns code out \<longrightarrow> (code = 0 \<or> code = 1) \<and> w_ticker_running w' = w_ticker_running w \<and>
       (out \<noteq> [] \<longrightarrow> code = 0 \<and> w' = w \<and> (''--version'' \<in> set argv \<or> ''--config-schema'' \<in> set argv)))"
proof (cases "parse_args b argv no_args")
  case (EarlyReturn code out)
  with assms(2) parse_args_codes[OF EarlyReturn] parse_args_early[OF EarlyReturn] show ?thesis
    by (auto simp: main_program_def)
next
  case (ParsedArgs a)
  show ?thesis
  proof (cases "ma_config_path a")
    case None
    with ParsedArgs assms(2) show ?thesis by (auto simp: main_program_def)
  next
    case (Some path)
    with ParsedArgs assms(2) have run: "start_up lib sdk b srv s u a path w = (r, w')" by (simp add: main_program_def)
    with start_up_defined[OF assms(1), of lib b srv s u a path w] start_up_returns[of lib sdk b srv s u a path w _ _ w']
    show ?thesis by auto
  qed
qed

theorem main_returns_witness:
  "fst (main_program ref_lib (ref_sdk example_files) example_build example_server 0 Inert [''--config''] (initial_world 0 :: (nat, nat engine) world))
     \<noteq> UndefinedBehaviour"
  by (rule main_returns[OF validate_law_ref prod.collapse[symmetric], THEN conjunct1])

text \<open>C31. \<open>--check-config\<close> predicts start-up: a process that serves with \<open>--config\<close> and the same file would
  have passed the check, and in the modes without an external simulation a file that passes the check is
  served. With an external one it may not be: the check makes no engine.\<close>

theorem main_check_config_predicts:
  assumes "ck = fst (main_program lib sdk b srv s u [''--check-config'', path] w)"
    and "sv = fst (main_program lib sdk b srv s u [''--config'', path] w)"
  shows "((\<exists>report crash. sv = Serves report crash) \<longrightarrow> ck = Returns 0 []) \<and>
    ((\<exists>c. load_config sdk u path = Inr c \<and> simulation_mode c \<noteq> Sim) \<longrightarrow>
       (ck = Returns 0 [] \<longleftrightarrow> (\<exists>report. sv = Serves report None)))"
proof -
  let ?a = "no_args\<lparr>ma_config_path := Some path, ma_check_config_only := True\<rparr>"
  let ?b = "no_args\<lparr>ma_config_path := Some path\<rparr>"
  have ck: "ck = fst (start_up lib sdk b srv s u ?a path w)" and sv: "sv = fst (start_up lib sdk b srv s u ?b path w)"
    by (simp_all add: assms main_program_def)
  have no: "ma_check_config_only ?b = False" "crash_timer (ma_crash_after_sec ?b) = None" by (simp_all add: no_args_def crash_timer_def)
  show ?thesis
  proof (cases "\<exists>c report w1. load_config sdk u path = Inr c \<and> initialize_from_config lib c w = (Inr report, w1)")
    case False
    then have "ck = Returns 1 []" and "sv = Returns 1 []"
      by (auto simp: ck sv start_up_def split: sum.split prod.split)
    then show ?thesis by simp
  next
    case True
    then obtain c report w1 where c: "load_config sdk u path = Inr c" "initialize_from_config lib c w = (Inr report, w1)" by blast
    have ok: "ck = Returns 0 []" by (simp add: ck start_up_def c)
    have "sv = Serves report None" if mode: "simulation_mode c \<noteq> Sim"
      using start_up_local[OF c mode, of ?b b srv s] no by (auto simp: sv)
    with ok c(1) show ?thesis by auto
  qed
qed

theorem main_check_config_predicts_witness:
  "fst (main_program ref_lib (ref_sdk example_files) example_build example_server 0 Inert [''--check-config'', ''sim.yaml'']
     (initial_world 0 :: (nat, nat engine) world)) = Returns 0 []"
proof -
  obtain report w' where run: "main_program ref_lib (ref_sdk example_files) example_build example_server 0 Inert [''--config'', ''sim.yaml'']
      (initial_world 0) = (Serves report None, w')"
    using example_serves by blast
  have "\<exists>report crash. fst (main_program ref_lib (ref_sdk example_files) example_build example_server 0 Inert [''--config'', ''sim.yaml'']
      (initial_world 0)) = Serves report crash" by (simp add: run)
  with main_check_config_predicts[OF refl refl, of ref_lib "ref_sdk example_files" example_build example_server 0 Inert "''sim.yaml''" "initial_world 0"]
  show ?thesis by blast
qed

end
