(* ===== verification/Service.thy ===== *)
theory Service
  imports Main_Program
begin

text \<open>
  The process while it serves: what happens to it once \<open>main\<close> has entered the run loop of the SDK, and
  what then holds of every state it passes through, from the command line on.
\<close>

section \<open>The life of the process\<close>

text \<open>
  What the SDK asks of the runtime, its two hooks, the body of the ticker, and the time that passes, in any
  order, each taken whole. \<open>ok_args\<close> says which argument lists the calls may have.
\<close>

inductive service_step ::
  "'g lib \<Rightarrow> 's flux_server \<Rightarrow> ((string \<times> pb_value) list \<Rightarrow> bool) \<Rightarrow> ('g, 's engine) world \<Rightarrow> ('g, 's engine) world \<Rightarrow> bool"
  for lib srv ok_args where
  inventory: "service_step lib srv ok_args w (snd (rt_list_device_ids lib w))"
| gate: "service_step lib srv ok_args w (snd (rt_has_device lib d w))"
| describe: "service_step lib srv ok_args w (snd (rt_capabilities lib d w))"
| reading: "service_step lib srv ok_args w (snd (rt_read lib d ids w))"
| call: "ok_args as \<Longrightarrow> service_step lib srv ok_args w (snd (rt_call lib d f as w))"
| resolve: "service_step lib srv ok_args w (snd (rt_resolve_function_id lib d n w))"
| tick: "service_step lib srv ok_args w (snd (tick_body lib srv w))"
| time: "w_now w \<le> t \<Longrightarrow> service_step lib srv ok_args w (w\<lparr>w_now := t, w_system_now := u\<rparr>)"
| ready: "service_step lib srv ok_args w (on_wait_ready w)"
| shutdown: "service_step lib srv ok_args w (on_shutdown w)"

abbreviation service_run where "service_run lib srv ok_args \<equiv> rtranclp (service_step lib srv ok_args)"

text \<open>The same with the operations of the two threads interleaved: single accesses may come between.\<close>

abbreviation interleaved_run where
  "interleaved_run lib srv ok_args \<equiv> rtranclp (\<lambda>w w'. service_step lib srv ok_args w w' \<or> atomic_step lib w w')"

text \<open>Argument lists as the wire format delivers them.\<close>

abbreviation wire_args :: "(string \<times> pb_value) list \<Rightarrow> bool" where "wire_args as \<equiv> wf_args (arg_map as)"

lemma rt_read_steps: "atomic_steps lib w (snd (rt_read lib d ids w))"
proof -
  obtain b w1 where q: "w_is_device_unreachable d w = (b, w1)" by (metis prod.exhaust)
  from fault_queries(2)[OF q] rtranclp_trans[OF fault_queries(2)[OF q] read_signals_steps] show ?thesis
    by (simp add: rt_read_def q case_prod_beta Let_def)
qed

lemma rt_call_steps:
  assumes "wire_args as"
  shows "atomic_steps lib w (snd (rt_call lib d f as w))"
proof -
  obtain b w1 where q: "w_is_device_unreachable d w = (b, w1)" by (metis prod.exhaust)
  from fault_queries(2)[OF q] rtranclp_trans[OF fault_queries(2)[OF q] call_function_steps[OF assms]] show ?thesis
    by (simp add: rt_call_def q case_prod_beta Let_def)
qed

lemma rt_has_device_steps: "atomic_steps lib w (snd (rt_has_device lib d w))"
  using fault_queries(1)[OF prod.collapse[symmetric]] by (simp add: rt_has_device_def case_prod_beta)

lemma service_step_atomic:
  assumes "service_step lib srv wire_args w w'" and "wf_server srv"
  shows "atomic_steps lib w w' \<or> w' = start_physics w \<or> w' = stop_physics w"
  using assms
  by (induction rule: service_step.induct)
    (auto simp: rt_list_device_ids_def case_prod_beta rt_capabilities_def rt_resolve_function_id_def on_wait_ready_def on_shutdown_def
      list_devices_steps describe_device_steps resolve_function_id_steps rt_read_steps rt_call_steps rt_has_device_steps
      tick_body_steps atomic_steps_time)

lemma interleaved_step_atomic:
  "service_step lib srv wire_args w w' \<or> atomic_step lib w w' \<Longrightarrow> wf_server srv \<Longrightarrow>
     atomic_steps lib w w' \<or> w' = start_physics w \<or> w' = stop_physics w"
  using service_step_atomic r_into_rtranclp by blast

lemma interleaved_run_reachable:
  "interleaved_run lib srv wire_args w w' \<Longrightarrow> wf_server srv \<Longrightarrow> process_reachable lib w \<Longrightarrow> process_reachable lib w'"
proof (induction rule: rtranclp_induct)
  case (step w1 w2)
  with interleaved_step_atomic[OF step(2)] show ?case
    by (auto intro: reachable_steps process_reachable.started process_reachable.stopped)
qed

lemma hooks_registry [simp]:
  "w_device_registry (start_physics w) = w_device_registry w" "w_config_loaded (start_physics w) = w_config_loaded w"
  "w_device_registry (stop_physics w) = w_device_registry w" "w_config_loaded (stop_physics w) = w_config_loaded w"
  by (simp_all add: start_physics_def stop_physics_def)

lemma interleaved_run_registry:
  "interleaved_run lib srv wire_args w w' \<Longrightarrow> wf_server srv \<Longrightarrow>
     w_device_registry w' = w_device_registry w \<and> w_config_loaded w' = w_config_loaded w"
proof (induction rule: rtranclp_induct)
  case (step w1 w2)
  with interleaved_step_atomic[OF step(2)] atomic_steps_frame[of lib w1 w2] show ?case
    by (auto simp: set_up_def)
qed simp

lemma same_registry_addressable:
  "w_device_registry w' = w_device_registry w \<Longrightarrow> w_config_loaded w' = w_config_loaded w \<Longrightarrow>
     adapter_by_id lib d w' = adapter_by_id lib d w"
  by (simp add: adapter_by_id_def is_device_registered_def get_device_type_def)

section \<open>From the command line on\<close>

text \<open>The initial values a file configures are in the range the modules are meant for.\<close>

definition file_in_range :: "'g lib \<Rightarrow> 'v sdk \<Rightarrow> simulation_mode \<Rightarrow> string \<Rightarrow> bool" where
  "file_in_range lib sdk u path \<longleftrightarrow>
     (\<forall>c. load_config sdk u path = Inr c \<longrightarrow> (\<forall>spec \<in> set (config_devices c). spec_in_range lib spec))"

lemma start_up_reachable:
  assumes "start_up lib sdk b srv s u a path w = (Serves report crash, w')" and "file_in_range lib sdk u path"
    and "process_reachable lib w"
  shows "process_reachable lib w'"
proof -
  obtain c w1 e w2 where c: "load_config sdk u path = Inr c" "initialize_from_config lib c w = (Inr report, w1)"
    and w2: "initialize_physics lib engine_list_signals c (successful_device_ids report) (set_simulation_engine e w1) = (None, w2)"
    and w': "w' = (if simulation_mode c = NonInteracting then start_physics w2 else w2)"
    by (rule start_up_serves[OF assms(1)])
  have "process_reachable lib w1"
    using process_reachable.devices[OF assms(3), of c] assms(2) c by (simp add: file_in_range_def)
  then have "process_reachable lib w2"
    using process_reachable.physics[OF process_reachable.engine[of lib w1 e], of engine_list_signals c "successful_device_ids report"] w2
    by simp
  then show ?thesis by (simp add: w' process_reachable.started)
qed

section \<open>Properties\<close>

text \<open>C4. From the command line on: when \<open>main\<close> serves a file whose initial values are in range, then through
  any sequence of requests, hooks and ticks that follows, with the accesses of the two threads interleaved, whatever faults are injected and whatever the
  simulation server answers, the devices that can be addressed remain the ones the start-up report
  calls successful and the chaos device, and every temperature, setpoint, speed and duty
  of every device stays within its bounds.\<close>

theorem served_process_stays_safe:
  assumes "exp_law lib" and "validate_law sdk" and "wf_server srv"
    and "main_program lib sdk b srv s u argv (initial_world g) = (Serves report crash, w)"
    and "\<And>a path. parse_args b argv no_args = ParsedArgs a \<Longrightarrow> ma_config_path a = Some path \<Longrightarrow> file_in_range lib sdk u path"
    and "interleaved_run lib srv wire_args w w'"
  shows "(adapter_by_id lib d w' \<noteq> None \<longleftrightarrow> d = chaos_kDeviceId \<or> d \<in> set (successful_device_ids report)) \<and>
    tempctl_safe (tempctl_at d (w_tempctl w')) \<and> motorctl_safe (motorctl_at d (w_motorctl w')) \<and>
    sensor_quality (analogsensor_at lib d (w_analog w')) \<in> {''GOOD'', ''NOISY'', ''FAULT''}"
proof -
  obtain a path where a: "parse_args b argv no_args = ParsedArgs a" "ma_config_path a = Some path"
    and run: "start_up lib sdk b srv s u a path (initial_world g) = (Serves report crash, w)"
    using assms(4) by (auto simp: main_program_def split: parsed_args.splits option.splits)
  obtain c where c: "load_config sdk u path = Inr c" by (rule start_up_serves[OF run])
  have "adapter_by_id lib d w \<noteq> None \<longleftrightarrow> d = chaos_kDeviceId \<or> d \<in> set (successful_device_ids report)"
    by (rule started_process(4)[OF assms(2) _ run c]) (simp add: initial_world_def)
  moreover have "adapter_by_id lib d w' = adapter_by_id lib d w"
    using interleaved_run_registry[OF assms(6,3)] by (intro same_registry_addressable) simp_all
  moreover have "process_reachable lib w'"
    by (rule interleaved_run_reachable[OF assms(6,3) start_up_reachable[OF run assms(5)[OF a] process_reachable.before_main]])
  ultimately show ?thesis using reachable_in_range[OF assms(1)] by simp
qed

lemma example_in_range: "file_in_range ref_lib (ref_sdk example_files) u ''sim.yaml''"
proof -
  obtain c where "load_config (ref_sdk example_files) u ''sim.yaml'' = Inr c"
    "config_devices c = [\<lparr>ds_id = ''t0'', ds_type = ''tempctl'', ds_config = []\<rparr>]"
    using example_loads by blast
  then show ?thesis by (simp add: file_in_range_def spec_in_range_def cfg_double_def)
qed

theorem served_process_stays_safe_witness:
  "\<exists>report w. main_program ref_lib (ref_sdk example_files) example_build example_server 0 Inert [''--config'', ''sim.yaml''] (initial_world 0) =
       (Serves report None, w) \<and>
     tempctl_safe (tempctl_at ''t0'' (w_tempctl (snd (tick_body ref_lib example_server w))))"
proof -
  obtain report w where run: "main_program ref_lib (ref_sdk example_files) example_build example_server 0 Inert [''--config'', ''sim.yaml'']
      (initial_world 0) = (Serves report None, w)"
    using example_serves by blast
  have "wf_server example_server" by (simp add: wf_server_def example_server_def)
  moreover have "interleaved_run ref_lib example_server wire_args w (snd (tick_body ref_lib example_server w))"
    by (rule r_into_rtranclp) (rule disjI1[OF service_step.tick])
  ultimately have safe: "(\<And>a path. parse_args example_build [''--config'', ''sim.yaml''] no_args = ParsedArgs a \<Longrightarrow>
      ma_config_path a = Some path \<Longrightarrow> file_in_range ref_lib (ref_sdk example_files) Inert path) \<Longrightarrow>
    tempctl_safe (tempctl_at ''t0'' (w_tempctl (snd (tick_body ref_lib example_server w))))"
    using served_process_stays_safe[OF exp_law_ref validate_law_ref _ run] by blast
  have "tempctl_safe (tempctl_at ''t0'' (w_tempctl (snd (tick_body ref_lib example_server w))))"
    by (rule safe) (use example_in_range in auto)
  with run show ?thesis by blast
qed

end
