(* ===== verification/Lockout.thy ===== *)
theory Lockout
  imports Service
begin

text \<open>
  How the chaos device can shut itself off: the injected failures of calls have no deadline, only
  calls of the chaos device end them, and those are subject to injected failures themselves. The
  operations are taken one at a time here; which of them leave the failure rules alone is shown
  first, down to the body of the ticker.
\<close>

section \<open>Operations that leave the failure rules alone\<close>

abbreviation failure_rules :: "('g, 'e) world \<Rightarrow> (string, call_failure_fault list) smap" where
  "failure_rules w \<equiv> call_failure_faults (w_faults w)"

lemma query_rules [simp]:
  "failure_rules (snd (w_is_device_unavailable d w)) = failure_rules w"
  "failure_rules (snd (w_is_device_unreachable d w)) = failure_rules w"
  "failure_rules (snd (w_is_signal_faulted d sg w)) = failure_rules w"
  by (simp_all add: w_is_device_unavailable_def w_is_device_unreachable_def w_is_signal_faulted_def case_prod_beta)

lemma adapter_read_rules [simp]:
  "adapter_by_id lib d0 w0 = Some a \<Longrightarrow> failure_rules (snd (da_read_signals a d ids w)) = failure_rules w"
  by (elim adapter_cases) (simp_all add: adapter_defs case_prod_beta)

lemma mark_faulted_rules [simp]: "failure_rules (snd (mark_faulted d sigs w)) = failure_rules w"
  by (induction sigs arbitrary: w) (simp_all add: case_prod_beta Let_def)

lemma read_signals_rules [simp]: "failure_rules (snd (read_signals lib d ids w)) = failure_rules w"
  by (auto simp: read_signals_def case_prod_beta Let_def split: option.split)

lemma run_device_reader_rules [simp]: "failure_rules (snd (run_device_reader lib reader path w)) = failure_rules w"
  by (auto simp: run_device_reader_def case_prod_beta Let_def split: option.split list.split)

lemma list_loop_rules [simp]: "failure_rules (snd (list_loop lib h entries w)) = failure_rules w"
  by (induction entries arbitrary: w) (simp_all add: case_prod_beta Let_def split: option.split)

lemma inventory_rules [simp]:
  "failure_rules (snd (list_devices lib h w)) = failure_rules w"
  "failure_rules (snd (describe_device lib d w)) = failure_rules w"
  "failure_rules (snd (resolve_function_id lib d n w)) = failure_rules w"
  by (simp_all add: list_devices_def describe_device_def resolve_function_id_def case_prod_beta Let_def split: option.split)

lemma maybe_collect_signal_rules [simp]: "failure_rules (snd (maybe_collect_signal lib path out w)) = failure_rules w"
  by (auto simp: maybe_collect_signal_def registry_read_signal_def case_prod_beta Let_def split: option.split)

lemma collect_loop_rules [simp]: "failure_rules (snd (collect_loop lib paths out w)) = failure_rules w"
  by (induction paths arbitrary: out w) (simp_all add: case_prod_beta Let_def)

lemma tick_actuators_rules [simp]: "failure_rules (snd (tick_actuators lib w)) = failure_rules w"
  by (simp add: tick_actuators_def collect_actuator_signals_def case_prod_beta Let_def)

lemma write_sensors_rules [simp]: "failure_rules (write_sensors sensors w) = failure_rules w"
  by (simp add: write_sensors_def)

lemma update_control_rules [simp]:
  "failure_rules (adapter_update_control lib slot d w) = failure_rules w"
  by (cases slot)
    (auto simp: adapter_update_control_def tempctl_update_control_def registry_read_signal_def case_prod_beta Let_def
      split: option.split)

lemma update_controls_rules [simp]: "failure_rules (update_controls lib w) = failure_rules w"
  unfolding update_controls_def
  by (rule foldl_keeps[where I = "\<lambda>w'. failure_rules w' = failure_rules w"]) (auto split: option.split)

lemma update_device_rules [simp]: "failure_rules (update_device lib dt dev w) = failure_rules w"
  by (auto simp: update_device_def adapter_for_def adapter_defs split: option.split sim_device_type.split)

lemma update_devices_rules [simp]: "failure_rules (update_devices lib dt devs w) = failure_rules w"
  unfolding update_devices_def
  by (rule foldl_keeps[where I = "\<lambda>w'. failure_rules w' = failure_rules w"]) simp_all

lemma engine_tick_rules [simp]: "failure_rules (snd (snd (engine_tick lib srv acts e w))) = failure_rules w"
  by (auto simp: engine_tick_def local_tick_def Let_def case_prod_beta split: engine.split)

lemma admitted_rules [simp]: "failure_rules (admitted lib d f w) = failure_rules w"
  by (simp add: admitted_def Let_def w_sleep_ms_def)


section \<open>Calls under a lock\<close>

text \<open>The calls 4 and 5 of the chaos device, which set failure rules and clear them, fail for certain.\<close>

definition locked :: "(string, call_failure_fault list) smap \<Rightarrow> bool" where
  "locked rules \<longleftrightarrow> (\<forall>f \<in> {''4'', ''5''}. \<exists>faults r. m_find chaos_kDeviceId rules = Some faults \<and>
     find (\<lambda>r. cff_function_id r = f) faults = Some r \<and> dleq (Fin 1) (cff_failure_rate r))"

lemma locked_iff:
  "locked (call_failure_faults s) \<longleftrightarrow>
     (\<forall>f \<in> {''4'', ''5''}. \<exists>rate. failure_rate_of chaos_kDeviceId f s = Some rate \<and> dleq (Fin 1) rate)"
  by (auto simp: locked_def failure_rate_of_def split: option.splits)

lemma four_five: "to_string_nat 4 = ''4''" "to_string_nat 5 = ''5''"
  by (simp_all add: to_string_nat.simps digit_char_simps)

lemma draw_below_one:
  assumes "uniform_law lib" and "dleq (Fin 1) rate"
  shows "dless (fst (lib_uniform01 lib g)) rate"
proof -
  obtain u where "fst (lib_uniform01 lib g) = Fin u" "u < 1" using assms(1) by (auto simp: uniform_law_def)
  with assms(2) show ?thesis by (cases rate) auto
qed

lemma locked_fails:
  assumes "uniform_law lib" and "locked (failure_rules w)" and "f = kFnInjectCallFailure \<or> f = kFnClearFaults"
  shows "fails_now lib chaos_kDeviceId f w"
  using assms(2,3) draw_below_one[OF assms(1)] by (auto simp: fails_now_def locked_iff chaos_fn_defs four_five)

lemma chaos_call_rules:
  "f \<noteq> kFnInjectCallFailure \<Longrightarrow> f \<noteq> kFnClearFaults \<Longrightarrow>
     call_failure_faults (snd (chaos_call_function f as now s)) = call_failure_faults s"
  unfolding chaos_call_function_def
  by (auto simp: inject_device_unavailable_def inject_device_unreachable_def inject_signal_fault_def inject_call_latency_def
      case_prod_beta Let_def split: option.split)

lemma call_function_rules:
  assumes "uniform_law lib" and "locked (failure_rules w)"
  shows "failure_rules (snd (call_function lib d f as w)) = failure_rules w"
proof (cases "unavailable_now d w \<or> fails_now lib d f w \<or> adapter_by_id lib d w = None")
  case True
  then show ?thesis by (auto simp: call_function_eq)
next
  case False
  then obtain a where a: "adapter_by_id lib d w = Some a" and gates: "\<not> unavailable_now d w" "\<not> fails_now lib d f w" by auto
  from a show ?thesis
  proof (cases rule: adapter_by_id_cases)
    case 1
    have "f \<noteq> kFnInjectCallFailure" and "f \<noteq> kFnClearFaults" using locked_fails[OF assms] gates(2) 1(1) by auto
    with a gates 1 show ?thesis
      by (simp add: call_function_eq kChaos_def case_prod_beta chaos_call_rules)
  next
    case (2 t)
    with a gates show ?thesis
      by (cases t) (simp_all add: call_function_eq adapter_for_def adapter_defs case_prod_beta)
  qed
qed

lemma execute_commands_rules:
  assumes "uniform_law lib"
  shows "locked (failure_rules w) \<Longrightarrow> failure_rules (execute_commands lib cmds w) = failure_rules w"
  unfolding execute_commands_def
  by (rule foldl_keeps[where I = "\<lambda>w'. failure_rules w' = failure_rules w"])
    (auto simp: execute_engine_command_def case_prod_beta Let_def call_function_rules[OF assms] split: option.split)

lemma tick_body_rules:
  assumes "uniform_law lib" and "locked (failure_rules w)"
  shows "failure_rules (snd (tick_body lib srv w)) = failure_rules w"
  using assms(2)
  by (auto simp: tick_body_def case_prod_beta Let_def execute_commands_rules[OF assms(1)] split: option.split)

section \<open>The life of the process\<close>

lemma service_step_rules:
  "service_step lib srv ok_args w w' \<Longrightarrow> uniform_law lib \<Longrightarrow> locked (failure_rules w) \<Longrightarrow> failure_rules w' = failure_rules w"
  by (induction rule: service_step.induct)
    (simp_all add: rt_list_device_ids_def rt_has_device_def rt_capabilities_def rt_read_def rt_call_def rt_resolve_function_id_def
      on_wait_ready_def start_physics_def on_shutdown_def stop_physics_def case_prod_beta Let_def call_function_rules tick_body_rules)

lemma service_run_rules:
  "service_run lib srv ok_args w w' \<Longrightarrow> uniform_law lib \<Longrightarrow> locked (failure_rules w) \<Longrightarrow>
     failure_rules w' = failure_rules w"
  by (induction rule: rtranclp_induct) (auto dest: service_step_rules)

lemma locked_call_refused:
  assumes "uniform_law lib" and "locked (failure_rules w)" and "f = kFnInjectCallFailure \<or> f = kFnClearFaults"
  shows "\<not> acr_ok (fst (rt_call lib chaos_kDeviceId f as w))"
proof -
  let ?w = "snd (w_is_device_unreachable chaos_kDeviceId w)"
  have "fails_now lib chaos_kDeviceId f ?w" using locked_fails[OF assms(1) _ assms(3), of ?w] assms(2) by simp
  then show ?thesis by (simp add: rt_call_def case_prod_beta call_function_eq)
qed

text \<open>An accepted call of the chaos device to inject a failure of itself.\<close>

lemma injected_rule:
  assumes "rt_call lib chaos_kDeviceId kFnInjectCallFailure as w = (r, w')" and "acr_ok r"
    and "get_arg_string (arg_map as) ''device_id'' = Some d" and "get_arg_string (arg_map as) ''function_id'' = Some f"
    and "get_arg_double (arg_map as) ''failure_rate'' = Some rate"
  shows "failure_rate_of d' f' (w_faults w') = (if d' = d \<and> f' = f then Some rate else failure_rate_of d' f' (w_faults w))"
proof -
  let ?u = "after_unreachable chaos_kDeviceId w" and ?c = "kFnInjectCallFailure"
  obtain c w1 where c1: "call_function lib chaos_kDeviceId ?c (arg_map as) ?u = (c, w1)" by (metis prod.exhaust)
  then have okc: "cr_code c = CODE_OK" and c: "call_function lib chaos_kDeviceId ?c (arg_map as) ?u = (c, w')"
    using assms(1,2) by (auto simp: rt_call_def query_unreachable split: if_splits)
  let ?s = "admitted lib chaos_kDeviceId ?c ?u"
  have "(c, w') = (let (c, s) = chaos_call_function ?c (arg_map as) (w_now ?s) (w_faults ?s) in (c, ?s\<lparr>w_faults := s\<rparr>))"
    using c okc by (auto simp: call_function_eq adapter_by_id_def kChaos_def bad_def split: if_splits)
  then obtain s where s: "chaos_call_function ?c (arg_map as) (w_now ?s) (w_faults ?s) = (c, s)" and w': "w_faults w' = s"
    by (auto split: prod.splits)
  have "s = inject_call_failure d f rate (w_faults ?s)"
    using chaos_accepts_call_failureD[OF s okc] assms(3-5) by auto
  moreover have "failure_rate_of d' f' (w_faults ?s) = failure_rate_of d' f' (w_faults w)"
    by (rule failure_rate_of_cong) (simp add: after_unreachable_def)
  ultimately show ?thesis by (simp add: w' failure_rate_of_inject)
qed

section \<open>Properties\<close>

text \<open>C17. Two accepted calls shut the chaos device off for the rest of the process: once calls 5
  (\<open>clear_faults\<close>) and 4 (\<open>inject_call_failure\<close>) of the chaos device have been made to fail at rate 1, neither
  is accepted again, however the requests, ticks and commands that follow are ordered and whatever the simulation
  server answers, and every failure rule in force at that moment, on any device, stays as it is.\<close>

theorem chaos_lock_out:
  assumes "uniform_law lib"
    and "rt_call lib chaos_kDeviceId kFnInjectCallFailure as1 w = (r1, w1)" and "acr_ok r1"
    and "get_arg_string (arg_map as1) ''device_id'' = Some chaos_kDeviceId"
      "get_arg_string (arg_map as1) ''function_id'' = Some ''5''" "get_arg_double (arg_map as1) ''failure_rate'' = Some (Fin 1)"
    and "rt_call lib chaos_kDeviceId kFnInjectCallFailure as2 w1 = (r2, w2)" and "acr_ok r2"
    and "get_arg_string (arg_map as2) ''device_id'' = Some chaos_kDeviceId"
      "get_arg_string (arg_map as2) ''function_id'' = Some ''4''" "get_arg_double (arg_map as2) ''failure_rate'' = Some (Fin 1)"
    and "service_run lib srv ok_args w2 w3"
  shows "failure_rate_of d f (w_faults w3) = failure_rate_of d f (w_faults w2) \<and>
    \<not> acr_ok (fst (rt_call lib chaos_kDeviceId kFnInjectCallFailure as w3)) \<and>
    \<not> acr_ok (fst (rt_call lib chaos_kDeviceId kFnClearFaults as w3))"
proof -
  have "locked (failure_rules w2)"
    unfolding locked_iff using injected_rule[OF assms(2-6)] injected_rule[OF assms(7-11)] by simp
  then have same: "failure_rules w3 = failure_rules w2" and locked: "locked (failure_rules w3)"
    using service_run_rules[OF assms(12,1)] by simp_all
  from failure_rate_of_cong[OF same] locked_call_refused[OF assms(1) locked] show ?thesis by blast
qed

definition no_device_faults :: "('g, 'e) world \<Rightarrow> bool" where
  "no_device_faults w \<longleftrightarrow> device_unavailable_faults (w_faults w) = m_empty \<and> device_unreachable_faults (w_faults w) = m_empty"

lemma example_injection:
  assumes "no_device_faults w" and "failure_rate_of chaos_kDeviceId ''4'' (w_faults w) = None"
    and "get_arg_string (arg_map as) ''device_id'' = Some d" and "get_arg_string (arg_map as) ''function_id'' = Some f"
    and "get_arg_double (arg_map as) ''failure_rate'' = Some (Fin 1)" and "f = ''4'' \<or> f = ''5''"
  obtains r w' where "rt_call ref_lib chaos_kDeviceId kFnInjectCallFailure as w = (r, w')" and "acr_ok r" and "no_device_faults w'"
proof -
  have f: "is_numeric_function_id f" "f \<noteq> ''0''" using assms(6) by (auto simp: is_numeric_function_id_def is_digit_char_def)
  have q: "\<not> unreachable_now chaos_kDeviceId w" "\<not> unavailable_now chaos_kDeviceId w"
    "\<not> fails_now ref_lib chaos_kDeviceId kFnInjectCallFailure (after_unreachable chaos_kDeviceId w)"
    using assms(1,2) failure_rate_of_cong[of "w_faults (after_unreachable chaos_kDeviceId w)" "w_faults w" chaos_kDeviceId "''4''"]
    by (simp_all add: unreachable_now_def is_device_unreachable_def unavailable_now_def is_device_unavailable_def no_device_faults_def
        fails_now_def chaos_fn_defs four_five after_unreachable_def)
  let ?s = "admitted ref_lib chaos_kDeviceId kFnInjectCallFailure (after_unreachable chaos_kDeviceId w)"
  have n: "no_device_faults (?s\<lparr>w_faults := inject_call_failure d f (Fin 1) (w_faults ?s)\<rparr>)"
    using assms(1) by (simp add: no_device_faults_def admitted_def Let_def w_sleep_ms_def after_unreachable_def
        inject_call_failure_def case_prod_beta is_device_unreachable_def is_device_unavailable_def)
  have "rt_call ref_lib chaos_kDeviceId kFnInjectCallFailure as w =
      (\<lparr>acr_ok = True, acr_error_code = CODE_OK, acr_error_message = cr_message ok\<rparr>,
       ?s\<lparr>w_faults := inject_call_failure d f (Fin 1) (w_faults ?s)\<rparr>)"
    using q f by (simp add: rt_call_def query_unreachable call_function_eq adapter_by_id_def kChaos_def assms(3-5)
        chaos_call_function_def chaos_fn_defs ok_def)
  from that[OF this _ n] show thesis by simp
qed

definition example_args :: "string \<Rightarrow> (string \<times> pb_value) list" where
  "example_args f = [(''device_id'', make_string chaos_kDeviceId), (''function_id'', make_string f), (''failure_rate'', make_double (Fin 1))]"

lemma example_args_get [simp]:
  "get_arg_string (arg_map (example_args f)) ''device_id'' = Some chaos_kDeviceId"
  "get_arg_string (arg_map (example_args f)) ''function_id'' = Some f"
  "get_arg_double (arg_map (example_args f)) ''failure_rate'' = Some (Fin 1)"
  by (simp_all add: example_args_def arg_map_def m_mem_def)

definition example_injected :: "string \<Rightarrow> (nat, nat engine) world \<Rightarrow> (nat, nat engine) world" where
  "example_injected f w = snd (rt_call ref_lib chaos_kDeviceId kFnInjectCallFailure (example_args f) w)"

theorem chaos_lock_out_witness:
  "\<not> acr_ok (fst (rt_call ref_lib chaos_kDeviceId kFnClearFaults []
      (snd (tick_body ref_lib example_server (example_injected ''4'' (example_injected ''5'' (initial_world 0)))))))"
proof -
  let ?w = "initial_world 0 :: (nat, nat engine) world"
  have w: "no_device_faults ?w" "failure_rate_of chaos_kDeviceId ''4'' (w_faults ?w) = None"
    by (simp_all add: no_device_faults_def initial_world_def init_fault_state_def failure_rate_of_def)
  obtain r1 w1 where c1: "rt_call ref_lib chaos_kDeviceId kFnInjectCallFailure (example_args ''5'') ?w = (r1, w1)" "acr_ok r1"
    and n1: "no_device_faults w1"
    using example_injection[OF w, of "example_args ''5''" chaos_kDeviceId "''5''"] by auto
  have none: "failure_rate_of chaos_kDeviceId ''4'' (w_faults w1) = None"
    using injected_rule[OF c1 example_args_get] w(2) by simp
  obtain r2 w2 where c2: "rt_call ref_lib chaos_kDeviceId kFnInjectCallFailure (example_args ''4'') w1 = (r2, w2)" "acr_ok r2"
    by (rule example_injection[OF n1 none, of "example_args ''4''" chaos_kDeviceId "''4''"]) simp_all
  note tick = r_into_rtranclp[of "service_step ref_lib example_server wire_args", OF service_step.tick]
  from chaos_lock_out[OF uniform_law_ref c1 example_args_get c2 example_args_get tick] show ?thesis
    by (simp add: example_injected_def c1(1) c2(1))
qed

end
