(* ===== verification/Lock_Order.thy ===== *)
theory Lock_Order
  imports Main
begin

text \<open>
  Threads that lock mutexes. A thread is the list of the acquisitions and releases it has yet to
  make; a system of threads steps by one of them. What a piece of code may lock is a lock program, a
  skeleton of its scopes, branches and loops; a check on the skeleton alone, that scopes nest in the
  order of a rank, rules out every deadlock of the system. The theory knows nothing of the mutexes.
\<close>

section \<open>Systems of threads\<close>

datatype 'm lock_event = Acquire 'm | Release 'm

record ('t, 'm) lock_state =
  owner :: "'m \<Rightarrow> 't option"
  pending :: "'t \<Rightarrow> 'm lock_event list"

text \<open>A mutex is not recursive: its owner waits for itself when it acquires it again.\<close>

inductive lock_step :: "('t, 'm) lock_state \<Rightarrow> ('t, 'm) lock_state \<Rightarrow> bool" where
  acquire: "pending s t = Acquire m # es \<Longrightarrow> owner s m = None \<Longrightarrow>
    lock_step s \<lparr>owner = (owner s)(m \<mapsto> t), pending = (pending s)(t := es)\<rparr>"
| release: "pending s t = Release m # es \<Longrightarrow> owner s m = Some t \<Longrightarrow>
    lock_step s \<lparr>owner = (owner s)(m := None), pending = (pending s)(t := es)\<rparr>"

inductive_cases lock_stepE: "lock_step s s'"

definition lock_start :: "('t \<Rightarrow> 'm lock_event list) \<Rightarrow> ('t, 'm) lock_state" where
  "lock_start es = \<lparr>owner = (\<lambda>m. None), pending = es\<rparr>"

abbreviation lock_run :: "('t, 'm) lock_state \<Rightarrow> ('t, 'm) lock_state \<Rightarrow> bool" where
  "lock_run \<equiv> rtranclp lock_step"

definition all_done :: "('t, 'm) lock_state \<Rightarrow> bool" where
  "all_done s \<longleftrightarrow> (\<forall>t. pending s t = []) \<and> (\<forall>m. owner s m = None)"

section \<open>Lock programs\<close>

datatype 'm lock_prog =
    Skip
  | Guard 'm "'m lock_prog"
  | Then "'m lock_prog" "'m lock_prog"
  | Either "'m lock_prog" "'m lock_prog"
  | Repeat "'m lock_prog"

text \<open>Steps in order; one of several branches, or none of them.\<close>

definition in_order :: "'m lock_prog list \<Rightarrow> 'm lock_prog" where
  "in_order ps = foldr Then ps Skip"

definition one_of :: "'m lock_prog list \<Rightarrow> 'm lock_prog" where
  "one_of ps = foldr Either ps Skip"

inductive lock_trace :: "'m lock_prog \<Rightarrow> 'm lock_event list \<Rightarrow> bool" where
  skip: "lock_trace Skip []"
| guard: "lock_trace p es \<Longrightarrow> lock_trace (Guard m p) (Acquire m # es @ [Release m])"
| sequence: "lock_trace p es \<Longrightarrow> lock_trace q fs \<Longrightarrow> lock_trace (Then p q) (es @ fs)"
| left: "lock_trace p es \<Longrightarrow> lock_trace (Either p q) es"
| right: "lock_trace q es \<Longrightarrow> lock_trace (Either p q) es"
| leave: "lock_trace (Repeat p) []"
| again: "lock_trace p es \<Longrightarrow> lock_trace (Repeat p) fs \<Longrightarrow> lock_trace (Repeat p) (es @ fs)"

inductive_simps lock_trace_simps:
  "lock_trace Skip es" "lock_trace (Guard m p) es" "lock_trace (Then p q) es" "lock_trace (Either p q) es"

text \<open>The check: a scope is entered only above everything that is held. The list holds the innermost first.\<close>

primrec lock_ok :: "('m \<Rightarrow> nat) \<Rightarrow> 'm list \<Rightarrow> 'm lock_prog \<Rightarrow> bool" where
  "lock_ok rank held Skip = True"
| "lock_ok rank held (Guard m p) = (list_all (\<lambda>h. rank h < rank m) held \<and> lock_ok rank (m # held) p)"
| "lock_ok rank held (Then p q) = (lock_ok rank held p \<and> lock_ok rank held q)"
| "lock_ok rank held (Either p q) = (lock_ok rank held p \<and> lock_ok rank held q)"
| "lock_ok rank held (Repeat p) = lock_ok rank held p"

lemma lock_ok_lists [simp]:
  "lock_ok rank held (in_order ps) = list_all (lock_ok rank held) ps"
  "lock_ok rank held (one_of ps) = list_all (lock_ok rank held) ps"
  by (induction ps) (simp_all add: in_order_def one_of_def)

lemma lock_trace_one_of: "p \<in> set ps \<Longrightarrow> lock_trace p es \<Longrightarrow> lock_trace (one_of ps) es"
  by (induction ps) (auto simp: one_of_def intro: lock_trace.intros)

lemma lock_trace_none_of: "lock_trace (one_of ps) []"
  by (induction ps) (auto simp: one_of_def intro: lock_trace.intros)

lemma lock_trace_in_order:
  "lock_trace (in_order []) []"
  "lock_trace p es \<Longrightarrow> lock_trace (in_order ps) fs \<Longrightarrow> lock_trace (in_order (p # ps)) (es @ fs)"
  by (simp_all add: in_order_def lock_trace.intros)

lemma lock_trace_once: "lock_trace p es \<Longrightarrow> lock_trace (Repeat p) es"
  using lock_trace.again[OF _ lock_trace.leave] by fastforce

section \<open>Discipline of a trace\<close>

fun disciplined :: "('m \<Rightarrow> nat) \<Rightarrow> 'm list \<Rightarrow> 'm lock_event list \<Rightarrow> bool" where
  "disciplined rank held [] = (held = [])"
| "disciplined rank held (Acquire m # es) = (list_all (\<lambda>h. rank h < rank m) held \<and> disciplined rank (m # held) es)"
| "disciplined rank held (Release m # es) = (case held of [] \<Rightarrow> False | h # held \<Rightarrow> h = m \<and> disciplined rank held es)"

lemma lock_ok_disciplined:
  "lock_trace p es \<Longrightarrow> lock_ok rank held p \<Longrightarrow> disciplined rank held fs \<Longrightarrow> disciplined rank held (es @ fs)"
  by (induction arbitrary: held fs rule: lock_trace.induct) auto

text \<open>The set of mutexes a thread owns is its list of held ones, which its rest of the trace gives back.\<close>

definition lock_inv :: "('m \<Rightarrow> nat) \<Rightarrow> ('t, 'm) lock_state \<Rightarrow> bool" where
  "lock_inv rank s \<longleftrightarrow>
     (\<forall>t. \<exists>held. distinct held \<and> set held = {m. owner s m = Some t} \<and> disciplined rank held (pending s t))"

lemma lock_inv_start: "(\<And>t. disciplined rank [] (es t)) \<Longrightarrow> lock_inv rank (lock_start es)"
  by (simp add: lock_inv_def lock_start_def)

lemma lock_inv_step:
  assumes "lock_step s s'" and "lock_inv rank s"
  shows "lock_inv rank s'"
  unfolding lock_inv_def
proof
  fix u
  obtain held where held: "distinct held" "set held = {m. owner s m = Some u}" "disciplined rank held (pending s u)"
    using assms(2) by (auto simp: lock_inv_def)
  show "\<exists>held. distinct held \<and> set held = {m. owner s' m = Some u} \<and> disciplined rank held (pending s' u)"
    using assms(1)
  proof cases
    case (acquire t m es)
    then show ?thesis using held by (intro exI[of _ "if u = t then m # held else held"]) auto
  next
    case (release t m es)
    show ?thesis
    proof (cases "u = t")
      case True
      then obtain held' where "held = m # held'" "disciplined rank held' es"
        using held(3) release(2) by (cases held) auto
      with held(1,2) release(1) True show ?thesis by (intro exI[of _ held']) auto
    next
      case False
      with held release show ?thesis by (intro exI[of _ held]) auto
    qed
  qed
qed

lemma lock_inv_run: "lock_run s s' \<Longrightarrow> lock_inv rank s \<Longrightarrow> lock_inv rank s'"
  by (induction rule: rtranclp_induct) (auto intro: lock_inv_step)

lemma lock_inv_not_own:
  assumes "lock_inv rank s" and "pending s t = Acquire m # es"
  shows "owner s m \<noteq> Some t"
proof
  assume own: "owner s m = Some t"
  obtain held where "set held = {m. owner s m = Some t}" "disciplined rank held (pending s t)"
    using assms(1) by (auto simp: lock_inv_def)
  with own assms(2) have "m \<in> set held" "list_all (\<lambda>h. rank h < rank m) held" by auto
  then show False by (auto simp: list_all_iff)
qed

section \<open>No deadlock\<close>

text \<open>
  Mutexes ranked below a bound. In a system that keeps the discipline some thread can always go on:
  of the threads that wait, one waits for the mutex of highest rank, and the owner of that one does
  not wait.
\<close>

locale lock_order =
  fixes rank :: "'m \<Rightarrow> nat" and top :: nat
  assumes bounded: "rank m \<le> top"
begin

lemma waits_or_steps:
  assumes "lock_inv rank s" and "pending s t \<noteq> []" and "\<nexists>s'. lock_step s s'"
  obtains m es u where "pending s t = Acquire m # es" "owner s m = Some u"
proof (cases "pending s t")
  case (Cons e es)
  obtain held where held: "set held = {m. owner s m = Some t}" "disciplined rank held (pending s t)"
    using assms(1) by (auto simp: lock_inv_def)
  show thesis
  proof (cases e)
    case (Acquire m)
    with Cons assms(3) lock_step.acquire[of s t m es] that show thesis by (cases "owner s m") auto
  next
    case (Release m)
    with Cons held have "owner s m = Some t" by (auto split: list.splits)
    with Cons Release assms(3) lock_step.release[of s t m es] show thesis by auto
  qed
qed (use assms(2) in simp)

lemma some_step:
  assumes "lock_inv rank s" and "pending s t \<noteq> []"
  shows "\<exists>s'. lock_step s s'"
proof (rule ccontr)
  assume stuck: "\<not> ?thesis"
  define waited where "waited m \<longleftrightarrow> (\<exists>t es. pending s t = Acquire m # es)" for m
  obtain m0 es0 where "pending s t = Acquire m0 # es0" by (rule waits_or_steps[OF assms stuck])
  then have "waited m0" by (auto simp: waited_def)
  then obtain m where m: "waited m" "\<And>m'. waited m' \<Longrightarrow> rank m' \<le> rank m"
    using ex_has_greatest_nat[of waited m0 rank "Suc top"] bounded by (auto simp: less_Suc_eq_le)
  then obtain t1 es where "pending s t1 = Acquire m # es" by (auto simp: waited_def)
  with waits_or_steps[OF assms(1) _ stuck, of t1] obtain u where u: "owner s m = Some u" by auto
  obtain held where held: "set held = {m. owner s m = Some u}" "disciplined rank held (pending s u)"
    using assms(1) by (auto simp: lock_inv_def)
  with u have "m \<in> set held" by simp
  then have "pending s u \<noteq> []" using held(2) by auto
  then obtain m' es' where m': "pending s u = Acquire m' # es'" by (rule waits_or_steps[OF assms(1) _ stuck])
  with held(2) \<open>m \<in> set held\<close> have "rank m < rank m'" by (auto simp: list_all_iff)
  moreover have "waited m'" using m' by (auto simp: waited_def)
  ultimately show False using m(2)[of m'] by simp
qed

text \<open>Every step takes an event off a list, so a system of finitely many threads runs to its end.\<close>

lemma step_decreases:
  assumes "lock_step s s'" and "finite {t. pending s t \<noteq> []}"
  shows "(\<Sum>t | pending s' t \<noteq> []. length (pending s' t)) < (\<Sum>t | pending s t \<noteq> []. length (pending s t))"
    and "finite {t. pending s' t \<noteq> []}"
proof -
  obtain t e es where t: "pending s t = e # es" "pending s' = (pending s)(t := es)"
    using assms(1) by (auto elim!: lock_stepE)
  let ?T = "{t. pending s t \<noteq> []}"
  have sub: "{t. pending s' t \<noteq> []} \<subseteq> ?T" using t by auto
  then show "finite {t. pending s' t \<noteq> []}" using assms(2) by (rule finite_subset)
  have "(\<Sum>t | pending s' t \<noteq> []. length (pending s' t)) = (\<Sum>t \<in> ?T. length (pending s' t))"
    using sub assms(2) by (intro sum.mono_neutral_left) auto
  also have "\<dots> < (\<Sum>t \<in> ?T. length (pending s t))"
    using t assms(2) by (intro sum_strict_mono_ex1) auto
  finally show "(\<Sum>t | pending s' t \<noteq> []. length (pending s' t)) < (\<Sum>t \<in> ?T. length (pending s t))" .
qed

lemma done_when_nothing_pending:
  assumes "lock_inv rank s" and "\<And>t. pending s t = []"
  shows "all_done s"
proof -
  have "owner s m \<noteq> Some t" for m t
  proof -
    obtain held where "set held = {m. owner s m = Some t}" "disciplined rank held (pending s t)"
      using assms(1) by (auto simp: lock_inv_def)
    with assms(2) show ?thesis by auto
  qed
  then have "owner s m = None" for m by (cases "owner s m") auto
  with assms(2) show ?thesis by (simp add: all_done_def)
qed

lemma run_completes:
  assumes "lock_inv rank s" and "finite {t. pending s t \<noteq> []}"
  shows "\<exists>s'. lock_run s s' \<and> all_done s'"
  using assms
proof (induction "\<Sum>t | pending s t \<noteq> []. length (pending s t)" arbitrary: s rule: less_induct)
  case less
  show ?case
  proof (cases "\<forall>t. pending s t = []")
    case True
    with done_when_nothing_pending[OF less.prems(1)] show ?thesis by blast
  next
    case False
    then obtain s1 where s1: "lock_step s s1" using some_step[OF less.prems(1)] by blast
    from less.hyps[OF step_decreases(1)[OF s1 less.prems(2)] lock_inv_step[OF s1 less.prems(1)] step_decreases(2)[OF s1 less.prems(2)]]
    show ?thesis using s1 by (meson converse_rtranclp_into_rtranclp)
  qed
qed

end

end
