(* ===== verification/Locks.thy ===== *)
theory Locks
  imports Interleaving Lock_Order
begin

text \<open>
  The mutexes of \<open>src\<close> and what each function locks, as lock programs: one \<open>Guard\<close> for each
  \<open>lock_guard\<close>, over the calls made in its scope, with every branch and every number of rounds of a
  loop. The values the branches depend on are left out, but for one: a path that
  \<open>is_physics_driven\<close> has found driven is still driven when \<open>read_signal\<close> looks, so that the device
  reader is not called there. That nothing takes the mark away while the threads run is shown on
  the process.
\<close>

section \<open>The mutexes\<close>

datatype mutex =
    TempctlMutex | MotorctlMutex | RelayioMutex | AnalogsensorMutex  \<comment> \<open>\<open>g_state_mutex\<close> of the four modules\<close>
  | RegistryMutex                                                   \<comment> \<open>\<open>registry_mutex_\<close>\<close>
  | FaultMutex                                                      \<comment> \<open>\<open>State::mutex\<close> of the fault table\<close>
  | SinkMutex                                                       \<comment> \<open>\<open>g_sink_mutex\<close> of the logger\<close>

text \<open>The order of the documentation: device state before registry; the others are locked last.\<close>

fun mutex_rank :: "mutex \<Rightarrow> nat" where
  "mutex_rank RegistryMutex = 1"
| "mutex_rank FaultMutex = 2"
| "mutex_rank SinkMutex = 3"
| "mutex_rank _ = 0"

interpretation code_locks: lock_order mutex_rank 3
  by unfold_locales (case_tac m; simp)

section \<open>Fault table, logger and registry\<close>

definition fault_locks :: "mutex lock_prog" where
  "fault_locks = Guard FaultMutex Skip"

text \<open>A line below the threshold is not written.\<close>

definition log_locks :: "mutex lock_prog" where
  "log_locks = one_of [Guard SinkMutex Skip]"

definition registry_locks :: "mutex lock_prog" where
  "registry_locks = Guard RegistryMutex Skip"

text \<open>The reader is called after the scope of the guard, and not for a driven path.\<close>

definition registry_read_signal_locks :: "bool \<Rightarrow> mutex lock_prog \<Rightarrow> mutex lock_prog" where
  "registry_read_signal_locks driven reader =
     in_order [Guard RegistryMutex Skip, if driven then Skip else one_of [reader]]"

section \<open>Device modules\<close>

text \<open>The lambda \<open>maybe_physics_value\<close> of the modules; the reader it hands on is never called.\<close>

definition maybe_physics_locks :: "mutex lock_prog \<Rightarrow> mutex lock_prog" where
  "maybe_physics_locks reader =
     one_of [in_order [registry_locks, one_of [registry_read_signal_locks True reader]]]"

text \<open>Three modules take a snapshot and then read; the analog sensor holds its mutex while it reads.\<close>

definition tempctl_read_locks :: "mutex lock_prog \<Rightarrow> mutex lock_prog" where
  "tempctl_read_locks reader = in_order [Guard TempctlMutex Skip, Repeat (maybe_physics_locks reader)]"

definition motorctl_read_locks :: "mutex lock_prog \<Rightarrow> mutex lock_prog" where
  "motorctl_read_locks reader = in_order [Guard MotorctlMutex Skip, Repeat (maybe_physics_locks reader)]"

definition relayio_read_locks :: "mutex lock_prog \<Rightarrow> mutex lock_prog" where
  "relayio_read_locks reader = in_order [Guard RelayioMutex Skip, Repeat (maybe_physics_locks reader)]"

definition analogsensor_read_locks :: "mutex lock_prog \<Rightarrow> mutex lock_prog" where
  "analogsensor_read_locks reader = Guard AnalogsensorMutex (Repeat (maybe_physics_locks reader))"

text \<open>\<open>init\<close>, \<open>update_physics\<close> and \<open>call_function\<close> of a module hold its mutex to their end and call nothing that locks.\<close>

definition module_locks :: "mutex lock_prog" where
  "module_locks = one_of [Guard TempctlMutex Skip, Guard MotorctlMutex Skip, Guard RelayioMutex Skip, Guard AnalogsensorMutex Skip]"

definition tempctl_update_control_locks :: "mutex lock_prog \<Rightarrow> mutex lock_prog" where
  "tempctl_update_control_locks reader =
     one_of [in_order [Guard TempctlMutex Skip,
       one_of [in_order [registry_read_signal_locks False reader, one_of [Guard TempctlMutex Skip]]]]]"

definition chaos_call_locks :: "mutex lock_prog" where
  "chaos_call_locks = one_of [fault_locks]"

section \<open>The device manager\<close>

definition read_signals_locks :: "mutex lock_prog \<Rightarrow> mutex lock_prog" where
  "read_signals_locks reader =
     in_order [fault_locks,
       one_of [in_order [
         one_of [tempctl_read_locks reader, motorctl_read_locks reader, relayio_read_locks reader, analogsensor_read_locks reader],
         Repeat fault_locks]]]"

text \<open>
  The closure \<open>initialize_physics\<close> installs reads through the manager. The reads of driven paths below
  it do not come back to it, which closes the recursion.
\<close>

definition device_reader_locks :: "mutex lock_prog" where
  "device_reader_locks = one_of [read_signals_locks Skip]"

definition list_devices_locks :: "mutex lock_prog" where
  "list_devices_locks = Repeat fault_locks"

definition describe_device_locks :: "mutex lock_prog" where
  "describe_device_locks = fault_locks"

definition resolve_function_id_locks :: "mutex lock_prog" where
  "resolve_function_id_locks = one_of [describe_device_locks]"

definition call_function_locks :: "mutex lock_prog" where
  "call_function_locks =
     in_order [fault_locks, one_of [in_order [fault_locks, fault_locks, one_of [module_locks, chaos_call_locks]]]]"

section \<open>The ticker\<close>

definition maybe_collect_signal_locks :: "mutex lock_prog" where
  "maybe_collect_signal_locks =
     one_of [in_order [registry_locks, one_of [registry_read_signal_locks False device_reader_locks]]]"

definition local_tick_locks :: "mutex lock_prog" where
  "local_tick_locks = Repeat module_locks"

definition remote_tick_locks :: "mutex lock_prog" where
  "remote_tick_locks = one_of [log_locks]"

definition execute_engine_command_locks :: "mutex lock_prog" where
  "execute_engine_command_locks = one_of [log_locks, in_order [call_function_locks, one_of [log_locks]]]"

definition ticker_locks :: "mutex lock_prog" where
  "ticker_locks =
     in_order [log_locks, log_locks,
       Repeat (in_order [
         Repeat (one_of [tempctl_update_control_locks device_reader_locks]),
         Repeat maybe_collect_signal_locks,
         one_of [in_order [log_locks, log_locks]],
         one_of [log_locks,
           in_order [one_of [local_tick_locks, remote_tick_locks],
             one_of [log_locks],
             Repeat registry_locks,
             Repeat execute_engine_command_locks]]])]"

section \<open>The main thread\<close>

definition initialize_physics_locks :: "mutex lock_prog" where
  "initialize_physics_locks =
     in_order [one_of [log_locks], registry_locks, list_devices_locks, Repeat describe_device_locks, Repeat registry_locks]"

definition start_physics_locks :: "mutex lock_prog" where
  "start_physics_locks = one_of [log_locks, in_order [log_locks, log_locks]]"

definition runtime_locks :: "mutex lock_prog" where
  "runtime_locks =
     one_of [list_devices_locks,
       fault_locks,
       describe_device_locks,
       in_order [fault_locks, one_of [read_signals_locks device_reader_locks]],
       in_order [fault_locks, one_of [call_function_locks]],
       resolve_function_id_locks,
       start_physics_locks]"

text \<open>The devices are initialized, the physics set up, and the requests served; the join comes after, with nothing held.\<close>

definition main_locks :: "mutex lock_prog" where
  "main_locks =
     in_order [Repeat log_locks, Repeat (in_order [module_locks, log_locks]), Repeat log_locks, initialize_physics_locks,
       Repeat (one_of [start_physics_locks, log_locks]), Repeat runtime_locks]"

section \<open>A driven path stays driven\<close>

lemma write_keeps_driven: "is_physics_driven p r \<Longrightarrow> is_physics_driven p (registry_write_signal q v r)"
  by (simp add: registry_defs Let_def)

lemma atomic_step_driven:
  assumes "atomic_step lib w w'" and "w_signal_registry w = Some r" and "is_physics_driven p r"
  shows "\<exists>r'. w_signal_registry w' = Some r' \<and> is_physics_driven p r'"
  using assms(1)
proof cases
  case (call as ty d f)
  with assms(2,3) same_frame_fields(3)[OF adapter_for_frame(2)[where w = w and lib = lib]] show ?thesis by simp
next
  case (reading ty d ids)
  with assms(2,3) same_frame_fields(3)[OF adapter_for_frame(1)[where w = w and lib = lib]] show ?thesis by simp
next
  case (physics t ty d)
  with assms(2,3) same_frame_fields(3)[OF adapter_for_frame(3)[where w = w and lib = lib]] show ?thesis by simp
qed (use assms(2,3) write_keeps_driven in simp_all)

text \<open>
  Whatever the other thread does after \<open>is_physics_driven\<close> has answered, \<open>read_signal\<close> then
  answers from the cache: the result is the same whatever the reader does.
\<close>

lemma driven_read_calls_nobody:
  assumes "atomic_steps lib w w'" and "w_signal_registry w = Some r" and "is_physics_driven p r"
  shows "\<exists>r'. w_signal_registry w' = Some r' \<and> is_physics_driven p r' \<and>
    registry_read_signal run p r' x = (get_cached_value p r', x)"
  using assms
proof (induction rule: rtranclp_induct)
  case base
  then show ?case by (simp add: registry_defs split: option.split)
next
  case (step w1 w2)
  then obtain r1 where "w_signal_registry w1 = Some r1" "is_physics_driven p r1" by blast
  from atomic_step_driven[OF step.hyps(2) this] show ?case by (auto simp: registry_defs split: option.split)
qed

section \<open>The programs keep the order\<close>

lemmas lock_prog_defs = fault_locks_def log_locks_def registry_locks_def registry_read_signal_locks_def maybe_physics_locks_def
  tempctl_read_locks_def motorctl_read_locks_def relayio_read_locks_def analogsensor_read_locks_def module_locks_def
  tempctl_update_control_locks_def chaos_call_locks_def read_signals_locks_def device_reader_locks_def list_devices_locks_def
  describe_device_locks_def resolve_function_id_locks_def call_function_locks_def maybe_collect_signal_locks_def
  local_tick_locks_def remote_tick_locks_def execute_engine_command_locks_def ticker_locks_def initialize_physics_locks_def
  start_physics_locks_def runtime_locks_def main_locks_def

lemma programs_ordered: "lock_ok mutex_rank [] main_locks" "lock_ok mutex_rank [] ticker_locks"
  by (simp_all add: lock_prog_defs)

section \<open>Properties\<close>

datatype thread = MainThread | TickerThread

lemma finite_threads: "finite {t :: thread. P t}"
proof (rule finite_subset)
  show "{t. P t} \<subseteq> {MainThread, TickerThread}" by (auto, metis thread.exhaust)
qed simp

text \<open>C6. The two threads never deadlock. Whatever main thread and ticker thread do, in every state their
  locking reaches some thread can go on unless both are through, no thread waits for a mutex it holds
  itself, and the rest of their locking can be carried out to the end, where every mutex is free. In
  particular the ticker can always finish the tick \<open>stop_physics\<close> waits for.\<close>

theorem threads_never_deadlock:
  assumes "lock_trace main_locks es" and "lock_trace ticker_locks fs"
    and "lock_run (lock_start (case_thread es fs)) s"
  shows "(all_done s \<or> (\<exists>s'. lock_step s s')) \<and>
    (pending s t = Acquire m # rest \<longrightarrow> owner s m \<noteq> Some t) \<and>
    (\<exists>s'. lock_run s s' \<and> all_done s')"
proof -
  have "disciplined mutex_rank [] (case_thread es fs t)" for t
    using lock_ok_disciplined[OF assms(1) programs_ordered(1), of "[]"] lock_ok_disciplined[OF assms(2) programs_ordered(2), of "[]"]
    by (cases t) simp_all
  then have inv: "lock_inv mutex_rank s" by (intro lock_inv_run[OF assms(3)] lock_inv_start)
  have "all_done s \<or> (\<exists>s'. lock_step s s')"
    using code_locks.some_step[OF inv] code_locks.done_when_nothing_pending[OF inv] by blast
  moreover have "pending s t = Acquire m # rest \<longrightarrow> owner s m \<noteq> Some t" by (auto dest: lock_inv_not_own[OF inv])
  moreover have "\<exists>s'. lock_run s s' \<and> all_done s'" by (rule code_locks.run_completes[OF inv finite_threads])
  ultimately show ?thesis by blast
qed

text \<open>The main thread reads a driven signal of an analog sensor, the ticker writes a sensor value.\<close>

definition example_read :: "mutex lock_event list" where
  "example_read = [Acquire FaultMutex, Release FaultMutex, Acquire FaultMutex, Release FaultMutex,
     Acquire AnalogsensorMutex, Acquire RegistryMutex, Release RegistryMutex, Acquire RegistryMutex, Release RegistryMutex,
     Release AnalogsensorMutex]"

lemma lock_trace_cong: "lock_trace p es \<Longrightarrow> es = fs \<Longrightarrow> lock_trace p fs"
  by simp

lemma guard_trace: "lock_trace (Guard m Skip) [Acquire m, Release m]"
  using lock_trace.guard[OF lock_trace.skip] by simp

lemma example_maybe_physics: "lock_trace (maybe_physics_locks reader)
    [Acquire RegistryMutex, Release RegistryMutex, Acquire RegistryMutex, Release RegistryMutex]"
  unfolding maybe_physics_locks_def registry_read_signal_locks_def registry_locks_def
  by (rule lock_trace_cong)
    (rule lock_trace_one_of lock_trace_in_order guard_trace lock_trace.skip list.set_intros | simp)+

lemma example_runtime: "lock_trace runtime_locks example_read"
proof -
  let ?phys = "[Acquire RegistryMutex, Release RegistryMutex, Acquire RegistryMutex, Release RegistryMutex]"
  have "lock_trace (analogsensor_read_locks device_reader_locks) (Acquire AnalogsensorMutex # ?phys @ [Release AnalogsensorMutex])"
    unfolding analogsensor_read_locks_def by (intro lock_trace.guard lock_trace_once example_maybe_physics)
  then have "lock_trace (one_of [tempctl_read_locks device_reader_locks, motorctl_read_locks device_reader_locks,
        relayio_read_locks device_reader_locks, analogsensor_read_locks device_reader_locks])
      (Acquire AnalogsensorMutex # ?phys @ [Release AnalogsensorMutex])"
    by (rule lock_trace_one_of[rotated]) simp
  note lock_trace_in_order(2)[OF this lock_trace_in_order(2)[OF lock_trace.leave[of fault_locks] lock_trace_in_order(1)]]
  note lock_trace_in_order(2)[OF guard_trace lock_trace_in_order(2)[OF lock_trace_one_of[OF list.set_intros(1) this] lock_trace_in_order(1)]]
  then have "lock_trace (read_signals_locks device_reader_locks)
      ([Acquire FaultMutex, Release FaultMutex] @ Acquire AnalogsensorMutex # ?phys @ [Release AnalogsensorMutex])"
    by (simp add: read_signals_locks_def fault_locks_def)
  note lock_trace_in_order(2)[OF guard_trace lock_trace_in_order(2)[OF lock_trace_one_of[OF list.set_intros(1) this] lock_trace_in_order(1)]]
  then have "lock_trace (in_order [fault_locks, one_of [read_signals_locks device_reader_locks]]) example_read"
    by (simp add: example_read_def fault_locks_def)
  then show ?thesis unfolding runtime_locks_def by (rule lock_trace_one_of[rotated]) simp
qed

lemma example_main: "lock_trace main_locks ([Acquire RegistryMutex, Release RegistryMutex] @ example_read)"
proof -
  note none = lock_trace.leave lock_trace_none_of lock_trace_in_order(1)
  have "lock_trace initialize_physics_locks ([] @ [Acquire RegistryMutex, Release RegistryMutex] @ [] @ [] @ [] @ [])"
    unfolding initialize_physics_locks_def list_devices_locks_def registry_locks_def
    by (intro lock_trace_in_order(2) none guard_trace)
  then have "lock_trace main_locks ([] @ [] @ [] @ ([] @ [Acquire RegistryMutex, Release RegistryMutex] @ [] @ [] @ [] @ []) @ [] @ example_read @ [])"
    unfolding main_locks_def by (intro lock_trace_in_order(2) none lock_trace_once[OF example_runtime])
  then show ?thesis by simp
qed

lemma example_ticker: "lock_trace ticker_locks [Acquire RegistryMutex, Release RegistryMutex]"
proof -
  let ?sensor = "[Acquire RegistryMutex, Release RegistryMutex]"
  note none = lock_trace.leave lock_trace_none_of lock_trace_in_order(1)
  have "lock_trace (in_order [one_of [local_tick_locks, remote_tick_locks], one_of [log_locks], Repeat registry_locks,
      Repeat execute_engine_command_locks]) ([] @ [] @ ?sensor @ [] @ [])"
    unfolding registry_locks_def by (intro lock_trace_in_order(2) none lock_trace_once guard_trace)
  note work = lock_trace_one_of[OF _ this, of "[log_locks, _]"]
  have "lock_trace ticker_locks ([] @ [] @ ([] @ [] @ [] @ ([] @ [] @ ?sensor @ [] @ []) @ []) @ [])"
    unfolding ticker_locks_def
    by (intro lock_trace_in_order(2) none lock_trace_once work) (simp_all add: log_locks_def none)
  then show ?thesis by simp
qed

theorem threads_never_deadlock_witness:
  "\<exists>s'. lock_run (lock_start (case_thread ([Acquire RegistryMutex, Release RegistryMutex] @ example_read)
      [Acquire RegistryMutex, Release RegistryMutex])) s' \<and> all_done s'"
  using threads_never_deadlock[OF example_main example_ticker rtranclp.rtrancl_refl] by blast

end
