(* ===== verification/Fault_Spec.thy ===== *)
theory Fault_Spec
  imports Fault_Injection
begin

text \<open>
  What the fault table of \<open>src/chaos/fault_injection.cpp\<close> promises, without how it keeps it. The
  specification remembers when each fault ends and never forgets; the table drops expired faults
  when it is asked about them, keeps a list of faults per device and computes deadlines in 64
  bits. Every history of operations gets the same answers from both.
\<close>

section \<open>Histories\<close>

datatype fault_op =
    InjectUnavailable string int64
  | InjectUnreachable string int64
  | InjectSignal string string int64
  | InjectLatency string int64
  | InjectFailure string string double
  | ClearAll
  | AskUnavailable string
  | AskUnreachable string
  | AskSignal string string
  | AskLatency string
  | AskFails string string

datatype fault_answer = Done | Holds bool | Delay int64

text \<open>One operation of the table at a reading of the steady clock.\<close>

fun table_step :: "'g lib \<Rightarrow> int \<Rightarrow> fault_op \<Rightarrow> 'g fault_state \<Rightarrow> fault_answer \<times> 'g fault_state" where
  "table_step lib now (InjectUnavailable d ms) s = (Done, inject_device_unavailable d ms now s)"
| "table_step lib now (InjectUnreachable d ms) s = (Done, inject_device_unreachable d ms now s)"
| "table_step lib now (InjectSignal d sg ms) s = (Done, inject_signal_fault d sg ms now s)"
| "table_step lib now (InjectLatency d ms) s = (Done, inject_call_latency d ms s)"
| "table_step lib now (InjectFailure d f rate) s = (Done, inject_call_failure d f rate s)"
| "table_step lib now ClearAll s = (Done, clear_all_faults s)"
| "table_step lib now (AskUnavailable d) s = (let (b, s) = is_device_unavailable d now s in (Holds b, s))"
| "table_step lib now (AskUnreachable d) s = (let (b, s) = is_device_unreachable d now s in (Holds b, s))"
| "table_step lib now (AskSignal d sg) s = (let (b, s) = is_signal_faulted d sg now s in (Holds b, s))"
| "table_step lib now (AskLatency d) s = (Delay (get_call_latency d s), s)"
| "table_step lib now (AskFails d f) s = (let (b, s) = should_call_fail lib d f s in (Holds b, s))"

fun run_history :: "(int \<Rightarrow> fault_op \<Rightarrow> 's \<Rightarrow> fault_answer \<times> 's) \<Rightarrow> (int \<times> fault_op) list \<Rightarrow> 's \<Rightarrow> fault_answer list" where
  "run_history step [] s = []"
| "run_history step ((now, op) # hist) s = (let (answer, s) = step now op s in answer # run_history step hist s)"

section \<open>The specification\<close>

text \<open>When each fault ends, the latest end for a signal; the latency and the rates in force.\<close>

record 'g fault_spec =
  unavailable_until :: "string \<Rightarrow> int option"
  unreachable_until :: "string \<Rightarrow> int option"
  faulted_until :: "string \<Rightarrow> string \<Rightarrow> int option"
  latency_of :: "string \<Rightarrow> int64"
  rate_of :: "string \<Rightarrow> string \<Rightarrow> double option"
  spec_rng :: 'g

definition no_faults :: "'g \<Rightarrow> 'g fault_spec" where
  "no_faults g = \<lparr>unavailable_until = (\<lambda>d. None), unreachable_until = (\<lambda>d. None), faulted_until = (\<lambda>d sg. None),
     latency_of = (\<lambda>d. 0), rate_of = (\<lambda>d f. None), spec_rng = g\<rparr>"

text \<open>The exact end, in nanoseconds, of a fault of so many milliseconds.\<close>

definition end_of :: "int \<Rightarrow> int64 \<Rightarrow> int" where
  "end_of now ms = now + sint ms * 1000000"

definition lasts :: "int option \<Rightarrow> int \<Rightarrow> bool" where
  "lasts e now \<longleftrightarrow> (case e of None \<Rightarrow> False | Some t \<Rightarrow> now < t)"

definition later :: "int option \<Rightarrow> int \<Rightarrow> int" where
  "later e t = (case e of None \<Rightarrow> t | Some t' \<Rightarrow> max t t')"

fun spec_step :: "'g lib \<Rightarrow> int \<Rightarrow> fault_op \<Rightarrow> 'g fault_spec \<Rightarrow> fault_answer \<times> 'g fault_spec" where
  "spec_step lib now (InjectUnavailable d ms) a =
     (Done, a\<lparr>unavailable_until := (unavailable_until a)(d \<mapsto> end_of now ms)\<rparr>)"
| "spec_step lib now (InjectUnreachable d ms) a =
     (Done, a\<lparr>unreachable_until := (unreachable_until a)(d \<mapsto> end_of now ms)\<rparr>)"
| "spec_step lib now (InjectSignal d sg ms) a =
     (Done, a\<lparr>faulted_until := (faulted_until a)(d := (faulted_until a d)(sg \<mapsto> later (faulted_until a d sg) (end_of now ms)))\<rparr>)"
| "spec_step lib now (InjectLatency d ms) a = (Done, a\<lparr>latency_of := (latency_of a)(d := ms)\<rparr>)"
| "spec_step lib now (InjectFailure d f rate) a =
     (Done, a\<lparr>rate_of := (rate_of a)(d := (rate_of a d)(f \<mapsto> rate))\<rparr>)"
| "spec_step lib now ClearAll a = (Done, no_faults (spec_rng a))"
| "spec_step lib now (AskUnavailable d) a = (Holds (lasts (unavailable_until a d) now), a)"
| "spec_step lib now (AskUnreachable d) a = (Holds (lasts (unreachable_until a d) now), a)"
| "spec_step lib now (AskSignal d sg) a = (Holds (lasts (faulted_until a d sg) now), a)"
| "spec_step lib now (AskLatency d) a = (Delay (latency_of a d), a)"
| "spec_step lib now (AskFails d f) a =
     (case rate_of a d f of
        None \<Rightarrow> (Holds False, a)
      | Some rate \<Rightarrow> let (u, g) = lib_uniform01 lib (spec_rng a) in (Holds (dless u rate), a\<lparr>spec_rng := g\<rparr>))"

section \<open>The refinement\<close>

text \<open>From \<open>now\<close> on the table and the specification agree on what lasts.\<close>

definition represents :: "int \<Rightarrow> 'g fault_state \<Rightarrow> 'g fault_spec \<Rightarrow> bool" where
  "represents now s a \<longleftrightarrow>
     (\<forall>t \<ge> now. (\<forall>d. lasts (unavailable_deadline d s) t = lasts (unavailable_until a d) t) \<and>
       (\<forall>d. lasts (unreachable_deadline d s) t = lasts (unreachable_until a d) t) \<and>
       (\<forall>d sg. signal_fault_active d sg t s = lasts (faulted_until a d sg) t)) \<and>
     (\<forall>d. get_call_latency d s = latency_of a d) \<and> (\<forall>d f. failure_rate_of d f s = rate_of a d f) \<and>
     fault_rng s = spec_rng a"

lemma lasts_simps [simp]: "\<not> lasts None t" "lasts (Some e) t \<longleftrightarrow> t < e"
  by (simp_all add: lasts_def)

lemma lasts_later: "t < later e e' \<longleftrightarrow> lasts e t \<or> t < e'"
  by (auto simp: later_def lasts_def split: option.split)

lemma query_lasts:
  "fst (is_device_unavailable d t s) = lasts (unavailable_deadline d s) t"
  "fst (is_device_unreachable d t s) = lasts (unreachable_deadline d s) t"
  by (auto simp: unavailable_value unreachable_value lasts_def split: option.split)

text \<open>A query at \<open>now\<close> may forget, but only what is over.\<close>

lemma lasts_after_query:
  assumes "now \<le> t"
  shows "lasts (unavailable_deadline d (snd (is_device_unavailable d' now s))) t = lasts (unavailable_deadline d s) t"
    and "lasts (unreachable_deadline d (snd (is_device_unreachable d' now s))) t = lasts (unreachable_deadline d s) t"
  using assms by (auto simp: unavailable.deadline_query unreachable.deadline_query query_lasts lasts_def split: option.splits)

text \<open>The durations the calls accept, and a sum that fits the clock.\<close>

fun op_in_range :: "int \<Rightarrow> fault_op \<Rightarrow> bool" where
  "op_in_range now (InjectUnavailable d ms) = (0 \<le> sint ms \<and> end_of now ms < 2 ^ 63)"
| "op_in_range now (InjectUnreachable d ms) = (0 \<le> sint ms \<and> end_of now ms < 2 ^ 63)"
| "op_in_range now (InjectSignal d sg ms) = (0 \<le> sint ms \<and> end_of now ms < 2 ^ 63)"
| "op_in_range now _ = True"

lemma expires_in_range: "0 \<le> now \<Longrightarrow> 0 \<le> sint ms \<Longrightarrow> end_of now ms < 2 ^ 63 \<Longrightarrow> expires_at now ms = end_of now ms"
  unfolding end_of_def by (rule expires_at_exact) simp_all

lemma represents_later: "represents now s a \<Longrightarrow> now \<le> now' \<Longrightarrow> represents now' s a"
  by (auto simp: represents_def)

lemma get_call_latency_inject:
  "get_call_latency d (inject_call_latency d' ms s) = (if d = d' then ms else get_call_latency d s)"
  by (simp add: get_call_latency_def inject_call_latency_def)

text \<open>Each operation touches one of the six things a query can see.\<close>

lemmas view_defs = unavailable_deadline_def unreachable_deadline_def signal_fault_active_def get_call_latency_def failure_rate_of_def

lemma inject_device_unavailable_views [simp]:
  "unreachable_deadline d (inject_device_unavailable d' ms now s) = unreachable_deadline d s"
  "signal_fault_active d sg t (inject_device_unavailable d' ms now s) = signal_fault_active d sg t s"
  "get_call_latency d (inject_device_unavailable d' ms now s) = get_call_latency d s"
  "failure_rate_of d f (inject_device_unavailable d' ms now s) = failure_rate_of d f s"
  "fault_rng (inject_device_unavailable d' ms now s) = fault_rng s"
  by (simp_all add: view_defs inject_device_unavailable_def)

lemma inject_device_unreachable_views [simp]:
  "unavailable_deadline d (inject_device_unreachable d' ms now s) = unavailable_deadline d s"
  "signal_fault_active d sg t (inject_device_unreachable d' ms now s) = signal_fault_active d sg t s"
  "get_call_latency d (inject_device_unreachable d' ms now s) = get_call_latency d s"
  "failure_rate_of d f (inject_device_unreachable d' ms now s) = failure_rate_of d f s"
  "fault_rng (inject_device_unreachable d' ms now s) = fault_rng s"
  by (simp_all add: view_defs inject_device_unreachable_def)

lemma inject_signal_fault_views [simp]:
  "unavailable_deadline d (inject_signal_fault d' sg' ms now s) = unavailable_deadline d s"
  "unreachable_deadline d (inject_signal_fault d' sg' ms now s) = unreachable_deadline d s"
  "get_call_latency d (inject_signal_fault d' sg' ms now s) = get_call_latency d s"
  "failure_rate_of d f (inject_signal_fault d' sg' ms now s) = failure_rate_of d f s"
  "fault_rng (inject_signal_fault d' sg' ms now s) = fault_rng s"
  by (simp_all add: view_defs inject_signal_fault_def case_prod_beta Let_def)

lemma inject_call_latency_views [simp]:
  "unavailable_deadline d (inject_call_latency d' ms s) = unavailable_deadline d s"
  "unreachable_deadline d (inject_call_latency d' ms s) = unreachable_deadline d s"
  "signal_fault_active d sg t (inject_call_latency d' ms s) = signal_fault_active d sg t s"
  "failure_rate_of d f (inject_call_latency d' ms s) = failure_rate_of d f s"
  "fault_rng (inject_call_latency d' ms s) = fault_rng s"
  by (simp_all add: view_defs inject_call_latency_def)

lemma inject_call_failure_views [simp]:
  "unavailable_deadline d (inject_call_failure d' f' rate s) = unavailable_deadline d s"
  "unreachable_deadline d (inject_call_failure d' f' rate s) = unreachable_deadline d s"
  "signal_fault_active d sg t (inject_call_failure d' f' rate s) = signal_fault_active d sg t s"
  "get_call_latency d (inject_call_failure d' f' rate s) = get_call_latency d s"
  "fault_rng (inject_call_failure d' f' rate s) = fault_rng s"
  by (simp_all add: view_defs inject_call_failure_def case_prod_beta Let_def)

lemma is_device_unavailable_views [simp]:
  "unreachable_deadline d (snd (is_device_unavailable d' now s)) = unreachable_deadline d s"
  "signal_fault_active d sg t (snd (is_device_unavailable d' now s)) = signal_fault_active d sg t s"
  "get_call_latency d (snd (is_device_unavailable d' now s)) = get_call_latency d s"
  "failure_rate_of d f (snd (is_device_unavailable d' now s)) = failure_rate_of d f s"
  "fault_rng (snd (is_device_unavailable d' now s)) = fault_rng s"
  by (simp_all add: view_defs)

lemma is_device_unreachable_views [simp]:
  "unavailable_deadline d (snd (is_device_unreachable d' now s)) = unavailable_deadline d s"
  "signal_fault_active d sg t (snd (is_device_unreachable d' now s)) = signal_fault_active d sg t s"
  "get_call_latency d (snd (is_device_unreachable d' now s)) = get_call_latency d s"
  "failure_rate_of d f (snd (is_device_unreachable d' now s)) = failure_rate_of d f s"
  "fault_rng (snd (is_device_unreachable d' now s)) = fault_rng s"
  by (simp_all add: view_defs)

lemma is_signal_faulted_views [simp]:
  "unavailable_deadline d (snd (is_signal_faulted d' sg' now s)) = unavailable_deadline d s"
  "unreachable_deadline d (snd (is_signal_faulted d' sg' now s)) = unreachable_deadline d s"
  "get_call_latency d (snd (is_signal_faulted d' sg' now s)) = get_call_latency d s"
  "failure_rate_of d f (snd (is_signal_faulted d' sg' now s)) = failure_rate_of d f s"
  "fault_rng (snd (is_signal_faulted d' sg' now s)) = fault_rng s"
  by (simp_all add: view_defs)

lemma should_call_fail_views [simp]:
  "unavailable_deadline d (snd (should_call_fail lib d' f' s)) = unavailable_deadline d s"
  "unreachable_deadline d (snd (should_call_fail lib d' f' s)) = unreachable_deadline d s"
  "signal_fault_active d sg t (snd (should_call_fail lib d' f' s)) = signal_fault_active d sg t s"
  "get_call_latency d (snd (should_call_fail lib d' f' s)) = get_call_latency d s"
  "failure_rate_of d f (snd (should_call_fail lib d' f' s)) = failure_rate_of d f s"
  by (simp_all add: view_defs)

lemma clear_all_views [simp]:
  "unavailable_deadline d (clear_all_faults s) = None" "unreachable_deadline d (clear_all_faults s) = None"
  "\<not> signal_fault_active d sg t (clear_all_faults s)" "get_call_latency d (clear_all_faults s) = 0"
  "failure_rate_of d f (clear_all_faults s) = None" "fault_rng (clear_all_faults s) = fault_rng s"
  by (simp_all add: view_defs clear_all_faults_def)

lemma step_refines:
  assumes "represents now s a" and "0 \<le> now" and "op_in_range now op"
  shows "fst (table_step lib now op s) = fst (spec_step lib now op a) \<and>
    represents now (snd (table_step lib now op s)) (snd (spec_step lib now op a))"
proof (cases op)
  case (InjectUnavailable d ms)
  with assms show ?thesis by (simp add: represents_def unavailable.deadline_inject expires_in_range)
next
  case (InjectUnreachable d ms)
  with assms show ?thesis by (simp add: represents_def unreachable.deadline_inject expires_in_range)
next
  case (InjectSignal d sg ms)
  with assms show ?thesis by (auto simp: represents_def signal_fault_active_inject expires_in_range lasts_later)
next
  case (InjectLatency d ms)
  with assms show ?thesis by (simp add: represents_def get_call_latency_inject)
next
  case (InjectFailure d f rate)
  with assms show ?thesis by (simp add: represents_def failure_rate_of_inject)
next
  case ClearAll
  with assms show ?thesis by (simp add: represents_def no_faults_def)
next
  case (AskUnavailable d)
  with assms show ?thesis by (simp add: represents_def case_prod_beta query_lasts lasts_after_query)
next
  case (AskUnreachable d)
  with assms show ?thesis by (simp add: represents_def case_prod_beta query_lasts lasts_after_query)
next
  case (AskSignal d sg)
  with assms show ?thesis by (simp add: represents_def case_prod_beta is_signal_faulted_iff is_signal_faulted_purge)
next
  case (AskLatency d)
  with assms show ?thesis by (simp add: represents_def)
next
  case (AskFails d f)
  show ?thesis
  proof (cases "rate_of a d f")
    case None
    with AskFails assms show ?thesis by (simp add: represents_def should_call_fail_eq)
  next
    case (Some rate)
    then have "failure_rate_of d f s = Some rate" and "fault_rng s = spec_rng a" using assms(1) by (simp_all add: represents_def)
    then have "fst (should_call_fail lib d f s) = dless (fst (lib_uniform01 lib (spec_rng a))) rate"
      and "fault_rng (snd (should_call_fail lib d f s)) = snd (lib_uniform01 lib (spec_rng a))"
      by (simp_all add: should_call_fail_eq)
    with AskFails Some assms(1) show ?thesis by (simp add: represents_def case_prod_beta)
  qed
qed

fun history_ok :: "int \<Rightarrow> (int \<times> fault_op) list \<Rightarrow> bool" where
  "history_ok start [] = True"
| "history_ok start ((now, op) # hist) = (start \<le> now \<and> op_in_range now op \<and> history_ok now hist)"

lemma history_refines:
  "represents start s a \<Longrightarrow> 0 \<le> start \<Longrightarrow> history_ok start hist \<Longrightarrow>
     run_history (table_step lib) hist s = run_history (spec_step lib) hist a"
proof (induction hist arbitrary: start s a)
  case (Cons e hist)
  obtain now op where e: "e = (now, op)" by (cases e)
  have "represents now s a" using Cons.prems by (auto simp: e intro: represents_later)
  from step_refines[OF this, of op lib] Cons.prems
    Cons.IH[of now "snd (table_step lib now op s)" "snd (spec_step lib now op a)"] show ?case
    by (simp add: e case_prod_beta)
qed simp

lemma represents_initial: "represents now (init_fault_state g) (no_faults g)"
  by (simp add: represents_def no_faults_def init_fault_state_def view_defs)

section \<open>Properties\<close>

text \<open>C7. The fault table implements its specification. Along any history of injections, queries and resets at
  readings of a clock that does not go back, the table answers every query as the specification that never
  forgets: a device fault and the latest of the faults of a signal hold from the
  injection to its exact end, a later injection of a device fault replaces the earlier one, latency and failure rates
  stay until they are replaced or all is cleared, and the random engine is consulted for the same calls.
  The durations are those whose end fits the clock.\<close>

theorem fault_table_refines_spec:
  assumes "0 \<le> start" and "history_ok start hist"
  shows "run_history (table_step lib) hist (init_fault_state g) = run_history (spec_step lib) hist (no_faults g)"
  by (rule history_refines[OF represents_initial assms])

definition example_history :: "(int \<times> fault_op) list" where
  "example_history = [(0, InjectSignal ''m0'' ''s'' 5), (1000000, InjectSignal ''m0'' ''s'' 2), (2000000, AskUnavailable ''m0''),
     (4999999, AskSignal ''m0'' ''s''), (5000000, AskSignal ''m0'' ''s'')]"

theorem fault_table_refines_spec_witness:
  "run_history (table_step ref_lib) example_history (init_fault_state 0) = [Done, Done, Holds False, Holds True, Holds False]"
proof -
  have "history_ok 0 example_history" by (simp add: example_history_def end_of_def)
  from fault_table_refines_spec[OF order_refl this, of ref_lib 0] show ?thesis
    by (simp add: example_history_def no_faults_def later_def end_of_def)
qed

end
