(* ===== verification/Logger.thy ===== *)
theory Logger
  imports Prelude
begin

text \<open>
  \<open>src/logging/logger.hpp\<close> and \<open>.cpp\<close>: the levels, their parser and printer, the threshold
  and the sink. The sink is the text written to the standard error stream, with the number of
  characters already flushed. \<open>localtime\<close> and \<open>put_time\<close> depend on the machine: the text they make of a
  number of seconds is the argument \<open>put_time\<close>.
\<close>

section \<open>Levels\<close>

datatype log_level = LevelDebug | LevelInfo | LevelWarn | LevelError | LevelNone

primrec level_rank :: "log_level \<Rightarrow> int" where
  "level_rank LevelDebug = 0"
| "level_rank LevelInfo = 1"
| "level_rank LevelWarn = 2"
| "level_rank LevelError = 3"
| "level_rank LevelNone = 4"

lemma level_rank_inj: "level_rank a = level_rank b \<longleftrightarrow> a = b"
  by (cases a; cases b) simp_all

instantiation log_level :: linorder
begin

definition less_eq_log_level :: "log_level \<Rightarrow> log_level \<Rightarrow> bool" where
  "less_eq_log_level a b \<longleftrightarrow> level_rank a \<le> level_rank b"

definition less_log_level :: "log_level \<Rightarrow> log_level \<Rightarrow> bool" where
  "less_log_level a b \<longleftrightarrow> level_rank a < level_rank b"

instance
  by standard (auto simp: less_eq_log_level_def less_log_level_def level_rank_inj)

end

text \<open>\<open>toupper\<close> in the C locale.\<close>

definition to_upper :: "char \<Rightarrow> char" where
  "to_upper c = (if (97::nat) \<le> of_char c \<and> of_char c \<le> (122::nat) then char_of (of_char c - 32 :: nat) else c)"

definition upper_copy :: "string \<Rightarrow> string" where
  "upper_copy input = map to_upper input"

text \<open>The level and the flag \<open>ok\<close>.\<close>

definition parse_level :: "string \<Rightarrow> log_level \<times> bool" where
  "parse_level value =
    (let normalized = upper_copy value in
     if normalized = ''DEBUG'' then (LevelDebug, True)
     else if normalized = ''INFO'' then (LevelInfo, True)
     else if normalized = ''WARN'' \<or> normalized = ''WARNING'' then (LevelWarn, True)
     else if normalized = ''ERROR'' then (LevelError, True)
     else if normalized = ''NONE'' \<or> normalized = ''OFF'' then (LevelNone, True)
     else (LevelInfo, False))"

primrec level_to_string :: "log_level \<Rightarrow> string" where
  "level_to_string LevelDebug = ''DEBUG''"
| "level_to_string LevelInfo = ''INFO''"
| "level_to_string LevelWarn = ''WARN''"
| "level_to_string LevelError = ''ERROR''"
| "level_to_string LevelNone = ''NONE''"

section \<open>The logger\<close>

record logger =
  log_threshold :: log_level     \<comment> \<open>\<open>g_threshold\<close>\<close>
  log_sink :: string             \<comment> \<open>what was written to \<open>cerr\<close>\<close>
  log_flushed :: nat

definition initial_logger :: logger where
  "initial_logger = \<lparr>log_threshold = LevelInfo, log_sink = [], log_flushed = 0\<rparr>"



definition logger_level :: "logger \<Rightarrow> log_level" where
  "logger_level lg = log_threshold lg"

text \<open>\<open>setfill('0')\<close>, \<open>setw(3)\<close>.\<close>

definition pad3 :: "nat \<Rightarrow> string" where
  "pad3 n = (let s = to_string_nat n in replicate (3 - length s) (CHR ''0'') @ s)"

text \<open>\<open>now\<close> is the system clock in nanoseconds since the epoch.\<close>

definition log_line :: "(nat \<Rightarrow> string) \<Rightarrow> nat \<Rightarrow> log_level \<Rightarrow> string \<Rightarrow> string \<Rightarrow> string" where
  "log_line put_time now level component message =
     ''['' @ put_time (now div 1000000000) @ ''.'' @ pad3 (now div 1000000 mod 1000) @ ''] '' @
     ''['' @ level_to_string level @ ''] '' @
     ''['' @ (if component = [] then ''General'' else component) @ ''] '' @ message @ [CHR 0x0A]"

definition log ::
  "(nat \<Rightarrow> string) \<Rightarrow> nat \<Rightarrow> log_level \<Rightarrow> string \<Rightarrow> string \<Rightarrow> logger \<Rightarrow> logger" where
  "log put_time now level component message lg =
    (let threshold = log_threshold lg in
     if level_rank level < level_rank threshold then lg
     else
       let lg = lg\<lparr>log_sink := log_sink lg @ log_line put_time now level component message\<rparr>
       in if level_rank LevelError \<le> level_rank level then lg\<lparr>log_flushed := length (log_sink lg)\<rparr> else lg)"


section \<open>Facts\<close>

lemma upper_copy_length [simp]: "length (upper_copy s) = length s"
  by (simp add: upper_copy_def)

lemma to_upper_idem [simp]: "to_upper (to_upper c) = to_upper c"
  using of_char_less[of c] by (auto simp: to_upper_def of_char_of take_bit_eq_mod)

lemma upper_copy_idem [simp]: "upper_copy (upper_copy s) = upper_copy s"
  by (simp add: upper_copy_def comp_def)

lemma upper_level [simp]: "upper_copy (level_to_string l) = level_to_string l"
  by (cases l) (simp_all add: upper_copy_def to_upper_def)

text \<open>The spellings of a level, in capitals.\<close>

primrec spellings :: "log_level \<Rightarrow> string list" where
  "spellings LevelDebug = [''DEBUG'']"
| "spellings LevelInfo = [''INFO'']"
| "spellings LevelWarn = [''WARN'', ''WARNING'']"
| "spellings LevelError = [''ERROR'']"
| "spellings LevelNone = [''NONE'', ''OFF'']"

text \<open>Which letters are the same up to case, by the two alphabets written out: the reference for
  \<open>upper_copy\<close>.\<close>

definition same_letter :: "char \<Rightarrow> char \<Rightarrow> bool" where
  "same_letter c d \<longleftrightarrow>
     c = d \<or> (c, d) \<in> set (zip ''abcdefghijklmnopqrstuvwxyz'' ''ABCDEFGHIJKLMNOPQRSTUVWXYZ'')"

definition spells :: "string \<Rightarrow> log_level \<Rightarrow> bool" where
  "spells s l \<longleftrightarrow> (\<exists>t \<in> set (spellings l). list_all2 same_letter s t)"

lemma lower_case_letters: "map char_of [97 ..< 123 :: nat] = ''abcdefghijklmnopqrstuvwxyz''"
  by code_simp

lemma to_upper_alphabet: "map to_upper ''abcdefghijklmnopqrstuvwxyz'' = ''ABCDEFGHIJKLMNOPQRSTUVWXYZ''"
  by code_simp

lemma lower_case_range: "(97::nat) \<le> of_char c \<and> of_char c \<le> (122::nat) \<longleftrightarrow> c \<in> set ''abcdefghijklmnopqrstuvwxyz''"
proof
  assume "(97::nat) \<le> of_char c \<and> of_char c \<le> (122::nat)"
  then have "of_char c \<in> set [97 ..< 123 :: nat]" unfolding set_upt atLeastLessThan_iff by linarith
  moreover have "c = char_of (of_char c :: nat)" by simp
  ultimately have "c \<in> set (map char_of [97 ..< 123 :: nat])" unfolding set_map by (rule image_eqI[rotated])
  then show "c \<in> set ''abcdefghijklmnopqrstuvwxyz''" unfolding lower_case_letters .
qed auto

lemma zip_map_image: "(c, d) \<in> set (zip xs (map f xs)) \<longleftrightarrow> c \<in> set xs \<and> d = f c"
  by (induction xs) auto

lemma to_upper_same_letter:
  assumes "d \<in> set ''ABCDEFGHIJKLMNOPQRSTUVWXYZ''"
  shows "to_upper c = d \<longleftrightarrow> same_letter c d"
proof -
  have "same_letter c d \<longleftrightarrow> c = d \<or> c \<in> set ''abcdefghijklmnopqrstuvwxyz'' \<and> d = to_upper c"
    unfolding same_letter_def to_upper_alphabet[symmetric] zip_map_image ..
  moreover have "d \<notin> set ''abcdefghijklmnopqrstuvwxyz''" using assms by auto
  ultimately show ?thesis unfolding to_upper_def lower_case_range[symmetric] by (metis (full_types))
qed

lemma upper_copy_same_letter:
  assumes "\<And>c d. d \<in> set t \<Longrightarrow> to_upper c = d \<longleftrightarrow> same_letter c d"
  shows "upper_copy s = t \<longleftrightarrow> list_all2 same_letter s t"
  using assms
proof (induction s arbitrary: t)
  case (Cons c s)
  then show ?case by (cases t) (simp_all add: upper_copy_def)
qed (auto simp: upper_copy_def)

lemma spellings_capitals: "t \<in> set (spellings l) \<Longrightarrow> set t \<subseteq> set ''ABCDEFGHIJKLMNOPQRSTUVWXYZ''"
  by (cases l) auto

lemma upper_copy_spells: "upper_copy s \<in> set (spellings l) \<longleftrightarrow> spells s l"
proof -
  have "upper_copy s = t \<longleftrightarrow> list_all2 same_letter s t" if "t \<in> set (spellings l)" for t
    using to_upper_same_letter spellings_capitals[OF that] by (intro upper_copy_same_letter) blast
  then show ?thesis by (auto simp: spells_def)
qed

lemma parse_level_iff: "parse_level s = (l, True) \<longleftrightarrow> upper_copy s \<in> set (spellings l)"
  by (cases l) (auto simp: parse_level_def Let_def split: if_splits)

lemma parse_level_bad: "(\<forall>k. upper_copy s \<notin> set (spellings k)) \<longleftrightarrow> parse_level s = (LevelInfo, False)"
proof
  assume none: "\<forall>k. upper_copy s \<notin> set (spellings k)"
  show "parse_level s = (LevelInfo, False)"
    using none[THEN spec, of LevelDebug] none[THEN spec, of LevelInfo] none[THEN spec, of LevelWarn]
      none[THEN spec, of LevelError] none[THEN spec, of LevelNone]
    by (simp add: parse_level_def)
next
  assume "parse_level s = (LevelInfo, False)"
  then show "\<forall>k. upper_copy s \<notin> set (spellings k)" by (auto simp flip: parse_level_iff)
qed

lemma log_threshold_log [simp]: "log_threshold (log pt now l c m lg) = log_threshold lg"
  by (simp add: log_def Let_def)






text \<open>A run of the program, as far as the logger sees it.\<close>

type_synonym log_call = "nat \<times> log_level \<times> string \<times> string"

definition log_one :: "(nat \<Rightarrow> string) \<Rightarrow> logger \<Rightarrow> log_call \<Rightarrow> logger" where
  "log_one pt lg call = (case call of (now, l, c, m) \<Rightarrow> log pt now l c m lg)"


lemma log_run_threshold [simp]: "log_threshold (foldl (log_one pt) lg calls) = log_threshold lg"
  by (induction calls arbitrary: lg) (simp_all add: log_one_def split: prod.split)


section \<open>Properties\<close>

text \<open>C39. Printing and parsing log levels round-trip. The printed form of a level is parsed as that
  level; the parser gives a level with \<open>ok\<close> exactly on its spellings, the printed form and the
  synonyms \<open>WARNING\<close> and \<open>OFF\<close>, each letter in capitals or not (the two alphabets are written out),
  and everything else is \<open>INFO\<close> without \<open>ok\<close>.\<close>

theorem logger_level_roundtrip:
  "parse_level (level_to_string l) = (l, True) \<and>
   (parse_level s = (l, True) \<longleftrightarrow> (\<exists>t \<in> set (spellings l). list_all2 same_letter s t)) \<and>
   (parse_level s = (LevelInfo, False) \<longleftrightarrow> \<not> (\<exists>k. \<exists>t \<in> set (spellings k). list_all2 same_letter s t))"
proof (intro conjI)
  show "parse_level (level_to_string l) = (l, True)"
    unfolding parse_level_iff upper_level by (cases l) simp_all
  show "parse_level s = (l, True) \<longleftrightarrow> (\<exists>t \<in> set (spellings l). list_all2 same_letter s t)"
    unfolding parse_level_iff upper_copy_spells spells_def ..
  show "parse_level s = (LevelInfo, False) \<longleftrightarrow> \<not> (\<exists>k. \<exists>t \<in> set (spellings k). list_all2 same_letter s t)"
    unfolding parse_level_bad[symmetric] upper_copy_spells spells_def by blast
qed


end
