(* ===== verification/Spec2Isabelle.thy ===== *)
theory Spec2Isabelle
  imports Main_Program Lockout Locks Fault_Spec Logger
begin

text \<open>
  The simulated device provider under \<open>src/src\<close>: a process that serves simulated devices over ADPP,
  injects faults on request and steps their physics from a ticker thread, on its own or through an
  external FluxGraph simulation.

  \<^bold>\<open>Parts and how they interact.\<close> \<open>main\<close> (\<open>core/main.cpp\<close>) reads the arguments, loads the configuration
  (\<open>config.cpp\<close>, \<open>config_schema.cpp\<close>), lets the device factory initialize the configured devices
  (\<open>devices/common/device_factory.cpp\<close>), makes the simulation engine of the configured mode
  (\<open>simulation\<close>), hands it to the device manager (\<open>devices/common/device_manager.cpp\<close>) and enters the
  run loop of the provider SDK, which calls the runtime (\<open>core/sim_provider_runtime.cpp\<close>). The runtime
  forwards inventory, reads and calls to the manager; the manager asks the fault table
  (\<open>chaos/fault_injection.cpp\<close>) and goes through a table of function pointers
  (\<open>devices/common/device_adapter.cpp\<close>) to the device modules (\<open>devices/tempctl\<close>, \<open>motorctl\<close>, \<open>relayio\<close>,
  \<open>analogsensor\<close>) or to the chaos device, whose calls write the fault table. The ticker thread of the manager runs
  the control loops, collects the actuators, ticks the engine, writes the sensors into the
  signal registry (\<open>devices/common/signal_registry.cpp\<close>) and executes the commands of the simulation
  as calls; the control loops read the registry, which falls back on the devices.

  \<^bold>\<open>Theories\<close>, in the order of their imports.

    \<^item> \<open>Prelude\<close>: ordered maps as \<open>std::map\<close>, text and numbers, integers in 64 bits, the collections of hints.
    \<^item> \<open>Float64\<close>: the \<open>double\<close> of the code, binary64 with round to nearest even over rationals,
      infinities and NaN, with the monotony of rounding the bounds rest on.
    \<^item> \<open>Adpp\<close>: messages, descriptors and results, and the helpers of \<open>device_common.hpp\<close>.
    \<^item> \<open>Environment\<close>: what lies outside the repository, as records of functions, and the laws assumed of it.
    \<^item> \<open>Fault_Injection\<close>, \<open>Chaos_Control\<close>, \<open>Signal_Registry\<close>: the three components of these names. The two
      device-wide faults share the locale \<open>expiring_fault\<close>. \<open>Fault_Spec\<close>: what the fault table promises,
      as a state that never forgets, and the refinement.
    \<^item> \<open>Device_Module\<close>: the locale every device module is an instance of: calls and reads stay with
      their device, a rejected call changes nothing, reads return what is advertised.
    \<^item> \<open>Tempctl\<close>, \<open>Motorctl\<close>, \<open>Relayio\<close>, \<open>Analogsensor\<close>: state, initialization, handlers, physics and
      capabilities of the modules, their interpretations of that locale, their step relations and
      invariants.
    \<^item> \<open>World\<close>: the record of all state of the process. \<open>Device_Adapter\<close>: the function table.
      \<open>Device_Factory\<close>, \<open>Device_Manager\<close>: start-up of the devices; inventory, reads, calls and the set-up of the
      physics.
    \<^item> \<open>Config_Schema\<close>, \<open>Config\<close>: the schema as data and \<open>load_config\<close>.
    \<^item> \<open>Flux_Client\<close>, \<open>Flux_Session\<close>, \<open>Flux_Properties\<close>: the client of the simulation server, a trace of its
      procedure calls and its waits for the connection beside its state, the session, its loss and the
      values of signals read off the trace alone. The retry loop is the
      locale \<open>recorded_call\<close>.
    \<^item> \<open>Engines\<close>: the FluxGraph adapter and the null, local and remote engines.
    \<^item> \<open>Ticker\<close>, \<open>Interleaving\<close>, \<open>Process\<close>: the body and loop of \<open>ticker_thread_func\<close>; the single accesses two
      threads interleave at, as a step relation, with the locale \<open>process_invariant\<close>; what holds of
      every state the process reaches.
    \<^item> \<open>Lock_Order\<close>, \<open>Locks\<close>: threads that lock mutexes, lock programs and the locale \<open>lock_order\<close>; the lock program
      of each function that locks or calls one that does, and of the two threads.
    \<^item> \<open>Runtime\<close>, \<open>Main_Program\<close>: the methods the SDK calls, and \<open>main\<close>. \<open>Service\<close>: any sequence of requests,
      hooks and ticks after it, from the command line on. \<open>Lockout\<close>: how the chaos device can shut
      itself off. \<open>Logger\<close>: the log threshold and the lines it lets through.

  \<^bold>\<open>How state and operations correspond.\<close> A file-scope variable is a field of \<open>world\<close>, a map keyed by
  device id is an ordered association list, an operation returns its result and the new state, and an
  exception is the left value of a sum or the option before the state. Definitions keep the
  names of the code, with the module in front where two modules use the same one.
  Integers keep their width (\<open>word\<close>, or \<open>int\<close> with \<open>wrap64\<close> for clock arithmetic), time is in
  nanoseconds of the steady clock. A function under a mutex is one step.

  \<^bold>\<open>What the lemmas show.\<close> For each device module: which calls it accepts, exactly; that its state stays in
  range over any sequence of operations; what its physics and its control loop do. For the fault table:
  the time windows of faults, and which of them outlive their use. For manager and runtime: the order of the
  gates, what reads and calls answer, inventory against gate. For start-up: the
  report against the devices that can be addressed, strict and degraded, and what \<open>main\<close> leaves behind
  when it serves and when it returns. For the configuration: the rules a loaded one satisfies, which files load, and each field
  as the document gives it.
  For the FluxGraph client: the session in force, bounded waiting with the waits for the connection counted, commands
  delivered once, sensors as the server answers them, and when a session is lost and that it stays lost. For the
  logger: levels in any mixture of cases, and the lines at or above the threshold on a scale of its own. For the two threads: every operation is a sequence of accesses, so
  invariants of accesses hold of the process; the ticker keeps its cadence, and it stops within a period of being told to,
  also while it catches up; the
  mutexes are locked in an order that admits no deadlock. For the fault table: the answers to every history are those of
  its specification.

  \<^bold>\<open>Bounds and fuel.\<close> No loop of the code needs fuel. The retry loops of the client count down the two
  attempts of \<open>kMaxRpcAttempts\<close>. The catch-up loop of the ticker may run forever when the period is not positive,
  so it is a \<open>partial_function\<close>, and its termination is decided exactly; it loads the flag before every turn, and
  a stream gives what the other threads do after each. The ticker thread itself runs until it
  is stopped: \<open>ticker_loop\<close> takes one element of a list, what the environment does during the round,
  per round, and properties quantify over all lists. Elements are state changes made of atomic
  accesses, which is how the handlers interfere. The time points of the ticker are unbounded integers, and a
  sleep lasts exactly as long as it is asked to, where the library promises at least that; what a sleep of the
  ticker takes longer is time that passes in the interference after it.

  \<^bold>\<open>Parameters.\<close> \<open>lib\<close>: \<open>exp\<close>, the random distributions and number parsing of the C++ library, with laws on range. \<open>sdk\<close>: the YAML
  reader, the file system and the validator of the provider SDK, with the law that a document the
  validator finds no error in has the types and bounds of the provider's schema. \<open>flux_server\<close>: gRPC and the simulation server, a function of its own state
  and the request. \<open>build\<close>: what the build defines and what \<open>main\<close> uses of the library. \<open>Environment\<close> and
  the theories that use them give concrete instances on which the laws hold.

  \<^bold>\<open>Not modelled.\<close> Log lines outside the logger (they are no input of anything); the run loop of the
  SDK, its handlers and its validator, which are not under \<open>src\<close>; yaml-cpp, gRPC, protobuf and the generated code; the
  Windows branches of \<open>main.cpp\<close> and \<open>logger.cpp\<close>; \<open>is_connected\<close>, a query of the gRPC channel nothing
  calls; the unregistration the destructor of the client sends when the engine is dropped or the process exits; the insides of \<open>std::mutex\<close> and
  \<open>std::thread\<close>, which are taken to exclude and to join; the locks of the libraries. Data races are not modelled: an access to the state of one module is taken to be atomic.
\<close>

end
